theory Spec2Isabelle
  imports Complex_Main "HOL-Library.List_Lexorder" "HOL-Library.Char_ord"
begin

section \<open>Spendly: monthly aggregation and reporting\<close>

text \<open>
  A shallow embedding of \<^verbatim>\<open>budget/models.py\<close> and of the views of
  \<^verbatim>\<open>budget/views.py\<close> that aggregate, report and reset a month.

  Conventions of the embedding.
  \<^item> A Python \<^verbatim>\<open>Decimal\<close> is a rational number: sums, differences and
    quotients are exact. The 28-significant-digit rounding of the decimal context and the
    \<^verbatim>\<open>float(...)\<close> conversions that the views apply before display are not
    part of the model.
  \<^item> A table is the list of its rows; a row carries its primary key. The one-to-one
    table \<^verbatim>\<open>UserProfile\<close> is a map from the user's key.
  \<^item> The clock (\<^verbatim>\<open>timezone.now()\<close>) is an argument of every view that reads it.
  \<^item> The decorator \<^verbatim>\<open>login_required\<close> is outside the model: a request
    carries the authenticated user.
\<close>

subsection \<open>Decimal digits and strings\<close>

type_synonym decimal = rat

definition digit_char :: "nat \<Rightarrow> char" where
  "digit_char n = ''0123456789'' ! (n mod 10)"

text \<open>\<^verbatim>\<open>%m\<close>, \<^verbatim>\<open>%d\<close>, \<^verbatim>\<open>%H\<close>, \<^verbatim>\<open>%M\<close>, \<^verbatim>\<open>%S\<close>: two digits, zero padded.\<close>

definition pad2 :: "nat \<Rightarrow> string" where
  "pad2 n = [digit_char (n div 10), digit_char n]"

text \<open>\<^verbatim>\<open>%Y\<close>: the year with century, four digits (years 1 to 9999).\<close>

definition pad4 :: "nat \<Rightarrow> string" where
  "pad4 n = [digit_char (n div 1000), digit_char (n div 100), digit_char (n div 10), digit_char n]"

text \<open>\<^verbatim>\<open>str(n)\<close> of a non-negative integer.\<close>

fun str_nat :: "nat \<Rightarrow> string" where
  "str_nat n = (if n < 10 then [digit_char n] else str_nat (n div 10) @ [digit_char n])"

subsection \<open>Timestamps\<close>

record datetime =
  year :: nat
  month :: nat
  day :: nat
  hour :: nat
  minute :: nat
  second :: nat


text \<open>\<^verbatim>\<open>d.strftime('%Y-%m')\<close>\<close>

definition strftime_Ym :: "datetime \<Rightarrow> string" where
  "strftime_Ym d = pad4 (year d) @ ''-'' @ pad2 (month d)"

text \<open>\<^verbatim>\<open>d.strftime('%Y-%m-%d')\<close>\<close>

definition strftime_Ymd :: "datetime \<Rightarrow> string" where
  "strftime_Ymd d = strftime_Ym d @ ''-'' @ pad2 (day d)"

text \<open>\<^verbatim>\<open>d.strftime('%Y-%m-%d %H:%M:%S')\<close>\<close>

definition strftime_YmdHMS :: "datetime \<Rightarrow> string" where
  "strftime_YmdHMS d =
     strftime_Ymd d @ '' '' @ pad2 (hour d) @ '':'' @ pad2 (minute d) @ '':'' @ pad2 (second d)"

subsection \<open>The models of \<^verbatim>\<open>budget/models.py\<close>\<close>

text \<open>
  Columns that no modelled view reads (\<^verbatim>\<open>created_at\<close>, \<^verbatim>\<open>updated_at\<close>,
  the profile's picture, phone number, birth date and address) are left out. A row's
  \<^verbatim>\<open>user\<close> column holds the user's primary key; \<^verbatim>\<open>pk\<close> is
  \<open>None\<close> for an instance that has not been saved yet.
\<close>

record user =
  user_pk :: nat
  username :: string
  user_full_name :: string
  email :: string

record user_profile =
  monthly_salary :: decimal

record expense =
  exp_pk :: "nat option"
  exp_user :: nat
  exp_category :: string
  exp_amount :: decimal
  exp_description :: string
  exp_date :: datetime
  exp_month_year :: string

record investment =
  inv_pk :: "nat option"
  inv_user :: nat
  inv_type :: string
  inv_amount :: decimal
  inv_description :: string
  inv_date :: datetime
  inv_month_year :: string

record budget =
  bud_pk :: "nat option"
  bud_user :: nat
  bud_category :: string
  bud_allocated_amount :: decimal
  bud_month_year :: string

record monthly_report =
  rep_pk :: "nat option"
  rep_user :: nat
  rep_month_year :: string
  rep_total_income :: decimal
  rep_total_expenses :: decimal
  rep_total_investments :: decimal
  rep_total_savings :: decimal
  rep_pdf_file :: string

record db =
  profiles :: "nat \<rightharpoonup> user_profile"
  expenses :: "expense list"
  investments :: "investment list"
  budgets :: "budget list"
  reports :: "monthly_report list"

text \<open>\<^verbatim>\<open>Expense.CATEGORY_CHOICES\<close> (the same list is \<^verbatim>\<open>Budget.CATEGORY_CHOICES\<close>).\<close>

definition CATEGORY_CHOICES :: "(string \<times> string) list" where
  "CATEGORY_CHOICES =
     [(''Food'', ''Food''), (''Transport'', ''Transport''), (''Shopping'', ''Shopping''),
      (''Bills'', ''Bills''), (''Entertainment'', ''Entertainment''),
      (''Healthcare'', ''Healthcare''), (''Education'', ''Education''), (''Other'', ''Other'')]"

subsection \<open>Saving a row\<close>

text \<open>
  \<^verbatim>\<open>Model.save()\<close>: an instance without a key is inserted under a fresh key; an
  instance with a key replaces the row of that key, and is inserted when there is none.
\<close>

definition next_pk :: "nat option list \<Rightarrow> nat" where
  "next_pk ks = Suc (fold (\<lambda>k m. case k of None \<Rightarrow> m | Some n \<Rightarrow> max n m) ks 0)"

definition save_row ::
  "('r \<Rightarrow> nat option) \<Rightarrow> (nat option \<Rightarrow> 'r \<Rightarrow> 'r) \<Rightarrow> 'r \<Rightarrow> 'r list \<Rightarrow> 'r \<times> 'r list" where
  "save_row pk set_pk obj rows =
     (case pk obj of
        None \<Rightarrow> (let obj' = set_pk (Some (next_pk (map pk rows))) obj in (obj', rows @ [obj']))
      | Some k \<Rightarrow>
          if list_ex (\<lambda>r. pk r = Some k) rows
          then (obj, map (\<lambda>r. if pk r = Some k then obj else r) rows)
          else (obj, rows @ [obj]))"

text \<open>
  \<^verbatim>\<open>Expense.save\<close> (models.py, lines 50 to 53) and \<^verbatim>\<open>Investment.save\<close>
  (lines 81 to 84): the bucket is overwritten from the date, then the row is written.
\<close>

definition Expense_save :: "expense \<Rightarrow> db \<Rightarrow> expense \<times> db" where
  "Expense_save self s =
     (let self1 = self\<lparr>exp_month_year := strftime_Ym (exp_date self)\<rparr>;
          (self2, rows) = save_row exp_pk (\<lambda>k r. r\<lparr>exp_pk := k\<rparr>) self1 (expenses s)
      in (self2, s\<lparr>expenses := rows\<rparr>))"

definition Investment_save :: "investment \<Rightarrow> db \<Rightarrow> investment \<times> db" where
  "Investment_save self s =
     (let self1 = self\<lparr>inv_month_year := strftime_Ym (inv_date self)\<rparr>;
          (self2, rows) = save_row inv_pk (\<lambda>k r. r\<lparr>inv_pk := k\<rparr>) self1 (investments s)
      in (self2, s\<lparr>investments := rows\<rparr>))"

text \<open>
  The cleaned data of \<^verbatim>\<open>ExpenseForm\<close> and \<^verbatim>\<open>InvestmentForm\<close>
  (forms.py): the four fields of \<^verbatim>\<open>Meta.fields\<close>; the bucket is not one of them.
\<close>

record expense_form =
  ef_category :: string
  ef_amount :: decimal
  ef_description :: string
  ef_date :: datetime

record investment_form =
  if_investment_type :: string
  if_amount :: decimal
  if_description :: string
  if_date :: datetime

text \<open>
  \<^verbatim>\<open>add_expense\<close> (views.py, lines 197 to 210), the branch of a POST whose form is
  valid: \<^verbatim>\<open>form.save(commit=False)\<close> builds the instance (the bucket column is
  empty), the view sets the user and saves.
\<close>

definition add_expense :: "user \<Rightarrow> expense_form \<Rightarrow> db \<Rightarrow> expense \<times> db" where
  "add_expense u f s =
     Expense_save \<lparr>exp_pk = None, exp_user = user_pk u, exp_category = ef_category f,
                    exp_amount = ef_amount f, exp_description = ef_description f,
                    exp_date = ef_date f, exp_month_year = []\<rparr> s"

text \<open>
  \<^verbatim>\<open>edit_expense\<close> (lines 248 to 261), same branch: the row of that key and user
  (\<open>None\<close> is the 404 of \<^verbatim>\<open>get_object_or_404\<close>) takes the form's fields and is
  saved.
\<close>

definition edit_expense :: "user \<Rightarrow> nat \<Rightarrow> expense_form \<Rightarrow> db \<Rightarrow> (expense \<times> db) option" where
  "edit_expense u expense_id f s =
     (case find (\<lambda>r. exp_pk r = Some expense_id \<and> exp_user r = user_pk u) (expenses s) of
        None \<Rightarrow> None
      | Some e \<Rightarrow>
          Some (Expense_save (e\<lparr>exp_category := ef_category f, exp_amount := ef_amount f,
                                exp_description := ef_description f, exp_date := ef_date f\<rparr>) s))"

definition add_investment :: "user \<Rightarrow> investment_form \<Rightarrow> db \<Rightarrow> investment \<times> db" where
  "add_investment u f s =
     Investment_save \<lparr>inv_pk = None, inv_user = user_pk u, inv_type = if_investment_type f,
                       inv_amount = if_amount f, inv_description = if_description f,
                       inv_date = if_date f, inv_month_year = []\<rparr> s"

definition edit_investment ::
  "user \<Rightarrow> nat \<Rightarrow> investment_form \<Rightarrow> db \<Rightarrow> (investment \<times> db) option" where
  "edit_investment u investment_id f s =
     (case find (\<lambda>r. inv_pk r = Some investment_id \<and> inv_user r = user_pk u) (investments s) of
        None \<Rightarrow> None
      | Some e \<Rightarrow>
          Some (Investment_save (e\<lparr>inv_type := if_investment_type f, inv_amount := if_amount f,
                                   inv_description := if_description f, inv_date := if_date f\<rparr>) s))"

subsection \<open>Aggregates\<close>

text \<open>
  \<^verbatim>\<open>qs.aggregate(total=Sum('amount'))['total']\<close>: the sum of the column, and
  \<open>None\<close> over no rows.
\<close>

definition aggregate_Sum :: "decimal list \<Rightarrow> decimal option" where
  "aggregate_Sum xs = (if xs = [] then None else Some (sum_list xs))"

text \<open>
  Python's \<^verbatim>\<open>v or d\<close> for \<open>v\<close> \<open>None\<close> or a \<^verbatim>\<open>Decimal\<close>: a zero
  decimal is falsy, as \<open>None\<close> is.
\<close>

definition or_decimal :: "decimal option \<Rightarrow> decimal \<Rightarrow> decimal" where
  "or_decimal v d = (case v of None \<Rightarrow> d | Some x \<Rightarrow> if x = 0 then d else x)"

text \<open>
  \<^verbatim>\<open>Expense.objects.filter(user=u, month_year=m).aggregate(total=Sum('amount'))['total'] or Decimal('0.00')\<close>,
  the expression of views.py at lines 91 to 94, 139 to 142, 530 to 533 and 606, and the
  same over \<^verbatim>\<open>Investment\<close> (lines 96 to 99 and 535 to 538).
\<close>

definition expense_total :: "db \<Rightarrow> nat \<Rightarrow> string \<Rightarrow> decimal" where
  "expense_total s u m =
     or_decimal (aggregate_Sum (map exp_amount
        (filter (\<lambda>e. exp_user e = u \<and> exp_month_year e = m) (expenses s)))) 0"

definition investment_total :: "db \<Rightarrow> nat \<Rightarrow> string \<Rightarrow> decimal" where
  "investment_total s u m =
     or_decimal (aggregate_Sum (map inv_amount
        (filter (\<lambda>i. inv_user i = u \<and> inv_month_year i = m) (investments s)))) 0"

text \<open>The same with the category in the filter (lines 397 to 401, 600 and 727).\<close>

definition expense_category_total :: "db \<Rightarrow> nat \<Rightarrow> string \<Rightarrow> string \<Rightarrow> decimal" where
  "expense_category_total s u c m =
     or_decimal (aggregate_Sum (map exp_amount
        (filter (\<lambda>e. exp_user e = u \<and> exp_category e = c \<and> exp_month_year e = m) (expenses s)))) 0"

text \<open>
  \<^verbatim>\<open>UserProfile.objects.get_or_create(user=request.user)\<close>: a missing profile is
  created with the column default, a salary of 0.
\<close>

definition UserProfile_get_or_create :: "nat \<Rightarrow> db \<Rightarrow> (user_profile \<times> bool) \<times> db" where
  "UserProfile_get_or_create u s =
     (case profiles s u of
        Some p \<Rightarrow> ((p, False), s)
      | None \<Rightarrow> (let p = \<lparr>monthly_salary = 0\<rparr> in ((p, True), s\<lparr>profiles := (profiles s)(u \<mapsto> p)\<rparr>)))"

subsection \<open>Monthly totals\<close>

record totals =
  total_income :: decimal
  total_expenses :: decimal
  total_investments :: decimal
  total_savings :: decimal

text \<open>
  The totals of a month, as \<^verbatim>\<open>dashboard\<close> (views.py, lines 86 to 101) and
  \<^verbatim>\<open>download_report\<close> (lines 527 to 540) compute them for the current month.
\<close>

definition monthly_totals :: "user \<Rightarrow> string \<Rightarrow> db \<Rightarrow> totals \<times> db" where
  "monthly_totals u current_month s =
     (let ((profile, created), s1) = UserProfile_get_or_create (user_pk u) s;
          income = monthly_salary profile;
          exps = expense_total s1 (user_pk u) current_month;
          invs = investment_total s1 (user_pk u) current_month;
          savings = income - exps - invs
      in (\<lparr>total_income = income, total_expenses = exps, total_investments = invs,
            total_savings = savings\<rparr>, s1))"

subsection \<open>Budgets against spending\<close>

text \<open>\<^verbatim>\<open>Budget.get_spent_amount\<close> (models.py, lines 113 to 120).\<close>

definition get_spent_amount :: "db \<Rightarrow> budget \<Rightarrow> decimal" where
  "get_spent_amount s self =
     sum_list (map exp_amount
       (filter (\<lambda>e. exp_user e = bud_user self \<and> exp_category e = bud_category self \<and>
                     exp_month_year e = bud_month_year self) (expenses s)))"

text \<open>\<^verbatim>\<open>Budget.get_remaining_budget\<close> (lines 122 to 125).\<close>

definition get_remaining_budget :: "db \<Rightarrow> budget \<Rightarrow> decimal" where
  "get_remaining_budget s self =
     (let spent = get_spent_amount s self in bud_allocated_amount self - spent)"

text \<open>\<^verbatim>\<open>Budget.get_percentage_used\<close> (lines 127 to 132).\<close>

definition get_percentage_used :: "db \<Rightarrow> budget \<Rightarrow> decimal" where
  "get_percentage_used s self =
     (if bud_allocated_amount self = 0 then 0
      else (let spent = get_spent_amount s self in (spent / bud_allocated_amount self) * 100))"

text \<open>
  \<^verbatim>\<open>Budget.objects.filter(user=u, month_year=m)\<close>, in the order of
  \<^verbatim>\<open>Meta.ordering = ['category']\<close>.
\<close>

definition Budget_filter :: "db \<Rightarrow> nat \<Rightarrow> string \<Rightarrow> budget list" where
  "Budget_filter s u m =
     sort_key bud_category (filter (\<lambda>b. bud_user b = u \<and> bud_month_year b = m) (budgets s))"

text \<open>
  \<^verbatim>\<open>budget_management\<close>, the part after the POST branch (views.py, lines 381 to
  418): the dictionary of this month's allocations, then one entry per category of
  \<^verbatim>\<open>Expense.CATEGORY_CHOICES\<close>.
\<close>

record budget_entry =
  be_category :: string
  be_allocated :: decimal
  be_actual :: decimal
  be_remaining :: decimal
  be_remaining_abs :: decimal
  be_percent_used :: decimal

definition budget_dict :: "db \<Rightarrow> nat \<Rightarrow> string \<Rightarrow> (string \<rightharpoonup> decimal)" where
  "budget_dict s u current_month =
     fold (\<lambda>b m. m(bud_category b \<mapsto> bud_allocated_amount b)) (Budget_filter s u current_month) Map.empty"

definition management_entry :: "db \<Rightarrow> nat \<Rightarrow> string \<Rightarrow> string \<Rightarrow> budget_entry" where
  "management_entry s u current_month category =
     (let budget_amount = (case budget_dict s u current_month category of None \<Rightarrow> 0 | Some a \<Rightarrow> a);
          actual_spent = expense_category_total s u category current_month;
          percent_used = (if budget_amount \<noteq> 0 then (actual_spent / budget_amount) * 100 else 0);
          remaining_val = budget_amount - actual_spent
      in \<lparr>be_category = category, be_allocated = budget_amount, be_actual = actual_spent,
           be_remaining = remaining_val, be_remaining_abs = \<bar>remaining_val\<bar>,
           be_percent_used = percent_used\<rparr>)"

definition management_budget_vs_actual :: "user \<Rightarrow> string \<Rightarrow> db \<Rightarrow> budget_entry list" where
  "management_budget_vs_actual u current_month s =
     map (management_entry s (user_pk u) current_month) (map fst CATEGORY_CHOICES)"

text \<open>
  The budgets of \<^verbatim>\<open>dashboard\<close> (views.py, lines 116 to 133). 
  \<^verbatim>\<open>order_by('-month_year').first()\<close> is the first row in descending order of the
  bucket, \<open>None\<close> over no rows.
\<close>

record dashboard_entry =
  de_category :: string
  de_allocated :: decimal
  de_actual :: decimal
  de_remaining :: decimal

definition latest_budget :: "budget list \<Rightarrow> budget option" where
  "latest_budget bs = (case rev (sort_key bud_month_year bs) of [] \<Rightarrow> None | b # _ \<Rightarrow> Some b)"

definition dashboard_budgets :: "user \<Rightarrow> string \<Rightarrow> db \<Rightarrow> string \<times> dashboard_entry list" where
  "dashboard_budgets u current_month s =
     (let budgets0 = Budget_filter s (user_pk u) current_month;
          (budget_month_used, bs) =
            (if budgets0 = [] then
               (case latest_budget (filter (\<lambda>b. bud_user b = user_pk u) (budgets s)) of
                  None \<Rightarrow> (current_month, budgets0)
                | Some latest \<Rightarrow>
                    (bud_month_year latest, Budget_filter s (user_pk u) (bud_month_year latest)))
             else (current_month, budgets0))
      in (budget_month_used,
          map (\<lambda>budget. \<lparr>de_category = bud_category budget,
                          de_allocated = bud_allocated_amount budget,
                          de_actual = get_spent_amount s budget,
                          de_remaining = get_remaining_budget s budget\<rparr>) bs))"

subsection \<open>Calendar arithmetic\<close>

text \<open>
  The proleptic Gregorian ordinals of Python's \<^verbatim>\<open>datetime\<close> module, which
  \<^verbatim>\<open>timezone.now() - timedelta(days=k)\<close> goes through: \<^verbatim>\<open>_is_leap\<close>,
  \<^verbatim>\<open>_days_before_year\<close>, \<^verbatim>\<open>_days_in_month\<close>, \<^verbatim>\<open>_days_before_month\<close>,
  \<^verbatim>\<open>_ymd2ord\<close> and \<^verbatim>\<open>_ord2ymd\<close>. Index 0 of the two month tables is never
  read.
\<close>

definition is_leap :: "nat \<Rightarrow> bool" where
  "is_leap y = (y mod 4 = 0 \<and> (y mod 100 \<noteq> 0 \<or> y mod 400 = 0))"

definition days_before_year :: "nat \<Rightarrow> nat" where
  "days_before_year y = (let y1 = y - 1 in y1 * 365 + y1 div 4 - y1 div 100 + y1 div 400)"

definition DAYS_IN_MONTH :: "nat list" where
  "DAYS_IN_MONTH = [0, 31, 28, 31, 30, 31, 30, 31, 31, 30, 31, 30, 31]"

definition DAYS_BEFORE_MONTH :: "nat list" where
  "DAYS_BEFORE_MONTH = [0, 0, 31, 59, 90, 120, 151, 181, 212, 243, 273, 304, 334]"

definition days_in_month :: "nat \<Rightarrow> nat \<Rightarrow> nat" where
  "days_in_month y m = (if m = 2 \<and> is_leap y then 29 else DAYS_IN_MONTH ! m)"

definition days_before_month :: "nat \<Rightarrow> nat \<Rightarrow> nat" where
  "days_before_month y m = DAYS_BEFORE_MONTH ! m + (if m > 2 \<and> is_leap y then 1 else 0)"

definition ymd2ord :: "nat \<Rightarrow> nat \<Rightarrow> nat \<Rightarrow> nat" where
  "ymd2ord y m d = days_before_year y + days_before_month y m + d"

definition ord2ymd :: "nat \<Rightarrow> nat \<times> nat \<times> nat" where
  "ord2ymd n0 =
     (let n = n0 - 1;
          n400 = n div 146097; n = n mod 146097;
          n100 = n div 36524; n = n mod 36524;
          n4 = n div 1461; n = n mod 1461;
          n1 = n div 365; n = n mod 365;
          y = n400 * 400 + 1 + n100 * 100 + n4 * 4 + n1
      in if n1 = 4 \<or> n100 = 4 then (y - 1, 12, 31)
         else
           (let leapyear = (n1 = 3 \<and> (n4 \<noteq> 24 \<or> n100 = 3));
                m = (n + 50) div 32;
                preceding = DAYS_BEFORE_MONTH ! m + (if m > 2 \<and> leapyear then 1 else 0)
            in if preceding > n
               then (y, m - 1,
                     n - (preceding - (DAYS_IN_MONTH ! (m - 1) + (if m - 1 = 2 \<and> leapyear then 1 else 0))) + 1)
               else (y, m, n - preceding + 1)))"

definition MAXORDINAL :: nat where
  "MAXORDINAL = 3652059"

text \<open>What the constructor of \<^verbatim>\<open>datetime\<close> accepts for the date.\<close>

definition valid_date :: "datetime \<Rightarrow> bool" where
  "valid_date d =
     (1 \<le> year d \<and> year d \<le> 9999 \<and> 1 \<le> month d \<and> month d \<le> 12 \<and>
      1 \<le> day d \<and> day d \<le> days_in_month (year d) (month d))"

definition toordinal :: "datetime \<Rightarrow> nat" where
  "toordinal d = ymd2ord (year d) (month d) (day d)"

text \<open>
  \<^verbatim>\<open>d - timedelta(days=k)\<close>: the date \<open>k\<close> days earlier at the same time of day;
  \<open>None\<close> is the \<^verbatim>\<open>OverflowError\<close> of a result outside years 1 to 9999.
\<close>

definition minus_days :: "datetime \<Rightarrow> nat \<Rightarrow> datetime option" where
  "minus_days d k =
     (let n = int (toordinal d) - int k
      in if 0 < n \<and> n \<le> int MAXORDINAL
         then (case ord2ymd (nat n) of (y, m, dd) \<Rightarrow> Some (d\<lparr>year := y, month := m, day := dd\<rparr>))
         else None)"

subsection \<open>Exceptions\<close>

datatype exn =
  OverflowError
  | MultipleObjectsReturned
  | InvalidOperation
  | FileNotFoundError
  | RenderError string

subsection \<open>The spending trend\<close>

text \<open>
  The loop of \<^verbatim>\<open>dashboard\<close> (views.py, lines 136 to 147) and of
  \<^verbatim>\<open>download_report\<close> (lines 603 to 608), there with \<^verbatim>\<open>range(6)\<close>; the
  number of steps is an argument here. The list is built newest first and reversed.
\<close>

fun trend_loop ::
  "db \<Rightarrow> nat \<Rightarrow> datetime \<Rightarrow> nat list \<Rightarrow> (string \<times> decimal) list \<Rightarrow> exn + (string \<times> decimal) list" where
  "trend_loop s u now [] spending_trend = Inr spending_trend"
| "trend_loop s u now (i # is) spending_trend =
     (case minus_days now (30 * i) of
        None \<Rightarrow> Inl OverflowError
      | Some d \<Rightarrow>
          (let month = strftime_Ym d;
               month_expenses = expense_total s u month
           in trend_loop s u now is (spending_trend @ [(month, month_expenses)])))"

definition spending_trend :: "db \<Rightarrow> nat \<Rightarrow> datetime \<Rightarrow> nat \<Rightarrow> exn + (string \<times> decimal) list" where
  "spending_trend s u now n =
     (case trend_loop s u now [0..<n] [] of Inl e \<Rightarrow> Inl e | Inr xs \<Rightarrow> Inr (rev xs))"

subsection \<open>The dashboard\<close>

text \<open>
  \<^verbatim>\<open>dashboard\<close> (views.py, lines 82 to 176): the entries of the template context
  that the aggregation produces. The category breakdown, the recent transactions and the
  JSON copies are left out.
\<close>

record dashboard_context =
  ctx_totals :: totals
  ctx_budget_vs_actual :: "dashboard_entry list"
  ctx_spending_trend :: "(string \<times> decimal) list"
  ctx_current_month :: string
  ctx_budget_month_used :: string

definition dashboard :: "user \<Rightarrow> datetime \<Rightarrow> db \<Rightarrow> (exn + dashboard_context) \<times> db" where
  "dashboard u now s =
     (let current_month = strftime_Ym now;
          (t, s1) = monthly_totals u current_month s;
          (budget_month_used, budget_vs_actual) = dashboard_budgets u current_month s1
      in case spending_trend s1 (user_pk u) now 6 of
           Inl e \<Rightarrow> (Inl e, s1)
         | Inr trend \<Rightarrow>
             (Inr \<lparr>ctx_totals = t, ctx_budget_vs_actual = budget_vs_actual,
                   ctx_spending_trend = trend, ctx_current_month = current_month,
                   ctx_budget_month_used = budget_month_used\<rparr>, s1))"

subsection \<open>Requests, responses and the state of a request\<close>

text \<open>
  A view runs against the tables, the files under the media directory and the list of
  flash messages of the session. \<^verbatim>\<open>FileResponse\<close> carries the attachment's file name
  and the bytes read from the opened file.
\<close>

record request =
  req_method :: string
  req_user :: user
  req_POST :: "string \<rightharpoonup> string"

datatype level = SUCCESS | WARNING | ERROR

datatype response =
  Redirect string
  | Render string
  | FileResponse string string

record world =
  store :: db
  files :: "string \<rightharpoonup> string"
  messages :: "(level \<times> string) list"

definition add_message :: "level \<Rightarrow> string \<Rightarrow> world \<Rightarrow> world" where
  "add_message l text w = w\<lparr>messages := messages w @ [(l, text)]\<rparr>"

text \<open>\<^verbatim>\<open>with open(path, 'w') as f: f.write(...)\<close>: the file is created or overwritten.\<close>

definition write_file :: "string \<Rightarrow> string \<Rightarrow> world \<Rightarrow> world" where
  "write_file path content w = w\<lparr>files := (files w)(path \<mapsto> content)\<rparr>"

subsection \<open>Resetting the month\<close>

text \<open>
  \<^verbatim>\<open>reset_month\<close> (views.py, lines 497 to 515). \<^verbatim>\<open>QuerySet.delete()\<close> returns
  the number of rows deleted; no other table refers to an expense or an investment.
\<close>

definition reset_month :: "request \<Rightarrow> datetime \<Rightarrow> world \<Rightarrow> response \<times> world" where
  "reset_month request now w =
     (if req_method request = ''POST'' then
        (let current_month = strftime_Ym now;
             u = user_pk (req_user request);
             s = store w;
             exp_count = length (filter (\<lambda>e. exp_user e = u \<and> exp_month_year e = current_month) (expenses s));
             s1 = s\<lparr>expenses := filter (\<lambda>e. \<not> (exp_user e = u \<and> exp_month_year e = current_month)) (expenses s)\<rparr>;
             inv_count = length (filter (\<lambda>i. inv_user i = u \<and> inv_month_year i = current_month) (investments s1));
             s2 = s1\<lparr>investments := filter (\<lambda>i. \<not> (inv_user i = u \<and> inv_month_year i = current_month)) (investments s1)\<rparr>
         in (Redirect ''dashboard'',
             add_message SUCCESS
               (''Reset complete: deleted '' @ str_nat exp_count @ '' expenses and '' @
                str_nat inv_count @ '' investments for '' @ current_month @ ''.'')
               (w\<lparr>store := s2\<rparr>)))
      else (Render ''budget/reset_month.html'', w))"

subsection \<open>The monthly report\<close>

text \<open>
  \<^verbatim>\<open>s.replace(old, new)\<close> for a non-empty \<open>old\<close>: every occurrence, left to
  right, without overlap.
\<close>

function replace :: "string \<Rightarrow> string \<Rightarrow> string \<Rightarrow> string" where
  "replace old new s =
     (if s = [] \<or> old = [] then s
      else if take (length old) s = old then new @ replace old new (drop (length old) s)
      else hd s # replace old new (tl s))"
  by pat_completeness auto

termination
  by (relation "measure (\<lambda>(old, new, s). length s)") (auto simp: neq_Nil_conv)

text \<open>\<^verbatim>\<open>os.path.basename\<close>: what follows the last separator.\<close>

definition basename :: "string \<Rightarrow> string" where
  "basename p = rev (takeWhile (\<lambda>c. c \<noteq> CHR ''/'') (rev p))"

text \<open>
  The format \<^verbatim>\<open>:,.2f\<close>: sign, integer part in groups of three digits separated by
  commas, a point and two decimals. The argument is rounded to the nearest hundredth; an
  amount with two decimal places is printed as it is.
\<close>

definition pad3 :: "nat \<Rightarrow> string" where
  "pad3 n = [digit_char (n div 100), digit_char (n div 10), digit_char n]"

fun group3 :: "nat \<Rightarrow> string" where
  "group3 n = (if n < 1000 then str_nat n else group3 (n div 1000) @ '','' @ pad3 (n mod 1000))"

definition format_money :: "decimal \<Rightarrow> string" where
  "format_money x =
     (let c = nat (round (\<bar>x\<bar> * 100))
      in (if x < 0 then ''-'' else []) @ group3 (c div 100) @ ''.'' @ pad2 (c mod 100))"

text \<open>
  What the request finds outside the repository: whether ReportLab can be imported, what
  building the PDF document does (it raises, or yields the bytes of the file),
  \<^verbatim>\<open>str(e)\<close> and \<^verbatim>\<open>traceback.format_exc()\<close> for a caught exception, and the
  setting \<^verbatim>\<open>DEFAULT_CURRENCY_SYMBOL\<close>.
\<close>

record env =
  reportlab_importable :: bool
  doc_build :: "exn + string"
  str_exn :: "exn \<Rightarrow> string"
  format_exc :: "exn \<Rightarrow> string"
  DEFAULT_CURRENCY_SYMBOL :: string

definition newline :: string where
  "newline = [CHR 0x0A]"

text \<open>The eight lines both text branches write (views.py, lines 567 to 574 and 771 to 778).\<close>

definition text_summary :: "string \<Rightarrow> user \<Rightarrow> string \<Rightarrow> totals \<Rightarrow> datetime \<Rightarrow> string" where
  "text_summary currency_symbol u current_month t now =
     ''Spendly Monthly Report - '' @ current_month @ newline @
     ''User: '' @ (if user_full_name u \<noteq> [] then user_full_name u else username u) @ newline @
     ''Email: '' @ email u @ newline @
     ''Monthly Salary: '' @ currency_symbol @ format_money (total_income t) @ newline @
     ''Total Expenses: '' @ currency_symbol @ format_money (total_expenses t) @ newline @
     ''Total Investments: '' @ currency_symbol @ format_money (total_investments t) @ newline @
     ''Total Savings: '' @ currency_symbol @ format_money (total_savings t) @ newline @
     ''Report Generated: '' @ strftime_YmdHMS now @ newline"

text \<open>
  \<^verbatim>\<open>MonthlyReport.objects.update_or_create(user=u, month_year=m, defaults=...)\<close>: the
  one matching row is updated, a missing one is created, and several matching rows raise.
\<close>

definition MonthlyReport_update_or_create ::
  "nat \<Rightarrow> string \<Rightarrow> totals \<Rightarrow> string \<Rightarrow> db \<Rightarrow> exn + ((monthly_report \<times> bool) \<times> db)" where
  "MonthlyReport_update_or_create u m t path s =
     (case filter (\<lambda>r. rep_user r = u \<and> rep_month_year r = m) (reports s) of
        [] \<Rightarrow>
          (let (obj, rows) =
                 save_row rep_pk (\<lambda>k r. r\<lparr>rep_pk := k\<rparr>)
                   \<lparr>rep_pk = None, rep_user = u, rep_month_year = m,
                    rep_total_income = total_income t, rep_total_expenses = total_expenses t,
                    rep_total_investments = total_investments t,
                    rep_total_savings = total_savings t, rep_pdf_file = path\<rparr> (reports s)
           in Inr ((obj, True), s\<lparr>reports := rows\<rparr>))
      | [r] \<Rightarrow>
          (let (obj, rows) =
                 save_row rep_pk (\<lambda>k r. r\<lparr>rep_pk := k\<rparr>)
                   (r\<lparr>rep_total_income := total_income t, rep_total_expenses := total_expenses t,
                      rep_total_investments := total_investments t,
                      rep_total_savings := total_savings t, rep_pdf_file := path\<rparr>) (reports s)
           in Inr ((obj, False), s\<lparr>reports := rows\<rparr>))
      | _ \<Rightarrow> Inl MultipleObjectsReturned)"

text \<open>
  \<^verbatim>\<open>FileResponse(open(os.path.abspath(path), 'rb'), as_attachment=True,
  filename=os.path.basename(path))\<close>
\<close>

definition open_response :: "string \<Rightarrow> world \<Rightarrow> exn + response" where
  "open_response path w =
     (case files w path of
        None \<Rightarrow> Inl FileNotFoundError
      | Some content \<Rightarrow> Inr (FileResponse (basename path) content))"

text \<open>
  The body of the \<^verbatim>\<open>try\<close> of \<^verbatim>\<open>download_report\<close> (views.py, lines 592 to
  766): the data for the charts, the document, the report row, the response. \<open>Inl\<close> is
  the exception that reaches the handler, with the state it leaves.
\<close>

definition pdf_attempt ::
  "env \<Rightarrow> user \<Rightarrow> string \<Rightarrow> totals \<Rightarrow> string \<Rightarrow> datetime \<Rightarrow> world \<Rightarrow> (exn \<times> world) + (response \<times> world)" where
  "pdf_attempt ev u current_month t pdf_path now w =
     (case spending_trend (store w) (user_pk u) now 6 of
        Inl e \<Rightarrow> Inl (e, w)
      | Inr trend_qs \<Rightarrow>
          (case doc_build ev of
             Inl e \<Rightarrow> Inl (e, w)
           | Inr bytes \<Rightarrow>
               (let w1 = write_file pdf_path bytes w
                in case MonthlyReport_update_or_create (user_pk u) current_month t pdf_path (store w1) of
                     Inl e \<Rightarrow> Inl (e, w1)
                   | Inr (_, s2) \<Rightarrow>
                       (let w2 = w1\<lparr>store := s2\<rparr>
                        in case open_response pdf_path w2 of
                             Inl e \<Rightarrow> Inl (e, w2)
                           | Inr resp \<Rightarrow> Inr (resp, w2)))))"

text \<open>
  The two artifact paths (views.py, lines 542 to 547): \<^verbatim>\<open>pdf_filename\<close> joined to
  \<^verbatim>\<open>media/reports\<close>, and \<^verbatim>\<open>pdf_path.replace('.pdf', '.txt')\<close>.
\<close>

definition report_pdf_path :: "user \<Rightarrow> string \<Rightarrow> string" where
  "report_pdf_path u current_month =
     ''media/reports/'' @ (''monthly_report_'' @ username u @ ''_'' @ current_month @ ''.pdf'')"

definition report_txt_path :: "user \<Rightarrow> string \<Rightarrow> string" where
  "report_txt_path u current_month = replace ''.pdf'' ''.txt'' (report_pdf_path u current_month)"

definition reportlab_missing_warning :: string where
  "reportlab_missing_warning =
     ''ReportLab not available '' @ [CHR 0xE2, CHR 0x80, CHR 0x94] @
     '' generated a plain text report instead. To enable PDF reports install reportlab and pillow and restart the server.''"

text \<open>\<^verbatim>\<open>download_report\<close> (views.py, lines 518 to 782).\<close>

definition download_report :: "env \<Rightarrow> request \<Rightarrow> datetime \<Rightarrow> world \<Rightarrow> (exn + response) \<times> world" where
  "download_report ev request now w =
     (if req_method request \<noteq> ''POST'' then
        (Inr (Redirect ''dashboard''),
         add_message ERROR ''Report download must be requested via the interface.'' w)
      else
        (let current_month = strftime_Ym now;
             u = req_user request;
             (t, s1) = monthly_totals u current_month (store w);
             w1 = w\<lparr>store := s1\<rparr>;
             pdf_path = report_pdf_path u current_month;
             currency_symbol = DEFAULT_CURRENCY_SYMBOL ev;
             txt_path = report_txt_path u current_month;
             summary = text_summary currency_symbol u current_month t now
         in if \<not> reportlab_importable ev then
              (let w2 = write_file txt_path summary w1
               in case MonthlyReport_update_or_create (user_pk u) current_month t txt_path (store w2) of
                    Inl e \<Rightarrow> (Inl e, w2)
                  | Inr (_, s2) \<Rightarrow>
                      (let w3 = add_message WARNING reportlab_missing_warning (w2\<lparr>store := s2\<rparr>)
                       in (open_response txt_path w3, w3)))
            else
              (case pdf_attempt ev u current_month t pdf_path now w1 of
                 Inr (resp, w2) \<Rightarrow> (Inr resp, w2)
               | Inl (e, w2) \<Rightarrow>
                   (let tb = format_exc ev e;
                        w3 = write_file txt_path
                               (summary @ newline @ ''--- DEBUG TRACEBACK ---'' @ newline @ tb) w2;
                        w4 = add_message ERROR
                               (''PDF generation failed, fallback text report saved. Error: '' @ str_exn ev e) w3
                    in (open_response txt_path w4, w4)))))"

subsection \<open>Setting the budgets of the month\<close>

text \<open>
  \<^verbatim>\<open>Budget.objects.get_or_create(user=u, category=c, month_year=m,
  defaults={'allocated_amount': a})\<close>: the one matching row, or a new row with the
  default; several matching rows raise.
\<close>

definition Budget_get_or_create ::
  "nat \<Rightarrow> string \<Rightarrow> string \<Rightarrow> decimal \<Rightarrow> db \<Rightarrow> exn + ((budget \<times> bool) \<times> db)" where
  "Budget_get_or_create u c m a s =
     (case filter (\<lambda>b. bud_user b = u \<and> bud_category b = c \<and> bud_month_year b = m) (budgets s) of
        [] \<Rightarrow>
          (let (obj, rows) =
                 save_row bud_pk (\<lambda>k r. r\<lparr>bud_pk := k\<rparr>)
                   \<lparr>bud_pk = None, bud_user = u, bud_category = c, bud_allocated_amount = a,
                    bud_month_year = m\<rparr> (budgets s)
           in Inr ((obj, True), s\<lparr>budgets := rows\<rparr>))
      | [b] \<Rightarrow> Inr ((b, False), s)
      | _ \<Rightarrow> Inl MultipleObjectsReturned)"

definition Budget_save :: "budget \<Rightarrow> db \<Rightarrow> budget \<times> db" where
  "Budget_save self s =
     (let (self1, rows) = save_row bud_pk (\<lambda>k r. r\<lparr>bud_pk := k\<rparr>) self (budgets s)
      in (self1, s\<lparr>budgets := rows\<rparr>))"

text \<open>
  The body of the loop of \<^verbatim>\<open>budget_management\<close> (views.py, lines 365 to 376) for
  one category. \<open>Decimal\<close> is the constructor \<^verbatim>\<open>Decimal(amount)\<close> on the submitted
  string: \<open>None\<close> where it raises \<^verbatim>\<open>InvalidOperation\<close> (or yields a value that
  cannot be compared or stored), the number otherwise.
\<close>

definition budget_update_step ::
  "(string \<Rightarrow> decimal option) \<Rightarrow> request \<Rightarrow> string \<Rightarrow> string \<Rightarrow> db \<Rightarrow> exn + db" where
  "budget_update_step Decimal request current_month category s =
     (let budget_key = ''budget_'' @ category;
          amount = req_POST request budget_key
      in case amount of
           None \<Rightarrow> Inr s
         | Some a \<Rightarrow>
             if a = [] then Inr s
             else
               (case Decimal a of
                  None \<Rightarrow> Inl InvalidOperation
                | Some d \<Rightarrow>
                    if d > 0 then
                      (case Budget_get_or_create (user_pk (req_user request)) category current_month d s of
                         Inl e \<Rightarrow> Inl e
                       | Inr ((budget, created), s1) \<Rightarrow>
                           if \<not> created
                           then Inr (snd (Budget_save (budget\<lparr>bud_allocated_amount := d\<rparr>) s1))
                           else Inr s1)
                    else Inr s))"

text \<open>
  The loop over the categories: an exception ends the request with the writes made so
  far (the view opens no transaction).
\<close>

fun budget_update_loop ::
  "(string \<Rightarrow> decimal option) \<Rightarrow> request \<Rightarrow> string \<Rightarrow> string list \<Rightarrow> db \<Rightarrow> exn option \<times> db" where
  "budget_update_loop Decimal request current_month [] s = (None, s)"
| "budget_update_loop Decimal request current_month (category # categories) s =
     (case budget_update_step Decimal request current_month category s of
        Inl e \<Rightarrow> (Some e, s)
      | Inr s1 \<Rightarrow> budget_update_loop Decimal request current_month categories s1)"

text \<open>
  \<^verbatim>\<open>budget_management\<close> (views.py, lines 356 to 428). The context of the page it
  renders holds \<open>management_budget_vs_actual\<close>.
\<close>

definition budget_management ::
  "(string \<Rightarrow> decimal option) \<Rightarrow> request \<Rightarrow> datetime \<Rightarrow> world \<Rightarrow> (exn + response) \<times> world" where
  "budget_management Decimal request now w =
     (let current_month = strftime_Ym now;
          categories = map fst CATEGORY_CHOICES
      in if req_method request = ''POST'' then
           (case budget_update_loop Decimal request current_month categories (store w) of
              (Some e, s) \<Rightarrow> (Inl e, w\<lparr>store := s\<rparr>)
            | (None, s) \<Rightarrow>
                (Inr (Redirect ''budget_management''),
                 add_message SUCCESS ''Budgets updated successfully!'' (w\<lparr>store := s\<rparr>)))
         else (Inr (Render ''budget/budget_management.html''), w))"

subsection \<open>Notions used in the statements\<close>


text \<open>\<^verbatim>\<open>Budget.Meta.unique_together = ['user', 'category', 'month_year']\<close>\<close>

definition unique_budgets :: "db \<Rightarrow> bool" where
  "unique_budgets s = distinct (map (\<lambda>b. (bud_user b, bud_category b, bud_month_year b)) (budgets s))"

text \<open>
  The entry that step \<open>i\<close> of the trend loop appends, where the date of the step
  exists.
\<close>

definition trend_entry :: "db \<Rightarrow> nat \<Rightarrow> datetime \<Rightarrow> nat \<Rightarrow> string \<times> decimal" where
  "trend_entry s u now i =
     (case minus_days now (30 * i) of
        None \<Rightarrow> ([], 0)
      | Some d \<Rightarrow> (strftime_Ym d, expense_total s u (strftime_Ym d)))"

text \<open>
  What the store guarantees of the budget table: \<^verbatim>\<open>unique_together\<close>, and a
  primary key on every stored row that no other row has.
\<close>

definition budgets_wf :: "db \<Rightarrow> bool" where
  "budgets_wf s =
     (unique_budgets s \<and> distinct (map bud_pk (budgets s)) \<and> None \<notin> set (map bud_pk (budgets s)))"

text \<open>The rows of one (owner, category, bucket).\<close>

definition budget_rows :: "db \<Rightarrow> nat \<Rightarrow> string \<Rightarrow> string \<Rightarrow> budget list" where
  "budget_rows s u c m =
     filter (\<lambda>b. bud_user b = u \<and> bud_category b = c \<and> bud_month_year b = m) (budgets s)"

text \<open>The tables a request may not touch.\<close>

definition same_ledger :: "world \<Rightarrow> world \<Rightarrow> bool" where
  "same_ledger w w' =
     (expenses (store w') = expenses (store w) \<and> investments (store w') = investments (store w) \<and>
      budgets (store w') = budgets (store w))"

text \<open>
  How the loop body reads the field of a category: skipped (absent, empty, or a number
  that is not positive), rejected by \<^verbatim>\<open>Decimal\<close>, or a positive amount to store.
\<close>

datatype submitted = Skipped | Rejected | Positive decimal

definition submitted :: "(string \<Rightarrow> decimal option) \<Rightarrow> request \<Rightarrow> string \<Rightarrow> submitted" where
  "submitted Decimal request category =
     (case req_POST request (''budget_'' @ category) of
        None \<Rightarrow> Skipped
      | Some a \<Rightarrow>
          if a = [] then Skipped
          else (case Decimal a of
                  None \<Rightarrow> Rejected
                | Some d \<Rightarrow> if d > 0 then Positive d else Skipped))"

text \<open>The row a positive amount creates for a triple that has none.\<close>

definition created_budget :: "db \<Rightarrow> nat \<Rightarrow> string \<Rightarrow> string \<Rightarrow> decimal \<Rightarrow> budget" where
  "created_budget s u c m d =
     \<lparr>bud_pk = Some (next_pk (map bud_pk (budgets s))), bud_user = u, bud_category = c,
      bud_allocated_amount = d, bud_month_year = m\<rparr>"

text \<open>
  What may change between two states of the budget table: every row stays, under its key
  and for its owner, category and bucket, with its amount or a positive one; every row is
  an old one or carries a positive amount; the other tables are the same.
\<close>

definition budgets_grow :: "db \<Rightarrow> db \<Rightarrow> bool" where
  "budgets_grow s s' =
     ((\<forall>b \<in> set (budgets s). \<exists>b' \<in> set (budgets s').
          bud_pk b' = bud_pk b \<and> bud_user b' = bud_user b \<and> bud_category b' = bud_category b \<and>
          bud_month_year b' = bud_month_year b \<and>
          (bud_allocated_amount b' = bud_allocated_amount b \<or> 0 < bud_allocated_amount b')) \<and>
      (\<forall>b' \<in> set (budgets s'). b' \<in> set (budgets s) \<or> 0 < bud_allocated_amount b') \<and>
      length (budgets s) \<le> length (budgets s') \<and>
      expenses s' = expenses s \<and> investments s' = investments s \<and> reports s' = reports s \<and>
      profiles s' = profiles s)"

text \<open>
  What the store guarantees of the report table:
  \<^verbatim>\<open>MonthlyReport.Meta.unique_together = ['user', 'month_year']\<close>, and a primary key
  on every stored row that no other row has.
\<close>

definition reports_wf :: "db \<Rightarrow> bool" where
  "reports_wf s =
     (distinct (map (\<lambda>r. (rep_user r, rep_month_year r)) (reports s)) \<and>
      distinct (map rep_pk (reports s)) \<and> None \<notin> set (map rep_pk (reports s)))"

text \<open>The report rows of one (owner, bucket).\<close>

definition report_rows :: "db \<Rightarrow> nat \<Rightarrow> string \<Rightarrow> monthly_report list" where
  "report_rows s u m = filter (\<lambda>r. rep_user r = u \<and> rep_month_year r = m) (reports s)"

subsection \<open>Example data\<close>



definition empty_db :: db where
  "empty_db = \<lparr>profiles = Map.empty, expenses = [], investments = [], budgets = [], reports = []\<rparr>"



definition june_db :: db where
  "june_db =
     \<lparr>profiles = [1 \<mapsto> \<lparr>monthly_salary = 5200\<rparr>],
      expenses =
        [\<lparr>exp_pk = Some 1, exp_user = 1, exp_category = ''Bills'', exp_amount = 1180,
          exp_description = ''rent'', exp_date = \<lparr>year = 2024, month = 6, day = 1, hour = 8, minute = 0, second = 0\<rparr>,
          exp_month_year = ''2024-06''\<rparr>,
         \<lparr>exp_pk = Some 2, exp_user = 1, exp_category = ''Food'', exp_amount = 620,
          exp_description = ''groceries'', exp_date = \<lparr>year = 2024, month = 6, day = 9, hour = 18, minute = 5, second = 0\<rparr>,
          exp_month_year = ''2024-06''\<rparr>,
         \<lparr>exp_pk = Some 3, exp_user = 1, exp_category = ''Food'', exp_amount = 75,
          exp_description = ''dinner'', exp_date = \<lparr>year = 2024, month = 5, day = 30, hour = 20, minute = 0, second = 0\<rparr>,
          exp_month_year = ''2024-05''\<rparr>,
         \<lparr>exp_pk = Some 4, exp_user = 2, exp_category = ''Food'', exp_amount = 40,
          exp_description = ''lunch'', exp_date = \<lparr>year = 2024, month = 6, day = 3, hour = 12, minute = 0, second = 0\<rparr>,
          exp_month_year = ''2024-06''\<rparr>],
      investments =
        [\<lparr>inv_pk = Some 1, inv_user = 1, inv_type = ''Stocks'', inv_amount = 300,
          inv_description = ''index fund'', inv_date = \<lparr>year = 2024, month = 6, day = 10, hour = 10, minute = 0, second = 0\<rparr>,
          inv_month_year = ''2024-06''\<rparr>],
      budgets =
        [\<lparr>bud_pk = Some 1, bud_user = 1, bud_category = ''Food'', bud_allocated_amount = 500,
          bud_month_year = ''2024-06''\<rparr>],
      reports = []\<rparr>"

definition demo_user :: user where
  "demo_user = \<lparr>user_pk = 1, username = ''demo'', user_full_name = ''Demo User'', email = ''demo@example.com''\<rparr>"

definition other_user :: user where
  "other_user = \<lparr>user_pk = 2, username = ''guest'', user_full_name = [], email = ''guest@example.com''\<rparr>"

definition food_budget :: budget where
  "food_budget = \<lparr>bud_pk = Some 1, bud_user = 1, bud_category = ''Food'', bud_allocated_amount = 500,
                   bud_month_year = ''2024-06''\<rparr>"

definition may_budget :: budget where
  "may_budget = \<lparr>bud_pk = Some 1, bud_user = 1, bud_category = ''Food'', bud_allocated_amount = 500,
                  bud_month_year = ''2024-05''\<rparr>"

definition july_budget :: budget where
  "july_budget = \<lparr>bud_pk = Some 2, bud_user = 1, bud_category = ''Bills'', bud_allocated_amount = 900,
                   bud_month_year = ''2024-07''\<rparr>"

definition may_only_db :: db where
  "may_only_db = empty_db\<lparr>budgets := [may_budget]\<rparr>"

definition may_july_db :: db where
  "may_july_db = empty_db\<lparr>budgets := [may_budget, july_budget]\<rparr>"

definition d_2024_06_15 :: datetime where
  "d_2024_06_15 = \<lparr>year = 2024, month = 6, day = 15, hour = 10, minute = 0, second = 0\<rparr>"

definition d_2024_03_31 :: datetime where
  "d_2024_03_31 = \<lparr>year = 2024, month = 3, day = 31, hour = 23, minute = 59, second = 59\<rparr>"

definition june_world :: world where
  "june_world = \<lparr>store = june_db, files = Map.empty, messages = []\<rparr>"

definition post_request :: request where
  "post_request = \<lparr>req_method = ''POST'', req_user = demo_user, req_POST = Map.empty\<rparr>"

definition get_request :: request where
  "get_request = \<lparr>req_method = ''GET'', req_user = demo_user, req_POST = Map.empty\<rparr>"

text \<open>The default currency symbol of the application, the rupee sign, in UTF-8.\<close>

definition rupee_sign :: string where
  "rupee_sign = [CHR 0xE2, CHR 0x82, CHR 0xA8]"

definition text_env :: env where
  "text_env = \<lparr>reportlab_importable = False, doc_build = Inl (RenderError ''not reached''),
               str_exn = (\<lambda>e. ''error''), format_exc = (\<lambda>e. ''Traceback''),
               DEFAULT_CURRENCY_SYMBOL = rupee_sign\<rparr>"

definition failing_env :: env where
  "failing_env = \<lparr>reportlab_importable = True, doc_build = Inl (RenderError ''cannot build''),
                  str_exn = (\<lambda>e. ''cannot build''),
                  format_exc = (\<lambda>e. ''Traceback (most recent call last): cannot build''),
                  DEFAULT_CURRENCY_SYMBOL = rupee_sign\<rparr>"

definition pdf_env :: env where
  "pdf_env = \<lparr>reportlab_importable = True, doc_build = Inr ''%PDF-1.4'',
              str_exn = (\<lambda>e. ''error''), format_exc = (\<lambda>e. ''Traceback''),
              DEFAULT_CURRENCY_SYMBOL = rupee_sign\<rparr>"

definition june_totals :: totals where
  "june_totals = \<lparr>total_income = 5200, total_expenses = 1800, total_investments = 300,
                  total_savings = 3100\<rparr>"

definition june_summary :: string where
  "june_summary =
     ''Spendly Monthly Report - 2024-06'' @ newline @
     ''User: Demo User'' @ newline @
     ''Email: demo@example.com'' @ newline @
     ''Monthly Salary: '' @ rupee_sign @ ''5,200.00'' @ newline @
     ''Total Expenses: '' @ rupee_sign @ ''1,800.00'' @ newline @
     ''Total Investments: '' @ rupee_sign @ ''300.00'' @ newline @
     ''Total Savings: '' @ rupee_sign @ ''3,100.00'' @ newline @
     ''Report Generated: 2024-06-15 10:00:00'' @ newline"

definition june_report_row :: "string \<Rightarrow> monthly_report" where
  "june_report_row path =
     \<lparr>rep_pk = Some 1, rep_user = 1, rep_month_year = ''2024-06'', rep_total_income = 5200,
      rep_total_expenses = 1800, rep_total_investments = 300, rep_total_savings = 3100,
      rep_pdf_file = path\<rparr>"

definition june_debug_text :: string where
  "june_debug_text =
     june_summary @ newline @ ''--- DEBUG TRACEBACK ---'' @ newline @
     ''Traceback (most recent call last): cannot build''"

text \<open>The June ledger with a given report table, files and messages.\<close>

definition june_state :: "monthly_report list \<Rightarrow> (string \<rightharpoonup> string) \<Rightarrow> (level \<times> string) list \<Rightarrow> world" where
  "june_state rs f ms = \<lparr>store = june_db\<lparr>reports := rs\<rparr>, files = f, messages = ms\<rparr>"

definition june_txt :: string where
  "june_txt = ''media/reports/monthly_report_demo_2024-06.txt''"

definition june_pdf :: string where
  "june_pdf = ''media/reports/monthly_report_demo_2024-06.pdf''"

definition dotpdf_user :: user where
  "dotpdf_user = \<lparr>user_pk = 3, username = ''a.pdf'', user_full_name = [], email = ''a@example.com''\<rparr>"

definition dottxt_user :: user where
  "dottxt_user = \<lparr>user_pk = 4, username = ''a.txt'', user_full_name = [], email = ''b@example.com''\<rparr>"

definition budget_form :: "string \<rightharpoonup> string" where
  "budget_form =
     [''budget_Food'' \<mapsto> ''650.00'', ''budget_Bills'' \<mapsto> ''900'', ''budget_Transport'' \<mapsto> ''0'',
      ''budget_Shopping'' \<mapsto> ''-5'', ''budget_Other'' \<mapsto> []]"

definition budget_post :: request where
  "budget_post = \<lparr>req_method = ''POST'', req_user = demo_user, req_POST = budget_form\<rparr>"

text \<open>\<^verbatim>\<open>Decimal\<close> on the four numbers of the example; any other string is rejected.\<close>

definition example_Decimal :: "string \<Rightarrow> decimal option" where
  "example_Decimal = map_of [(''650.00'', 650), (''900'', 900), (''0'', 0), (''-5'', - 5)]"

definition bills_budget :: budget where
  "bills_budget = \<lparr>bud_pk = Some 2, bud_user = 1, bud_category = ''Bills'', bud_allocated_amount = 900,
                    bud_month_year = ''2024-06''\<rparr>"



section \<open>Properties\<close>

subsection \<open>Bucket keys\<close>






lemma length_strftime_Ym: "length (strftime_Ym d) = 7"
  by (simp add: strftime_Ym_def pad4_def pad2_def)

subsection \<open>Saving\<close>

lemma fold_max_pk_ge:
  "m \<le> fold (\<lambda>k m. case k of None \<Rightarrow> m | Some n \<Rightarrow> max n m) ks (m::nat)"
proof (induction ks arbitrary: m)
  case Nil
  show ?case by simp
next
  case (Cons k ks)
  show ?case
  proof (cases k)
    case None
    with Cons.IH [of m] show ?thesis by simp
  next
    case (Some n)
    have "m \<le> max n m" by simp
    also have "\<dots> \<le> fold (\<lambda>k m. case k of None \<Rightarrow> m | Some n \<Rightarrow> max n m) ks (max n m)"
      by (rule Cons.IH)
    finally show ?thesis using Some by simp
  qed
qed

lemma fold_max_pk_bound:
  "Some n \<in> set ks \<Longrightarrow> n \<le> fold (\<lambda>k m. case k of None \<Rightarrow> m | Some n \<Rightarrow> max n m) ks (m::nat)"
proof (induction ks arbitrary: m)
  case Nil
  then show ?case by simp
next
  case (Cons k ks)
  show ?case
  proof (cases "k = Some n")
    case True
    have "n \<le> max n m" by simp
    also have "\<dots> \<le> fold (\<lambda>k m. case k of None \<Rightarrow> m | Some n \<Rightarrow> max n m) ks (max n m)"
      by (rule fold_max_pk_ge)
    finally show ?thesis using True by simp
  next
    case False
    with Cons.prems have "Some n \<in> set ks" by simp
    then show ?thesis using Cons.IH by (cases k) simp_all
  qed
qed

lemma next_pk_fresh: "Some (next_pk ks) \<notin> set ks"
proof
  assume "Some (next_pk ks) \<in> set ks"
  then have "next_pk ks \<le> fold (\<lambda>k m. case k of None \<Rightarrow> m | Some n \<Rightarrow> max n m) ks 0"
    by (rule fold_max_pk_bound)
  then show False by (simp add: next_pk_def)
qed




lemma save_row_fields:
  assumes "\<And>k r. g (set_pk k r) = g r"
  shows "g (fst (save_row pk set_pk obj rows)) = g obj"
  using assms by (simp add: save_row_def Let_def split: option.splits)

lemma Expense_save_fst:
  "fst (Expense_save e s) =
     fst (save_row exp_pk (\<lambda>k r. r\<lparr>exp_pk := k\<rparr>) (e\<lparr>exp_month_year := strftime_Ym (exp_date e)\<rparr>) (expenses s))"
  and Expense_save_snd:
  "snd (Expense_save e s) =
     s\<lparr>expenses := snd (save_row exp_pk (\<lambda>k r. r\<lparr>exp_pk := k\<rparr>) (e\<lparr>exp_month_year := strftime_Ym (exp_date e)\<rparr>) (expenses s))\<rparr>"
  by (simp_all add: Expense_save_def Let_def split_beta)


lemma Expense_save_bucket:
  "exp_month_year (fst (Expense_save e s)) = strftime_Ym (exp_date e)"
  "exp_date (fst (Expense_save e s)) = exp_date e"
  unfolding Expense_save_fst by (subst save_row_fields; simp)+








lemma edit_expense_bucket:
  assumes "edit_expense u k f s = Some (e', s')"
  shows "exp_month_year e' = strftime_Ym (ef_date f) \<and> exp_pk e' = Some k"
proof -
  from assms obtain e where f: "find (\<lambda>r. exp_pk r = Some k \<and> exp_user r = user_pk u) (expenses s) = Some e"
    and r: "(e', s') = Expense_save (e\<lparr>exp_category := ef_category f, exp_amount := ef_amount f,
                                exp_description := ef_description f, exp_date := ef_date f\<rparr>) s"
    by (auto simp: edit_expense_def split: option.splits)
  from f have pk: "exp_pk e = Some k" by (auto simp: find_Some_iff)
  from r have e': "e' = fst (Expense_save (e\<lparr>exp_category := ef_category f, exp_amount := ef_amount f,
                                exp_description := ef_description f, exp_date := ef_date f\<rparr>) s)"
    by (metis fst_conv)
  have "exp_pk e' = Some k" unfolding e' Expense_save_fst using pk
    by (simp add: save_row_def)
  moreover have "exp_month_year e' = strftime_Ym (ef_date f)"
    unfolding e' by (simp add: Expense_save_bucket)
  ultimately show ?thesis by simp
qed



subsection \<open>Monthly totals\<close>

lemma or_decimal_Sum: "or_decimal (aggregate_Sum xs) 0 = sum_list xs"
  by (simp add: or_decimal_def aggregate_Sum_def)

lemma expense_total_sum:
  "expense_total s u m =
     sum_list (map exp_amount (filter (\<lambda>e. exp_user e = u \<and> exp_month_year e = m) (expenses s)))"
  by (simp add: expense_total_def or_decimal_Sum)

lemma investment_total_sum:
  "investment_total s u m =
     sum_list (map inv_amount (filter (\<lambda>i. inv_user i = u \<and> inv_month_year i = m) (investments s)))"
  by (simp add: investment_total_def or_decimal_Sum)

lemma expense_category_total_sum:
  "expense_category_total s u c m =
     sum_list (map exp_amount
       (filter (\<lambda>e. exp_user e = u \<and> exp_category e = c \<and> exp_month_year e = m) (expenses s)))"
  by (simp add: expense_category_total_def or_decimal_Sum)

lemma UserProfile_get_or_create_tables:
  "expenses (snd (UserProfile_get_or_create u s)) = expenses s"
  "investments (snd (UserProfile_get_or_create u s)) = investments s"
  "budgets (snd (UserProfile_get_or_create u s)) = budgets s"
  "reports (snd (UserProfile_get_or_create u s)) = reports s"
  by (simp_all add: UserProfile_get_or_create_def Let_def split: option.splits)



lemma monthly_totals_snd:
  "snd (monthly_totals u m s) = snd (UserProfile_get_or_create (user_pk u) s)"
  by (simp add: monthly_totals_def Let_def split_beta)



subsection \<open>Budgets against spending\<close>

lemma fold_upd_map_of:
  "fold (\<lambda>b m. m(f b \<mapsto> g b)) xs m0 = m0 ++ map_of (rev (map (\<lambda>b. (f b, g b)) xs))"
proof (induction xs arbitrary: m0)
  case Nil
  show ?case by simp
next
  case (Cons x xs)
  have "fold (\<lambda>b m. m(f b \<mapsto> g b)) (x # xs) m0 = fold (\<lambda>b m. m(f b \<mapsto> g b)) xs (m0(f x \<mapsto> g x))"
    by simp
  also have "\<dots> = m0(f x \<mapsto> g x) ++ map_of (rev (map (\<lambda>b. (f b, g b)) xs))"
    by (rule Cons.IH)
  also have "\<dots> = m0 ++ map_of (rev (map (\<lambda>b. (f b, g b)) (x # xs)))"
    by (simp add: map_add_upd_left fun_eq_iff map_add_def split: option.splits)
  finally show ?case .
qed

lemma fold_upd_lookup:
  assumes "distinct (map f xs)" and "b \<in> set xs"
  shows "fold (\<lambda>b m. m(f b \<mapsto> g b)) xs Map.empty (f b) = Some (g b)"
proof -
  have "map fst (rev (map (\<lambda>b. (f b, g b)) xs)) = rev (map f xs)"
    by (simp add: rev_map comp_def)
  with assms(1) have d: "distinct (map fst (rev (map (\<lambda>b. (f b, g b)) xs)))" by simp
  from assms(2) have "(f b, g b) \<in> set (rev (map (\<lambda>b. (f b, g b)) xs))" by auto
  with d have "map_of (rev (map (\<lambda>b. (f b, g b)) xs)) (f b) = Some (g b)"
    by (rule map_of_is_SomeI)
  then show ?thesis by (simp add: fold_upd_map_of)
qed

lemma Budget_filter_set:
  "set (Budget_filter s u m) = {b \<in> set (budgets s). bud_user b = u \<and> bud_month_year b = m}"
  by (auto simp: Budget_filter_def)

lemma Budget_filter_distinct_categories:
  assumes "unique_budgets s"
  shows "distinct (map bud_category (Budget_filter s u m))"
proof -
  let ?xs = "filter (\<lambda>b. bud_user b = u \<and> bud_month_year b = m) (budgets s)"
  from assms have "distinct (map (\<lambda>b. (bud_user b, bud_category b, bud_month_year b)) ?xs)"
    unfolding unique_budgets_def by (rule distinct_map_filter)
  then have "distinct (map bud_category ?xs)"
    by (auto simp: distinct_map inj_on_def)
  then have "distinct ?xs \<and> inj_on bud_category (set ?xs)" by (simp add: distinct_map)
  then show ?thesis
    unfolding Budget_filter_def by (simp add: distinct_map)
qed

lemma budget_dict_lookup:
  assumes "unique_budgets s" and "b \<in> set (budgets s)"
  shows "budget_dict s (bud_user b) (bud_month_year b) (bud_category b) = Some (bud_allocated_amount b)"
  unfolding budget_dict_def
  using assms by (intro fold_upd_lookup Budget_filter_distinct_categories) (simp_all add: Budget_filter_set)

lemma expense_category_total_spent:
  "expense_category_total s (bud_user b) (bud_category b) (bud_month_year b) = get_spent_amount s b"
  by (simp add: expense_category_total_sum get_spent_amount_def)

lemma management_entry_of_budget:
  assumes "unique_budgets s" and "b \<in> set (budgets s)"
  shows "management_entry s (bud_user b) (bud_month_year b) (bud_category b) =
     \<lparr>be_category = bud_category b, be_allocated = bud_allocated_amount b,
      be_actual = get_spent_amount s b, be_remaining = get_remaining_budget s b,
      be_remaining_abs = \<bar>get_remaining_budget s b\<bar>,
      be_percent_used = get_percentage_used s b\<rparr>"
  by (simp add: management_entry_def budget_dict_lookup [OF assms] expense_category_total_spent
      get_remaining_budget_def get_percentage_used_def Let_def)

lemma management_entry_arith:
  "be_remaining (management_entry s u m c) =
     be_allocated (management_entry s u m c) - be_actual (management_entry s u m c)"
  "be_percent_used (management_entry s u m c) =
     (if be_allocated (management_entry s u m c) = 0 then 0
      else be_actual (management_entry s u m c) / be_allocated (management_entry s u m c) * 100)"
  "be_actual (management_entry s u m c) =
     sum_list (map exp_amount
       (filter (\<lambda>e. exp_user e = u \<and> exp_category e = c \<and> exp_month_year e = m) (expenses s)))"
  by (simp_all add: management_entry_def Let_def expense_category_total_sum)

text \<open>
  Claim C3. For a budget row, with the actual spending the sum of the amounts of the
  expenses of the same owner, category and bucket: the remaining budget is the allocation
  minus the actual spending, and the percentage used is 0 when the allocation is 0,
  whatever was spent, and actual / allocated * 100 otherwise. The budget page computes the
  same figures: each of its entries satisfies the two equations, and under the uniqueness
  of (owner, category, bucket) the entry of a stored budget row of the current month
  carries that row's allocation, spending, remainder and percentage. An allocation of 500
  with 620 spent leaves -120 and uses 124 percent.
\<close>

theorem budget_remaining_and_percent_used:
  "get_spent_amount s b =
     sum_list (map exp_amount
       (filter (\<lambda>e. exp_user e = bud_user b \<and> exp_category e = bud_category b \<and>
                     exp_month_year e = bud_month_year b) (expenses s))) \<and>
   get_remaining_budget s b = bud_allocated_amount b - get_spent_amount s b \<and>
   get_percentage_used s b =
     (if bud_allocated_amount b = 0 then 0
      else get_spent_amount s b / bud_allocated_amount b * 100) \<and>
   (bud_allocated_amount b = 500 \<and> get_spent_amount s b = 620 \<longrightarrow>
      get_remaining_budget s b = - 120 \<and> get_percentage_used s b = 124) \<and>
   (\<forall>e \<in> set (management_budget_vs_actual u m s).
      be_remaining e = be_allocated e - be_actual e \<and>
      be_percent_used e = (if be_allocated e = 0 then 0 else be_actual e / be_allocated e * 100)) \<and>
   (unique_budgets s \<and> b \<in> set (budgets s) \<and> bud_user b = user_pk u \<and> bud_month_year b = m \<and>
    bud_category b \<in> fst ` set CATEGORY_CHOICES \<longrightarrow>
      \<lparr>be_category = bud_category b, be_allocated = bud_allocated_amount b,
       be_actual = get_spent_amount s b, be_remaining = get_remaining_budget s b,
       be_remaining_abs = \<bar>get_remaining_budget s b\<bar>,
       be_percent_used = get_percentage_used s b\<rparr> \<in> set (management_budget_vs_actual u m s))"
proof (intro conjI impI ballI)
  show "get_spent_amount s b =
     sum_list (map exp_amount
       (filter (\<lambda>e. exp_user e = bud_user b \<and> exp_category e = bud_category b \<and>
                     exp_month_year e = bud_month_year b) (expenses s)))"
    by (simp add: get_spent_amount_def)
  show "get_remaining_budget s b = bud_allocated_amount b - get_spent_amount s b"
    by (simp add: get_remaining_budget_def)
  show "get_percentage_used s b =
     (if bud_allocated_amount b = 0 then 0
      else get_spent_amount s b / bud_allocated_amount b * 100)"
    by (simp add: get_percentage_used_def)
next
  assume "bud_allocated_amount b = 500 \<and> get_spent_amount s b = 620"
  then show "get_remaining_budget s b = - 120" "get_percentage_used s b = 124"
    by (simp_all add: get_remaining_budget_def get_percentage_used_def)
next
  fix e assume "e \<in> set (management_budget_vs_actual u m s)"
  then obtain c where e: "e = management_entry s (user_pk u) m c"
    by (auto simp: management_budget_vs_actual_def)
  show "be_remaining e = be_allocated e - be_actual e"
    unfolding e by (rule management_entry_arith)
  show "be_percent_used e = (if be_allocated e = 0 then 0 else be_actual e / be_allocated e * 100)"
    unfolding e by (rule management_entry_arith)
next
  assume h: "unique_budgets s \<and> b \<in> set (budgets s) \<and> bud_user b = user_pk u \<and> bud_month_year b = m \<and>
    bud_category b \<in> fst ` set CATEGORY_CHOICES"
  then have "management_entry s (user_pk u) m (bud_category b) =
     \<lparr>be_category = bud_category b, be_allocated = bud_allocated_amount b,
      be_actual = get_spent_amount s b, be_remaining = get_remaining_budget s b,
      be_remaining_abs = \<bar>get_remaining_budget s b\<bar>,
      be_percent_used = get_percentage_used s b\<rparr>"
    using management_entry_of_budget [of s b] by auto
  moreover from h obtain x where "x \<in> set CATEGORY_CHOICES" "bud_category b = fst x"
    by auto
  then have "management_entry s (user_pk u) m (bud_category b)
      \<in> set (management_budget_vs_actual u m s)"
    unfolding management_budget_vs_actual_def by (auto intro!: image_eqI [where x = x])
  ultimately show "\<lparr>be_category = bud_category b, be_allocated = bud_allocated_amount b,
       be_actual = get_spent_amount s b, be_remaining = get_remaining_budget s b,
       be_remaining_abs = \<bar>get_remaining_budget s b\<bar>,
       be_percent_used = get_percentage_used s b\<rparr> \<in> set (management_budget_vs_actual u m s)"
    by simp
qed

lemma june_spent: "get_spent_amount june_db food_budget = 620"
  by (simp add: get_spent_amount_def june_db_def food_budget_def)

theorem budget_remaining_and_percent_used_witness:
  "get_spent_amount june_db food_budget = 620 \<and>
   get_remaining_budget june_db food_budget = - 120 \<and>
   get_percentage_used june_db food_budget = 124 \<and>
   get_percentage_used june_db (food_budget\<lparr>bud_allocated_amount := 0\<rparr>) = 0 \<and>
   unique_budgets june_db \<and> food_budget \<in> set (budgets june_db) \<and>
   ''Food'' \<in> fst ` set CATEGORY_CHOICES \<and>
   \<lparr>be_category = ''Food'', be_allocated = 500, be_actual = 620, be_remaining = - 120,
    be_remaining_abs = 120, be_percent_used = 124\<rparr>
     \<in> set (management_budget_vs_actual demo_user ''2024-06'' june_db) \<and>
   be_percent_used (management_entry june_db 1 ''2024-06'' ''Bills'') = 0 \<and>
   be_actual (management_entry june_db 1 ''2024-06'' ''Bills'') = 1180"
proof -
  have pre: "unique_budgets june_db" "food_budget \<in> set (budgets june_db)"
    "bud_user food_budget = user_pk demo_user" "bud_month_year food_budget = ''2024-06''"
    "bud_category food_budget = ''Food''" "bud_allocated_amount food_budget = 500"
    "''Food'' \<in> fst ` set CATEGORY_CHOICES"
    by (simp_all add: unique_budgets_def june_db_def food_budget_def demo_user_def CATEGORY_CHOICES_def)
  have z: "get_percentage_used june_db (food_budget\<lparr>bud_allocated_amount := 0\<rparr>) = 0"
    using budget_remaining_and_percent_used [of june_db "food_budget\<lparr>bud_allocated_amount := 0\<rparr>"]
    by simp
  have bills: "budget_dict june_db (Suc 0) ''2024-06'' ''Bills'' = None"
    by (simp add: budget_dict_def Budget_filter_def june_db_def)
  have act: "expense_category_total june_db (Suc 0) ''Bills'' ''2024-06'' = 1180"
    by (simp add: expense_category_total_sum june_db_def)
  have b2: "be_percent_used (management_entry june_db 1 ''2024-06'' ''Bills'') = 0"
    "be_actual (management_entry june_db 1 ''2024-06'' ''Bills'') = 1180"
    by (simp_all add: management_entry_def bills act Let_def)
  from budget_remaining_and_percent_used [of june_db food_budget demo_user "''2024-06''"] pre june_spent
  have "get_remaining_budget june_db food_budget = - 120"
    "get_percentage_used june_db food_budget = 124"
    "\<lparr>be_category = ''Food'', be_allocated = 500, be_actual = 620, be_remaining = - 120,
      be_remaining_abs = 120, be_percent_used = 124\<rparr>
       \<in> set (management_budget_vs_actual demo_user ''2024-06'' june_db)"
    by auto
  with pre june_spent z b2 show ?thesis by simp
qed

subsection \<open>The budgets on the dashboard\<close>

lemma latest_budget_None: "latest_budget bs = None \<longleftrightarrow> bs = []"
proof -
  have "rev (sort_key bud_month_year bs) = [] \<longleftrightarrow> bs = []"
    by (metis rev_is_Nil_conv set_empty set_sort)
  then show ?thesis by (cases "rev (sort_key bud_month_year bs)") (auto simp: latest_budget_def)
qed

lemma latest_budget_Some:
  assumes "latest_budget bs = Some b"
  shows "b \<in> set bs" and "\<And>b'. b' \<in> set bs \<Longrightarrow> bud_month_year b' \<le> bud_month_year b"
proof -
  from assms obtain rest where r: "rev (sort_key bud_month_year bs) = b # rest"
    by (auto simp: latest_budget_def split: list.splits)
  then have s: "sort_key bud_month_year bs = rev rest @ [b]"
    by (metis rev.simps(2) rev_rev_ident)
  have "b \<in> set (sort_key bud_month_year bs)" unfolding s by simp
  then show "b \<in> set bs" by simp
  fix b' assume "b' \<in> set bs"
  then have m: "b' \<in> set (sort_key bud_month_year bs)" by simp
  have "sorted (map bud_month_year (sort_key bud_month_year bs))" by (rule sorted_sort_key)
  then have "sorted (map bud_month_year (rev rest) @ [bud_month_year b])" unfolding s by simp
  then have "\<forall>x \<in> set (map bud_month_year (rev rest)). x \<le> bud_month_year b"
    by (simp add: sorted_append)
  with m show "bud_month_year b' \<le> bud_month_year b" unfolding s by auto
qed

lemma Budget_filter_Nil:
  "Budget_filter s u m = [] \<longleftrightarrow> (\<forall>b \<in> set (budgets s). \<not> (bud_user b = u \<and> bud_month_year b = m))"
proof -
  have "Budget_filter s u m = [] \<longleftrightarrow> set (Budget_filter s u m) = {}" by simp
  then show ?thesis unfolding Budget_filter_set by blast
qed

lemma dashboard_budgets_entries:
  "snd (dashboard_budgets u m s) =
     map (\<lambda>budget. \<lparr>de_category = bud_category budget,
                     de_allocated = bud_allocated_amount budget,
                     de_actual = get_spent_amount s budget,
                     de_remaining = get_remaining_budget s budget\<rparr>)
       (Budget_filter s (user_pk u) (fst (dashboard_budgets u m s)))"
  by (simp add: dashboard_budgets_def Let_def split: option.splits)

lemma dashboard_budgets_present:
  assumes "Budget_filter s (user_pk u) m \<noteq> []"
  shows "fst (dashboard_budgets u m s) = m"
  using assms by (simp add: dashboard_budgets_def Let_def)

lemma dashboard_budgets_none:
  assumes "filter (\<lambda>b. bud_user b = user_pk u) (budgets s) = []"
  shows "dashboard_budgets u m s = (m, [])"
proof -
  from assms have "\<forall>b \<in> set (budgets s). bud_user b \<noteq> user_pk u"
    by (simp add: filter_empty_conv)
  then have "Budget_filter s (user_pk u) m = []" by (simp add: Budget_filter_Nil)
  moreover from assms have "latest_budget (filter (\<lambda>b. bud_user b = user_pk u) (budgets s)) = None"
    by (simp add: latest_budget_None)
  ultimately show ?thesis by (simp add: dashboard_budgets_def Let_def)
qed

lemma dashboard_budgets_fallback:
  assumes "Budget_filter s (user_pk u) m = []"
    and "filter (\<lambda>b. bud_user b = user_pk u) (budgets s) \<noteq> []"
  shows "\<exists>b \<in> set (budgets s). bud_user b = user_pk u \<and> bud_month_year b = fst (dashboard_budgets u m s)"
    and "\<And>b. b \<in> set (budgets s) \<Longrightarrow> bud_user b = user_pk u \<Longrightarrow>
           bud_month_year b \<le> fst (dashboard_budgets u m s)"
proof -
  let ?mine = "filter (\<lambda>b. bud_user b = user_pk u) (budgets s)"
  from assms(2) obtain l where l: "latest_budget ?mine = Some l"
    using latest_budget_None [of ?mine] by (cases "latest_budget ?mine") auto
  with assms(1) have used: "fst (dashboard_budgets u m s) = bud_month_year l"
    by (simp add: dashboard_budgets_def Let_def)
  from latest_budget_Some(1) [OF l]
  show "\<exists>b \<in> set (budgets s). bud_user b = user_pk u \<and> bud_month_year b = fst (dashboard_budgets u m s)"
    unfolding used by auto
  fix b assume "b \<in> set (budgets s)" "bud_user b = user_pk u"
  then have "b \<in> set ?mine" by simp
  from latest_budget_Some(2) [OF l this]
  show "bud_month_year b \<le> fst (dashboard_budgets u m s)" unfolding used .
qed

text \<open>
  Claim C4, as amended. The dashboard reports the bucket whose budgets it shows: the
  requested bucket when the owner has a budget row in it; otherwise the greatest bucket,
  in the order of the bucket strings, among all of the owner's budget rows (which is the
  most recent prior bucket only when no row of the owner lies in a later bucket); and the
  requested bucket, with no entries, when the owner has no budget row at all. The entries
  are those of the owner's budget rows in the reported bucket. An owner whose only budget
  rows are in 2024-05 gets 2024-05 reported.
\<close>

theorem dashboard_budget_month_used:
  "(let used = fst (dashboard_budgets u m s); entries = snd (dashboard_budgets u m s);
        mine = filter (\<lambda>b. bud_user b = user_pk u) (budgets s)
    in ((\<exists>b \<in> set mine. bud_month_year b = m) \<longrightarrow> used = m) \<and>
       (\<not> (\<exists>b \<in> set mine. bud_month_year b = m) \<and> mine \<noteq> [] \<longrightarrow>
          (\<exists>b \<in> set mine. bud_month_year b = used) \<and> (\<forall>b \<in> set mine. bud_month_year b \<le> used)) \<and>
       (mine = [] \<longrightarrow> used = m \<and> entries = []) \<and>
       entries =
         map (\<lambda>budget. \<lparr>de_category = bud_category budget,
                         de_allocated = bud_allocated_amount budget,
                         de_actual = get_spent_amount s budget,
                         de_remaining = get_remaining_budget s budget\<rparr>)
           (Budget_filter s (user_pk u) used) \<and>
       (mine \<noteq> [] \<and> (\<forall>b \<in> set mine. bud_month_year b = ''2024-05'') \<longrightarrow> used = ''2024-05''))"
proof -
  let ?used = "fst (dashboard_budgets u m s)"
  let ?mine = "filter (\<lambda>b. bud_user b = user_pk u) (budgets s)"
  have present: "(\<exists>b \<in> set ?mine. bud_month_year b = m) \<longleftrightarrow> Budget_filter s (user_pk u) m \<noteq> []"
    by (auto simp: Budget_filter_Nil)
  have a: "(\<exists>b \<in> set ?mine. bud_month_year b = m) \<longrightarrow> ?used = m"
    using present dashboard_budgets_present by blast
  have b: "\<not> (\<exists>b \<in> set ?mine. bud_month_year b = m) \<and> ?mine \<noteq> [] \<longrightarrow>
          (\<exists>b \<in> set ?mine. bud_month_year b = ?used) \<and> (\<forall>b \<in> set ?mine. bud_month_year b \<le> ?used)"
  proof
    assume h: "\<not> (\<exists>b \<in> set ?mine. bud_month_year b = m) \<and> ?mine \<noteq> []"
    with present have e: "Budget_filter s (user_pk u) m = []" by blast
    from h have n: "?mine \<noteq> []" by simp
    from dashboard_budgets_fallback(1) [OF e n]
    have 1: "\<exists>b \<in> set ?mine. bud_month_year b = ?used" by auto
    from dashboard_budgets_fallback(2) [OF e n]
    have 2: "\<forall>b \<in> set ?mine. bud_month_year b \<le> ?used" by auto
    from 1 2 show "(\<exists>b \<in> set ?mine. bud_month_year b = ?used) \<and> (\<forall>b \<in> set ?mine. bud_month_year b \<le> ?used)"
      by (rule conjI)
  qed
  have c: "?mine = [] \<longrightarrow> ?used = m \<and> snd (dashboard_budgets u m s) = []"
    using dashboard_budgets_none [of u s m] by simp
  have d: "?mine \<noteq> [] \<and> (\<forall>b \<in> set ?mine. bud_month_year b = ''2024-05'') \<longrightarrow> ?used = ''2024-05''"
  proof
    assume h: "?mine \<noteq> [] \<and> (\<forall>b \<in> set ?mine. bud_month_year b = ''2024-05'')"
    show "?used = ''2024-05''"
    proof (cases "\<exists>b \<in> set ?mine. bud_month_year b = m")
      case True
      then obtain x where "x \<in> set ?mine" "bud_month_year x = m" by blast
      with h have "m = ''2024-05''" by auto
      moreover from True a have "?used = m" by (rule rev_mp)
      ultimately show ?thesis by simp
    next
      case False
      with h have "\<not> (\<exists>b \<in> set ?mine. bud_month_year b = m) \<and> ?mine \<noteq> []" by simp
      with b have "\<exists>b \<in> set ?mine. bud_month_year b = ?used" by (rule_tac conjunct1) (rule mp)
      then obtain x where "x \<in> set ?mine" "bud_month_year x = ?used" by blast
      with h show ?thesis by auto
    qed
  qed
  show ?thesis
    unfolding Let_def
    apply (intro conjI)
        apply (rule a)
       apply (rule b)
      apply (rule c)
     apply (rule dashboard_budgets_entries)
    apply (rule d)
    done
qed

lemma dashboard_may_only:
  "dashboard_budgets demo_user ''2024-06'' may_only_db =
     (''2024-05'', [\<lparr>de_category = ''Food'', de_allocated = 500, de_actual = 0, de_remaining = 500\<rparr>])"
  by (simp add: dashboard_budgets_def Budget_filter_def latest_budget_def may_only_db_def
      may_budget_def empty_db_def demo_user_def get_spent_amount_def get_remaining_budget_def Let_def)

theorem dashboard_budget_month_used_witness:
  "filter (\<lambda>b. bud_user b = user_pk demo_user) (budgets may_only_db) = [may_budget] \<and>
   bud_month_year may_budget = ''2024-05'' \<and>
   fst (dashboard_budgets demo_user ''2024-06'' may_only_db) = ''2024-05'' \<and>
   snd (dashboard_budgets demo_user ''2024-06'' may_only_db) =
     [\<lparr>de_category = ''Food'', de_allocated = 500, de_actual = 0, de_remaining = 500\<rparr>] \<and>
   fst (dashboard_budgets demo_user ''2024-05'' may_only_db) = ''2024-05'' \<and>
   dashboard_budgets other_user ''2024-06'' may_only_db = (''2024-06'', [])"
proof -
  have mine: "filter (\<lambda>b. bud_user b = user_pk demo_user) (budgets may_only_db) = [may_budget]"
    "filter (\<lambda>b. bud_user b = user_pk other_user) (budgets may_only_db) = []"
    "bud_month_year may_budget = ''2024-05''"
    by (simp_all add: may_only_db_def may_budget_def empty_db_def demo_user_def other_user_def)
  have "[may_budget] \<noteq> [] \<and> (\<forall>b \<in> set [may_budget]. bud_month_year b = ''2024-05'') \<longrightarrow>
      fst (dashboard_budgets demo_user ''2024-06'' may_only_db) = ''2024-05''"
    using dashboard_budget_month_used [of demo_user "''2024-06''" may_only_db, unfolded Let_def mine]
    by (elim conjE)
  then have 1: "fst (dashboard_budgets demo_user ''2024-06'' may_only_db) = ''2024-05''"
    by (simp add: mine)
  have "(\<exists>b \<in> set [may_budget]. bud_month_year b = ''2024-05'') \<longrightarrow>
      fst (dashboard_budgets demo_user ''2024-05'' may_only_db) = ''2024-05''"
    using dashboard_budget_month_used [of demo_user "''2024-05''" may_only_db, unfolded Let_def mine]
    by (elim conjE)
  then have 2: "fst (dashboard_budgets demo_user ''2024-05'' may_only_db) = ''2024-05''"
    by (simp add: mine)
  have "[] = ([]::budget list) \<longrightarrow> fst (dashboard_budgets other_user ''2024-06'' may_only_db) = ''2024-06'' \<and>
      snd (dashboard_budgets other_user ''2024-06'' may_only_db) = []"
    using dashboard_budget_month_used [of other_user "''2024-06''" may_only_db, unfolded Let_def mine]
    by (elim conjE)
  then have 3: "dashboard_budgets other_user ''2024-06'' may_only_db = (''2024-06'', [])"
    by (simp add: prod_eq_iff)
  from 1 2 3 mine dashboard_may_only show ?thesis by simp
qed

text \<open>
  The claim as stated fails when the owner has a budget row in a later bucket: with rows
  in 2024-05 and 2024-07 and none in 2024-06, the dashboard of 2024-06 reports 2024-07,
  not the most recent prior bucket 2024-05.
\<close>

theorem dashboard_budget_fallback_counterexample:
  "map bud_user (budgets may_july_db) = [user_pk demo_user, user_pk demo_user] \<and>
   map bud_month_year (budgets may_july_db) = [''2024-05'', ''2024-07''] \<and>
   ''2024-05'' < ''2024-06'' \<and> ''2024-06'' < ''2024-07'' \<and>
   fst (dashboard_budgets demo_user ''2024-06'' may_july_db) = ''2024-07'' \<and>
   map de_category (snd (dashboard_budgets demo_user ''2024-06'' may_july_db)) = [''Bills'']"
  by (simp add: dashboard_budgets_def Budget_filter_def latest_budget_def may_july_db_def
      may_budget_def july_budget_def empty_db_def demo_user_def Let_def)

subsection \<open>Calendar arithmetic and the spending trend\<close>

lemma days_before_year_bound:
  assumes "y \<le> 9998"
  shows "days_before_year y \<le> 3651428"
proof -
  let ?y1 = "y - 1"
  from assms have "?y1 \<le> 9997" by simp
  then have "?y1 * 365 \<le> 9997 * 365" "?y1 div 4 \<le> 2499" "?y1 div 400 \<le> 24"
    by simp_all
  then show ?thesis unfolding days_before_year_def Let_def by linarith
qed

lemma days_before_year_9999: "days_before_year 9999 = 3651694"
  by (simp add: days_before_year_def Let_def)

lemma not_leap_9999: "\<not> is_leap 9999"
  by (simp add: is_leap_def)

lemma day_of_year_bound:
  assumes "1 \<le> m" "m \<le> 12" "d \<le> days_in_month y m"
  shows "days_before_month y m + d \<le> (if is_leap y then 366 else 365)"
proof -
  from assms(1,2) have "m = 1 \<or> m = 2 \<or> m = 3 \<or> m = 4 \<or> m = 5 \<or> m = 6 \<or> m = 7 \<or> m = 8 \<or>
      m = 9 \<or> m = 10 \<or> m = 11 \<or> m = 12" by arith
  then show ?thesis
    using assms(3)
    by (elim disjE)
      (simp_all add: days_before_month_def days_in_month_def DAYS_BEFORE_MONTH_def DAYS_IN_MONTH_def
        split: if_splits)
qed

lemma toordinal_range:
  assumes "valid_date d"
  shows "1 \<le> toordinal d" and "toordinal d \<le> MAXORDINAL"
proof -
  from assms show "1 \<le> toordinal d"
    by (simp add: valid_date_def toordinal_def ymd2ord_def)
  from assms have doy: "days_before_month (year d) (month d) + day d
      \<le> (if is_leap (year d) then 366 else 365)"
    by (intro day_of_year_bound) (simp_all add: valid_date_def)
  show "toordinal d \<le> MAXORDINAL"
  proof (cases "year d = 9999")
    case True
    with doy show ?thesis
      by (simp add: toordinal_def ymd2ord_def days_before_year_9999 not_leap_9999 MAXORDINAL_def)
  next
    case False
    with assms have "year d \<le> 9998" by (simp add: valid_date_def)
    then have "days_before_year (year d) \<le> 3651428" by (rule days_before_year_bound)
    moreover from doy have "days_before_month (year d) (month d) + day d \<le> 366"
      by (simp split: if_splits)
    ultimately show ?thesis
      by (simp add: toordinal_def ymd2ord_def MAXORDINAL_def)
  qed
qed

lemma minus_days_Some:
  assumes "valid_date d" and "k < toordinal d"
  shows "\<exists>d'. minus_days d k = Some d'"
proof -
  from assms(1) have "toordinal d \<le> MAXORDINAL" by (rule toordinal_range)
  with assms(2) show ?thesis
    by (auto simp: minus_days_def Let_def split: prod.splits)
qed

lemma minus_days_time:
  assumes "minus_days d k = Some d'"
  shows "hour d' = hour d \<and> minute d' = minute d \<and> second d' = second d"
  using assms by (auto simp: minus_days_def Let_def split: prod.splits if_splits)

lemma trend_loop_entries:
  assumes "\<And>i. i \<in> set is \<Longrightarrow> minus_days now (30 * i) \<noteq> None"
  shows "trend_loop s u now is acc = Inr (acc @ map (trend_entry s u now) is)"
  using assms
proof (induction "is" arbitrary: acc)
  case Nil
  show ?case by simp
next
  case (Cons i "is")
  from Cons.prems obtain d where d: "minus_days now (30 * i) = Some d" by fastforce
  have "trend_loop s u now (i # is) acc =
      trend_loop s u now is (acc @ [(strftime_Ym d, expense_total s u (strftime_Ym d))])"
    by (simp add: d Let_def)
  also have "\<dots> = Inr ((acc @ [(strftime_Ym d, expense_total s u (strftime_Ym d))]) @
      map (trend_entry s u now) is)"
    using Cons.prems by (intro Cons.IH) simp
  also have "\<dots> = Inr (acc @ map (trend_entry s u now) (i # is))"
    by (simp add: trend_entry_def d)
  finally show ?case .
qed

lemma spending_trend_entries:
  assumes "valid_date now" and "30 * (n - 1) < toordinal now"
  shows "spending_trend s u now n = Inr (rev (map (trend_entry s u now) [0..<n]))"
proof -
  have "\<And>i. i \<in> set [0..<n] \<Longrightarrow> minus_days now (30 * i) \<noteq> None"
  proof -
    fix i assume "i \<in> set [0..<n]"
    then have "30 * i \<le> 30 * (n - 1)" by auto
    with assms(2) have "30 * i < toordinal now" by simp
    with assms(1) show "minus_days now (30 * i) \<noteq> None"
      using minus_days_Some by fastforce
  qed
  then have "trend_loop s u now [0..<n] [] = Inr ([] @ map (trend_entry s u now) [0..<n])"
    by (rule trend_loop_entries)
  then show ?thesis by (simp add: spending_trend_def)
qed

lemma div_eq_by_bounds:
  fixes m n q :: nat
  assumes "m = n * q + r" "r < n"
  shows "m div n = q" "m mod n = r"
  using assms by simp_all

lemma days_before_year_decomp:
  assumes "b \<le> 3" "c \<le> 24" "d \<le> 3"
  shows "days_before_year (400 * a + 100 * b + 4 * c + d + 1) =
           146097 * a + 36524 * b + 1461 * c + 365 * d"
proof -
  let ?y1 = "400 * a + 100 * b + 4 * c + d"
  have 4: "?y1 div 4 = 100 * a + 25 * b + c"
    using assms by (intro div_eq_by_bounds(1) [where r = d]) simp_all
  have 100: "?y1 div 100 = 4 * a + b"
    using assms by (intro div_eq_by_bounds(1) [where r = "4 * c + d"]) simp_all
  have 400: "?y1 div 400 = a"
    using assms by (intro div_eq_by_bounds(1) [where r = "100 * b + 4 * c + d"]) simp_all
  have "days_before_year (?y1 + 1) = ?y1 * 365 + ?y1 div 4 - ?y1 div 100 + ?y1 div 400"
    by (simp add: days_before_year_def Let_def)
  also have "\<dots> = 146097 * a + 36524 * b + 1461 * c + 365 * d"
    unfolding 4 100 400 by simp
  finally show ?thesis .
qed

lemma is_leap_decomp:
  assumes "b \<le> 3" "c \<le> 24" "d \<le> 3"
  shows "is_leap (400 * a + 100 * b + 4 * c + d + 1) \<longleftrightarrow> d = 3 \<and> (c \<noteq> 24 \<or> b = 3)"
proof -
  let ?y = "400 * a + 100 * b + 4 * c + d + 1"
  have m4: "?y mod 4 = (d + 1) mod 4"
  proof -
    have "?y = 4 * (100 * a + 25 * b + c) + (d + 1)" by simp
    then show ?thesis by (metis mod_mult_self4)
  qed
  have m100: "?y mod 100 = (4 * c + d + 1) mod 100"
  proof -
    have "?y = 100 * (4 * a + b) + (4 * c + d + 1)" by simp
    then show ?thesis by (metis mod_mult_self4)
  qed
  have m400: "?y mod 400 = (100 * b + 4 * c + d + 1) mod 400"
  proof -
    have "?y = 400 * a + (100 * b + 4 * c + d + 1)" by simp
    then show ?thesis by (metis mod_mult_self4)
  qed
  show ?thesis
  proof (cases "d = 3")
    case False
    with assms have "d = 0 \<or> d = 1 \<or> d = 2" by arith
    then have "(d + 1) mod 4 \<noteq> 0" by auto
    then have "?y mod 4 \<noteq> 0" unfolding m4 .
    with False show ?thesis unfolding is_leap_def by blast
  next
    case True
    have "(d + 1) mod 4 = 0" using True by simp
    then have a: "?y mod 4 = 0" by (simp only: m4)
    have b: "?y mod 100 = 0 \<longleftrightarrow> c = 24"
    proof -
      from assms have le: "4 * c + d + 1 \<le> 100" by simp
      have "(4 * c + d + 1) mod 100 = 0 \<longleftrightarrow> 4 * c + d + 1 = 100"
      proof (cases "4 * c + d + 1 = 100")
        case True
        then show ?thesis by simp
      next
        case False
        with le have "4 * c + d + 1 < 100" by simp
        then have "(4 * c + d + 1) mod 100 = 4 * c + d + 1" by (rule mod_less)
        with False show ?thesis by simp
      qed
      moreover have "4 * c + d + 1 = 100 \<longleftrightarrow> c = 24" using True by arith
      ultimately show ?thesis by (simp only: m100)
    qed
    have c: "c = 24 \<Longrightarrow> ?y mod 400 = 0 \<longleftrightarrow> b = 3"
    proof -
      assume c24: "c = 24"
      from assms have le: "100 * b + 4 * c + d + 1 \<le> 400" using True c24 by simp
      have "(100 * b + 4 * c + d + 1) mod 400 = 0 \<longleftrightarrow> 100 * b + 4 * c + d + 1 = 400"
      proof (cases "100 * b + 4 * c + d + 1 = 400")
        case True
        then show ?thesis by simp
      next
        case False
        with le have "100 * b + 4 * c + d + 1 < 400" by simp
        then have "(100 * b + 4 * c + d + 1) mod 400 = 100 * b + 4 * c + d + 1" by (rule mod_less)
        with False show ?thesis by simp
      qed
      moreover have "100 * b + 4 * c + d + 1 = 400 \<longleftrightarrow> b = 3" using True c24 by arith
      ultimately show ?thesis by (simp only: m400)
    qed
    show ?thesis
    proof (cases "c = 24")
      case c24: True
      from c [OF c24] have "?y mod 400 = 0 \<longleftrightarrow> b = 3" .
      with a b c24 True show ?thesis unfolding is_leap_def by (simp only: simp_thms)
    next
      case False
      with b have "?y mod 100 \<noteq> 0" by (simp only: simp_thms)
      with a False True show ?thesis unfolding is_leap_def by (simp only: simp_thms)
    qed
  qed
qed

lemma month_estimate:
  assumes "r < 365"
  shows "DAYS_BEFORE_MONTH ! ((r + 50) div 32) + (if (r + 50) div 32 > 2 \<and> leap then 1 else 0) > r \<Longrightarrow>
           DAYS_BEFORE_MONTH ! ((r + 50) div 32 - 1) + (if (r + 50) div 32 - 1 > 2 \<and> leap then 1 else 0) +
             (r - (DAYS_BEFORE_MONTH ! ((r + 50) div 32) + (if (r + 50) div 32 > 2 \<and> leap then 1 else 0)
                   - (DAYS_IN_MONTH ! ((r + 50) div 32 - 1) +
                      (if (r + 50) div 32 - 1 = 2 \<and> leap then 1 else 0))) + 1) = r + 1"
proof -
  define m where "m = (r + 50) div 32"
  have lo: "32 * m \<le> r + 50"
    unfolding m_def by simp
  have hi: "r + 50 < 32 * m + 32"
    unfolding m_def using dividend_less_times_div [of 32 "r + 50"] by simp
  from assms lo hi have "1 \<le> m" "m \<le> 12" by simp_all
  then have "m = 1 \<or> m = 2 \<or> m = 3 \<or> m = 4 \<or> m = 5 \<or> m = 6 \<or> m = 7 \<or> m = 8 \<or>
      m = 9 \<or> m = 10 \<or> m = 11 \<or> m = 12" by arith
  then have "DAYS_BEFORE_MONTH ! m + (if m > 2 \<and> leap then 1 else 0) > r \<Longrightarrow>
           DAYS_BEFORE_MONTH ! (m - 1) + (if m - 1 > 2 \<and> leap then 1 else 0) +
             (r - (DAYS_BEFORE_MONTH ! m + (if m > 2 \<and> leap then 1 else 0)
                   - (DAYS_IN_MONTH ! (m - 1) + (if m - 1 = 2 \<and> leap then 1 else 0))) + 1) = r + 1"
    using lo hi
    by (elim disjE) (simp_all add: DAYS_BEFORE_MONTH_def DAYS_IN_MONTH_def split: if_splits)
  then show "DAYS_BEFORE_MONTH ! ((r + 50) div 32) + (if (r + 50) div 32 > 2 \<and> leap then 1 else 0) > r \<Longrightarrow>
           DAYS_BEFORE_MONTH ! ((r + 50) div 32 - 1) + (if (r + 50) div 32 - 1 > 2 \<and> leap then 1 else 0) +
             (r - (DAYS_BEFORE_MONTH ! ((r + 50) div 32) + (if (r + 50) div 32 > 2 \<and> leap then 1 else 0)
                   - (DAYS_IN_MONTH ! ((r + 50) div 32 - 1) +
                      (if (r + 50) div 32 - 1 = 2 \<and> leap then 1 else 0))) + 1) = r + 1"
    unfolding m_def .
qed

lemma ord2ymd_roundtrip:
  assumes "1 \<le> n0"
  shows "(case ord2ymd n0 of (y, m, d) \<Rightarrow> ymd2ord y m d) = n0"
proof -
  define n where "n = n0 - 1"
  define a where "a = n div 146097"
  define r1 where "r1 = n mod 146097"
  define b where "b = r1 div 36524"
  define r2 where "r2 = r1 mod 36524"
  define c where "c = r2 div 1461"
  define r3 where "r3 = r2 mod 1461"
  define d where "d = r3 div 365"
  define r4 where "r4 = r3 mod 365"
  have n0: "n0 = n + 1" using assms by (simp add: n_def)
  have n: "n = 146097 * a + r1" by (simp add: a_def r1_def)
  have r1: "r1 = 36524 * b + r2" by (simp add: b_def r2_def)
  have r2: "r2 = 1461 * c + r3" by (simp add: c_def r3_def)
  have r3: "r3 = 365 * d + r4" by (simp add: d_def r4_def)
  have r1_lt: "r1 < 146097" by (simp add: r1_def)
  have r2_lt: "r2 < 36524" by (simp add: r2_def)
  have r3_lt: "r3 < 1461" by (simp add: r3_def)
  have r4_lt: "r4 < 365" by (simp add: r4_def)
  from r1 r1_lt have b_le: "b \<le> 4" by simp
  from r2 r2_lt have c_le: "c \<le> 24" by simp
  from r3 r3_lt have d_le: "d \<le> 4" by simp
  have total: "n = 146097 * a + 36524 * b + 1461 * c + 365 * d + r4"
    using n r1 r2 r3 by simp
  define leapyear where "leapyear \<longleftrightarrow> d = 3 \<and> (c \<noteq> 24 \<or> b = 3)"
  define m where "m = (r4 + 50) div 32"
  define preceding where "preceding = DAYS_BEFORE_MONTH ! m + (if m > 2 \<and> leapyear then 1 else 0)"
  define y where "y = a * 400 + 1 + b * 100 + c * 4 + d"
  have unfolded: "ord2ymd n0 =
      (if d = 4 \<or> b = 4 then (y - 1, 12, 31)
       else if preceding > r4
         then (y, m - 1, r4 - (preceding - (DAYS_IN_MONTH ! (m - 1) + (if m - 1 = 2 \<and> leapyear then 1 else 0))) + 1)
         else (y, m, r4 - preceding + 1))"
    unfolding ord2ymd_def Let_def y_def preceding_def m_def leapyear_def
      r4_def d_def r3_def c_def r2_def b_def r1_def a_def n_def ..
  show ?thesis
  proof (cases "b = 4")
    case True
    with r1 r1_lt have "r2 = 0" by simp
    with r2 r3 have z: "c = 0" "d = 0" "r4 = 0" by simp_all
    have "y - 1 = 400 * a + 100 * 3 + 4 * 24 + 3 + 1" by (simp add: y_def True z)
    moreover have "days_before_year (400 * a + 100 * 3 + 4 * 24 + 3 + 1) =
        146097 * a + 36524 * 3 + 1461 * 24 + 365 * 3"
      by (rule days_before_year_decomp) simp_all
    moreover have "is_leap (400 * a + 100 * 3 + 4 * 24 + 3 + 1)"
      using is_leap_decomp [of 3 24 3 a] by simp
    ultimately have v: "ymd2ord (y - 1) 12 31 = 146097 * a + 146097"
      by (simp add: ymd2ord_def days_before_month_def DAYS_BEFORE_MONTH_def)
    have "ord2ymd n0 = (y - 1, 12, 31)" using True by (simp add: unfolded)
    then have "(case ord2ymd n0 of (y, m, d) \<Rightarrow> ymd2ord y m d) = ymd2ord (y - 1) 12 31"
      by simp
    also note v
    also have "146097 * a + 146097 = n0" using total True z n0 by simp
    finally show ?thesis .
  next
    case b4: False
    with b_le have b3: "b \<le> 3" by simp
    show ?thesis
    proof (cases "d = 4")
      case True
      with r3 r3_lt have r40: "r4 = 0" by simp
      have c23: "c \<le> 23"
      proof (rule ccontr)
        assume "\<not> c \<le> 23"
        with c_le have "c = 24" by simp
        with r2 r2_lt r3 True show False by simp
      qed
      have "y - 1 = 400 * a + 100 * b + 4 * c + 3 + 1" by (simp add: y_def True)
      moreover have "days_before_year (400 * a + 100 * b + 4 * c + 3 + 1) =
          146097 * a + 36524 * b + 1461 * c + 365 * 3"
        using b3 c23 by (intro days_before_year_decomp) simp_all
      moreover have "is_leap (400 * a + 100 * b + 4 * c + 3 + 1)"
        using is_leap_decomp [of b c 3 a] b3 c23 by simp
      ultimately have v: "ymd2ord (y - 1) 12 31 = 146097 * a + 36524 * b + 1461 * c + 1461"
        by (simp add: ymd2ord_def days_before_month_def DAYS_BEFORE_MONTH_def)
      have "ord2ymd n0 = (y - 1, 12, 31)" using True by (simp add: unfolded)
      then have "(case ord2ymd n0 of (y, m, d) \<Rightarrow> ymd2ord y m d) = ymd2ord (y - 1) 12 31"
        by simp
      also note v
      also have "146097 * a + 36524 * b + 1461 * c + 1461 = n0" using total True r40 n0 by simp
      finally show ?thesis .
    next
      case d4: False
      with d_le have d3: "d \<le> 3" by simp
      have yy: "y = 400 * a + 100 * b + 4 * c + d + 1" by (simp add: y_def)
      have dby: "days_before_year y = 146097 * a + 36524 * b + 1461 * c + 365 * d"
        unfolding yy using b3 c_le d3 by (rule days_before_year_decomp)
      have leap: "is_leap y \<longleftrightarrow> leapyear"
        unfolding yy leapyear_def using b3 c_le d3 by (rule is_leap_decomp)
      show ?thesis
      proof (cases "preceding > r4")
        case True
        have "DAYS_BEFORE_MONTH ! (m - 1) + (if m - 1 > 2 \<and> leapyear then 1 else 0) +
             (r4 - (preceding - (DAYS_IN_MONTH ! (m - 1) + (if m - 1 = 2 \<and> leapyear then 1 else 0))) + 1)
              = r4 + 1"
          using month_estimate [OF r4_lt, of leapyear] True unfolding preceding_def m_def by simp
        then have v: "ymd2ord y (m - 1)
            (r4 - (preceding - (DAYS_IN_MONTH ! (m - 1) + (if m - 1 = 2 \<and> leapyear then 1 else 0))) + 1)
            = days_before_year y + (r4 + 1)"
          unfolding ymd2ord_def days_before_month_def leap by simp
        have "ord2ymd n0 = (y, m - 1,
            r4 - (preceding - (DAYS_IN_MONTH ! (m - 1) + (if m - 1 = 2 \<and> leapyear then 1 else 0))) + 1)"
          using b4 d4 True by (simp add: unfolded)
        then have "(case ord2ymd n0 of (y, m, d) \<Rightarrow> ymd2ord y m d) = ymd2ord y (m - 1)
            (r4 - (preceding - (DAYS_IN_MONTH ! (m - 1) + (if m - 1 = 2 \<and> leapyear then 1 else 0))) + 1)"
          by simp
        also note v
        also have "days_before_year y + (r4 + 1) = n0" using dby total n0 by simp
        finally show ?thesis .
      next
        case False
        then have "preceding + (r4 - preceding + 1) = r4 + 1" by simp
        then have v: "ymd2ord y m (r4 - preceding + 1) = days_before_year y + (r4 + 1)"
          unfolding ymd2ord_def days_before_month_def leap preceding_def by simp
        have "ord2ymd n0 = (y, m, r4 - preceding + 1)"
          using b4 d4 False by (simp add: unfolded)
        then have "(case ord2ymd n0 of (y, m, d) \<Rightarrow> ymd2ord y m d) = ymd2ord y m (r4 - preceding + 1)"
          by simp
        also note v
        also have "days_before_year y + (r4 + 1) = n0" using dby total n0 by simp
        finally show ?thesis .
      qed
    qed
  qed
qed

lemma minus_days_toordinal:
  assumes "minus_days d k = Some d'"
  shows "toordinal d' + k = toordinal d"
proof -
  define n where "n = int (toordinal d) - int k"
  from assms have pos: "0 < n" and d': "d' = (case ord2ymd (nat n) of (y, m, dd) \<Rightarrow> d\<lparr>year := y, month := m, day := dd\<rparr>)"
    by (auto simp: minus_days_def Let_def n_def split: if_splits prod.splits)
  from pos have "1 \<le> nat n" by simp
  then have "(case ord2ymd (nat n) of (y, m, dd) \<Rightarrow> ymd2ord y m dd) = nat n"
    by (rule ord2ymd_roundtrip)
  then have "toordinal d' = nat n"
    unfolding d' toordinal_def by (simp split: prod.splits)
  with pos show ?thesis by (simp add: n_def)
qed

lemma trend_entry_Some:
  assumes "minus_days now (30 * i) = Some d"
  shows "trend_entry s u now i =
     (strftime_Ym d, sum_list (map exp_amount
         (filter (\<lambda>e. exp_user e = u \<and> exp_month_year e = strftime_Ym d) (expenses s))))"
  by (simp add: trend_entry_def assms expense_total_sum)

lemma minus_days_2024_03_31:
  "map (\<lambda>i. map_option strftime_Ymd (minus_days d_2024_03_31 (30 * i))) [0, 1, 2, 3, 4, 5] =
     [Some ''2024-03-31'', Some ''2024-03-01'', Some ''2024-01-31'', Some ''2024-01-01'',
      Some ''2023-12-02'', Some ''2023-11-02'']"
  by (simp add: minus_days_def toordinal_def ymd2ord_def days_before_year_def days_before_month_def
      DAYS_BEFORE_MONTH_def DAYS_IN_MONTH_def is_leap_def MAXORDINAL_def ord2ymd_def Let_def
      d_2024_03_31_def strftime_Ymd_def strftime_Ym_def pad4_def pad2_def digit_char_def)

lemma valid_2024_03_31: "valid_date d_2024_03_31" "30 * (6 - 1) < toordinal d_2024_03_31"
  by (simp_all add: valid_date_def toordinal_def ymd2ord_def days_before_year_def days_before_month_def
      days_in_month_def DAYS_BEFORE_MONTH_def DAYS_IN_MONTH_def is_leap_def d_2024_03_31_def Let_def)

lemma trend_buckets_2024_03_31:
  "map (\<lambda>i. fst (trend_entry s u d_2024_03_31 i)) [0, 1, 2, 3, 4, 5] =
     [''2024-03'', ''2024-03'', ''2024-01'', ''2024-01'', ''2023-12'', ''2023-11'']"
  by (simp add: trend_entry_def minus_days_def toordinal_def ymd2ord_def days_before_year_def
      days_before_month_def DAYS_BEFORE_MONTH_def DAYS_IN_MONTH_def is_leap_def MAXORDINAL_def
      ord2ymd_def Let_def d_2024_03_31_def strftime_Ym_def pad4_def pad2_def digit_char_def)

lemma upt_6: "[0..<6] = [0, 1, 2, 3, 4, 5]"
  by (simp add: upt_rec)

text \<open>
  Claim C8. From a valid anchor date that lies more than 30 * (N - 1) days after the
  first day of year 1, the trend has N entries, oldest first: entry \<open>k\<close> belongs to the
  date exactly 30 * (N - 1 - k) days before the anchor (the ordinals differ by that
  number, whatever the lengths of the months in between), its key is the bucket of that
  date and its amount the sum of the owner's expenses stored under that key, 0 when there
  are none. Keys repeat and are skipped: six steps back from 2024-03-31 give 2023-11,
  2023-12, 2024-01, 2024-01, 2024-03, 2024-03, without 2024-02.
\<close>

theorem spending_trend_thirty_day_steps:
  assumes "valid_date now" and "30 * (n - 1) < toordinal now"
  shows "(\<exists>xs. spending_trend s u now n = Inr xs \<and> length xs = n \<and>
           (\<forall>k<n. \<exists>d. minus_days now (30 * (n - 1 - k)) = Some d \<and>
                 toordinal d + 30 * (n - 1 - k) = toordinal now \<and>
                 xs ! k = (strftime_Ym d, sum_list (map exp_amount
                    (filter (\<lambda>e. exp_user e = u \<and> exp_month_year e = strftime_Ym d) (expenses s)))) \<and>
                 (filter (\<lambda>e. exp_user e = u \<and> exp_month_year e = strftime_Ym d) (expenses s) = []
                    \<longrightarrow> snd (xs ! k) = 0))) \<and>
         map_sum id (map fst) (spending_trend s u d_2024_03_31 6) =
           Inr [''2023-11'', ''2023-12'', ''2024-01'', ''2024-01'', ''2024-03'', ''2024-03'']"
proof (intro conjI exI)
  let ?xs = "rev (map (trend_entry s u now) [0..<n])"
  show "spending_trend s u now n = Inr ?xs"
    using assms by (rule spending_trend_entries)
  show "length ?xs = n" by simp
  show "\<forall>k<n. \<exists>d. minus_days now (30 * (n - 1 - k)) = Some d \<and>
                 toordinal d + 30 * (n - 1 - k) = toordinal now \<and>
                 ?xs ! k = (strftime_Ym d, sum_list (map exp_amount
                    (filter (\<lambda>e. exp_user e = u \<and> exp_month_year e = strftime_Ym d) (expenses s)))) \<and>
                 (filter (\<lambda>e. exp_user e = u \<and> exp_month_year e = strftime_Ym d) (expenses s) = []
                    \<longrightarrow> snd (?xs ! k) = 0)"
  proof (intro allI impI)
    fix k assume k: "k < n"
    define i where "i = n - 1 - k"
    from k have i: "i < n" by (simp add: i_def)
    then have "30 * i \<le> 30 * (n - 1)" by simp
    with assms(2) have "30 * i < toordinal now" by simp
    with assms(1) obtain d where d: "minus_days now (30 * i) = Some d"
      using minus_days_Some by blast
    have nth: "?xs ! k = trend_entry s u now i"
      using k i by (simp add: rev_nth i_def)
    have e: "trend_entry s u now i = (strftime_Ym d, sum_list (map exp_amount
         (filter (\<lambda>e. exp_user e = u \<and> exp_month_year e = strftime_Ym d) (expenses s))))"
      using d by (rule trend_entry_Some)
    have o: "toordinal d + 30 * i = toordinal now"
      using d by (rule minus_days_toordinal)
    show "\<exists>d. minus_days now (30 * (n - 1 - k)) = Some d \<and>
                 toordinal d + 30 * (n - 1 - k) = toordinal now \<and>
                 ?xs ! k = (strftime_Ym d, sum_list (map exp_amount
                    (filter (\<lambda>e. exp_user e = u \<and> exp_month_year e = strftime_Ym d) (expenses s)))) \<and>
                 (filter (\<lambda>e. exp_user e = u \<and> exp_month_year e = strftime_Ym d) (expenses s) = []
                    \<longrightarrow> snd (?xs ! k) = 0)"
      unfolding nth e i_def [symmetric]
      using d o by (intro exI [of _ d]) simp
  qed
  have "spending_trend s u d_2024_03_31 6 = Inr (rev (map (trend_entry s u d_2024_03_31) [0..<6]))"
    using valid_2024_03_31 by (rule spending_trend_entries)
  then have "map_sum id (map fst) (spending_trend s u d_2024_03_31 6) =
      Inr (rev (map (\<lambda>i. fst (trend_entry s u d_2024_03_31 i)) [0, 1, 2, 3, 4, 5]))"
    by (simp only: upt_6 map_sum.simps id_apply rev_map list.map_comp comp_def)
  then show "map_sum id (map fst) (spending_trend s u d_2024_03_31 6) =
           Inr [''2023-11'', ''2023-12'', ''2024-01'', ''2024-01'', ''2024-03'', ''2024-03'']"
    unfolding trend_buckets_2024_03_31 by simp
qed

lemma valid_2024_06_15: "valid_date d_2024_06_15" "30 * (6 - 1) < toordinal d_2024_06_15"
  by (simp_all add: valid_date_def toordinal_def ymd2ord_def days_before_year_def days_before_month_def
      days_in_month_def DAYS_BEFORE_MONTH_def DAYS_IN_MONTH_def is_leap_def d_2024_06_15_def Let_def)

lemma minus_days_2024_06_15:
  "map (\<lambda>i. map_option strftime_Ym (minus_days d_2024_06_15 (30 * i))) [0, 1, 2, 3, 4, 5] =
     [Some ''2024-06'', Some ''2024-05'', Some ''2024-04'', Some ''2024-03'', Some ''2024-02'',
      Some ''2024-01'']"
  by (simp add: minus_days_def toordinal_def ymd2ord_def days_before_year_def
      days_before_month_def DAYS_BEFORE_MONTH_def DAYS_IN_MONTH_def is_leap_def MAXORDINAL_def
      ord2ymd_def Let_def d_2024_06_15_def strftime_Ym_def pad4_def pad2_def digit_char_def)

lemma june_trend_totals:
  "map (expense_total june_db 1)
     [''2024-06'', ''2024-05'', ''2024-04'', ''2024-03'', ''2024-02'', ''2024-01''] =
     [1800, 75, 0, 0, 0, 0]"
  by (simp add: expense_total_sum june_db_def)

lemma trend_entries_2024_06_15:
  "map (trend_entry june_db 1 d_2024_06_15) [0, 1, 2, 3, 4, 5] =
     [(''2024-06'', 1800), (''2024-05'', 75), (''2024-04'', 0), (''2024-03'', 0),
      (''2024-02'', 0), (''2024-01'', 0)]"
proof -
  have "trend_entry june_db 1 d_2024_06_15 i =
      (case map_option strftime_Ym (minus_days d_2024_06_15 (30 * i)) of
         None \<Rightarrow> ([], 0) | Some m \<Rightarrow> (m, expense_total june_db 1 m))" for i
    by (simp add: trend_entry_def split: option.splits)
  then show ?thesis
    using minus_days_2024_06_15 june_trend_totals by auto
qed

theorem spending_trend_thirty_day_steps_witness:
  "valid_date d_2024_06_15 \<and> 30 * (6 - 1) < toordinal d_2024_06_15 \<and>
   (\<exists>xs. spending_trend june_db 1 d_2024_06_15 6 = Inr xs \<and> length xs = 6 \<and>
      map fst xs = [''2024-01'', ''2024-02'', ''2024-03'', ''2024-04'', ''2024-05'', ''2024-06''] \<and>
      xs ! 0 = (''2024-01'', 0) \<and> xs ! 4 = (''2024-05'', 75) \<and> xs ! 5 = (''2024-06'', 1800))"
proof -
  from spending_trend_thirty_day_steps [OF valid_2024_06_15, of june_db 1]
  obtain xs where xs: "spending_trend june_db 1 d_2024_06_15 6 = Inr xs" and len: "length xs = 6"
    by blast
  have v: "spending_trend june_db 1 d_2024_06_15 6 =
      Inr (rev (map (trend_entry june_db 1 d_2024_06_15) [0..<6]))"
    using valid_2024_06_15 by (rule spending_trend_entries)
  with xs have eq: "xs = rev (map (trend_entry june_db 1 d_2024_06_15) [0, 1, 2, 3, 4, 5])"
    by (simp only: upt_6 sum.inject)
  have val: "xs = [(''2024-01'', 0), (''2024-02'', 0), (''2024-03'', 0), (''2024-04'', 0),
      (''2024-05'', 75), (''2024-06'', 1800)]"
    unfolding eq trend_entries_2024_06_15 by simp
  have "map fst xs = [''2024-01'', ''2024-02'', ''2024-03'', ''2024-04'', ''2024-05'', ''2024-06''] \<and>
      xs ! 0 = (''2024-01'', 0) \<and> xs ! 4 = (''2024-05'', 75) \<and> xs ! 5 = (''2024-06'', 1800)"
    unfolding val by simp
  with xs len have "\<exists>xs. spending_trend june_db 1 d_2024_06_15 6 = Inr xs \<and> length xs = 6 \<and>
      map fst xs = [''2024-01'', ''2024-02'', ''2024-03'', ''2024-04'', ''2024-05'', ''2024-06''] \<and>
      xs ! 0 = (''2024-01'', 0) \<and> xs ! 4 = (''2024-05'', 75) \<and> xs ! 5 = (''2024-06'', 1800)"
    by (intro exI [of _ xs]) (simp only: simp_thms)
  with valid_2024_06_15 show ?thesis by (simp only: simp_thms)
qed

subsection \<open>Tables a request leaves alone\<close>

lemma MonthlyReport_update_or_create_tables:
  assumes "MonthlyReport_update_or_create u m t path s = Inr (r, s')"
  shows "expenses s' = expenses s" "investments s' = investments s" "budgets s' = budgets s"
    "profiles s' = profiles s"
  using assms
  by (auto simp: MonthlyReport_update_or_create_def Let_def split: list.splits prod.splits)

lemma monthly_totals_tables:
  "expenses (snd (monthly_totals u m s)) = expenses s"
  "investments (snd (monthly_totals u m s)) = investments s"
  "budgets (snd (monthly_totals u m s)) = budgets s"
  "reports (snd (monthly_totals u m s)) = reports s"
  by (simp_all add: monthly_totals_snd UserProfile_get_or_create_tables)

lemma same_ledger_refl: "same_ledger w w"
  by (simp add: same_ledger_def)

lemma same_ledger_trans: "same_ledger w w1 \<Longrightarrow> same_ledger w1 w2 \<Longrightarrow> same_ledger w w2"
  by (simp add: same_ledger_def)

lemma same_ledger_write_file: "same_ledger w (write_file p c w)"
  by (simp add: same_ledger_def write_file_def)

lemma same_ledger_add_message: "same_ledger w (add_message l x w)"
  by (simp add: same_ledger_def add_message_def)

lemma same_ledger_update_or_create:
  assumes "MonthlyReport_update_or_create u m t path (store w) = Inr (r, s')"
  shows "same_ledger w (w\<lparr>store := s'\<rparr>)"
  using MonthlyReport_update_or_create_tables [OF assms] by (simp add: same_ledger_def)

lemma same_ledger_monthly_totals:
  "same_ledger w (w\<lparr>store := snd (monthly_totals u m (store w))\<rparr>)"
  by (simp add: same_ledger_def monthly_totals_tables)

lemma pdf_attempt_ledger:
  "pdf_attempt ev u m t path now w = Inl (e, w') \<Longrightarrow> same_ledger w w'"
  "pdf_attempt ev u m t path now w = Inr (resp, w') \<Longrightarrow> same_ledger w w'"
proof -
  have *: "same_ledger w (write_file path b w)" for b by (rule same_ledger_write_file)
  have **: "MonthlyReport_update_or_create (user_pk u) m t path (store (write_file path b w)) = Inr (r, s2)
      \<Longrightarrow> same_ledger w ((write_file path b w)\<lparr>store := s2\<rparr>)" for b r s2
    using same_ledger_trans [OF * same_ledger_update_or_create] by blast
  show "pdf_attempt ev u m t path now w = Inl (e, w') \<Longrightarrow> same_ledger w w'"
    unfolding pdf_attempt_def Let_def
    by (auto split: sum.splits prod.splits intro: same_ledger_refl * **)
  show "pdf_attempt ev u m t path now w = Inr (resp, w') \<Longrightarrow> same_ledger w w'"
    unfolding pdf_attempt_def Let_def
    by (auto split: sum.splits prod.splits intro: same_ledger_refl * **)
qed

lemma download_report_not_POST:
  assumes "req_method request \<noteq> ''POST''"
  shows "download_report ev request now w =
     (Inr (Redirect ''dashboard''),
      w\<lparr>messages := messages w @ [(ERROR, ''Report download must be requested via the interface.'')]\<rparr>)"
  using assms by (simp add: download_report_def add_message_def)

lemma download_report_unavailable:
  assumes "req_method request = ''POST''" and "\<not> reportlab_importable ev"
  shows "download_report ev request now w =
     (let m = strftime_Ym now; u = req_user request;
          t = fst (monthly_totals u m (store w));
          w1 = w\<lparr>store := snd (monthly_totals u m (store w))\<rparr>;
          w2 = write_file (report_txt_path u m)
                 (text_summary (DEFAULT_CURRENCY_SYMBOL ev) u m t now) w1
      in case MonthlyReport_update_or_create (user_pk u) m t (report_txt_path u m) (store w2) of
           Inl e \<Rightarrow> (Inl e, w2)
         | Inr (r, s2) \<Rightarrow>
             (open_response (report_txt_path u m)
                (add_message WARNING reportlab_missing_warning (w2\<lparr>store := s2\<rparr>)),
              add_message WARNING reportlab_missing_warning (w2\<lparr>store := s2\<rparr>)))"
  using assms by (simp add: download_report_def Let_def split_beta split: sum.splits)

lemma download_report_available:
  assumes "req_method request = ''POST''" and "reportlab_importable ev"
  shows "download_report ev request now w =
     (let m = strftime_Ym now; u = req_user request;
          t = fst (monthly_totals u m (store w));
          w1 = w\<lparr>store := snd (monthly_totals u m (store w))\<rparr>
      in case pdf_attempt ev u m t (report_pdf_path u m) now w1 of
           Inr (resp, w2) \<Rightarrow> (Inr resp, w2)
         | Inl (e, w2) \<Rightarrow>
             (let w4 = add_message ERROR
                         (''PDF generation failed, fallback text report saved. Error: '' @ str_exn ev e)
                         (write_file (report_txt_path u m)
                            (text_summary (DEFAULT_CURRENCY_SYMBOL ev) u m t now @ newline @
                             ''--- DEBUG TRACEBACK ---'' @ newline @ format_exc ev e) w2)
              in (open_response (report_txt_path u m) w4, w4)))"
  using assms by (simp add: download_report_def Let_def split_beta split: sum.splits)

lemma download_report_ledger: "same_ledger w (snd (download_report ev request now w))"
proof (cases "req_method request = ''POST''")
  case False
  then show ?thesis by (simp add: download_report_not_POST same_ledger_def)
next
  case True
  let ?m = "strftime_Ym now" and ?u = "req_user request"
  let ?t = "fst (monthly_totals ?u ?m (store w))"
  let ?w1 = "w\<lparr>store := snd (monthly_totals ?u ?m (store w))\<rparr>"
  have 1: "same_ledger w ?w1" by (rule same_ledger_monthly_totals)
  show ?thesis
  proof (cases "reportlab_importable ev")
    case False
    let ?w2 = "write_file (report_txt_path ?u ?m) (text_summary (DEFAULT_CURRENCY_SYMBOL ev) ?u ?m ?t now) ?w1"
    have 2: "same_ledger w ?w2" using 1 same_ledger_write_file by (rule same_ledger_trans)
    show ?thesis
    proof (cases "MonthlyReport_update_or_create (user_pk ?u) ?m ?t (report_txt_path ?u ?m) (store ?w2)")
      case (Inl e)
      then show ?thesis using 2 by (simp add: download_report_unavailable [OF True False] Let_def)
    next
      case (Inr p)
      obtain r s2 where p: "p = (r, s2)" by (cases p)
      from Inr have "same_ledger ?w2 (?w2\<lparr>store := s2\<rparr>)"
        unfolding p by (rule same_ledger_update_or_create)
      with 2 have "same_ledger w (?w2\<lparr>store := s2\<rparr>)" by (rule same_ledger_trans)
      then have "same_ledger w (add_message WARNING reportlab_missing_warning (?w2\<lparr>store := s2\<rparr>))"
        using same_ledger_add_message by (rule same_ledger_trans)
      then show ?thesis using Inr
        by (simp add: download_report_unavailable [OF True False] Let_def p)
    qed
  next
    case rl: True
    show ?thesis
    proof (cases "pdf_attempt ev ?u ?m ?t (report_pdf_path ?u ?m) now ?w1")
      case (Inr p)
      obtain resp w2 where p: "p = (resp, w2)" by (cases p)
      from Inr have "same_ledger ?w1 w2" unfolding p by (rule pdf_attempt_ledger)
      with 1 have "same_ledger w w2" by (rule same_ledger_trans)
      then show ?thesis using Inr
        by (simp add: download_report_available [OF True rl] Let_def p)
    next
      case (Inl p)
      obtain e w2 where p: "p = (e, w2)" by (cases p)
      from Inl have "same_ledger ?w1 w2" unfolding p by (rule pdf_attempt_ledger)
      with 1 have "same_ledger w w2" by (rule same_ledger_trans)
      then have "same_ledger w (write_file (report_txt_path ?u ?m)
                            (text_summary (DEFAULT_CURRENCY_SYMBOL ev) ?u ?m ?t now @ newline @
                             ''--- DEBUG TRACEBACK ---'' @ newline @ format_exc ev e) w2)"
        using same_ledger_write_file by (rule same_ledger_trans)
      then have "same_ledger w (add_message ERROR
                         (''PDF generation failed, fallback text report saved. Error: '' @ str_exn ev e)
                         (write_file (report_txt_path ?u ?m)
                            (text_summary (DEFAULT_CURRENCY_SYMBOL ev) ?u ?m ?t now @ newline @
                             ''--- DEBUG TRACEBACK ---'' @ newline @ format_exc ev e) w2))"
        using same_ledger_add_message by (rule same_ledger_trans)
      then show ?thesis using Inl
        by (simp add: download_report_available [OF True rl] Let_def p)
    qed
  qed
qed

lemma reset_month_POST:
  assumes "req_method request = ''POST''"
  shows "reset_month request now w =
     (Redirect ''dashboard'',
      w\<lparr>store := (store w)
           \<lparr>expenses := filter (\<lambda>e. \<not> (exp_user e = user_pk (req_user request) \<and>
                                        exp_month_year e = strftime_Ym now)) (expenses (store w)),
            investments := filter (\<lambda>i. \<not> (inv_user i = user_pk (req_user request) \<and>
                                        inv_month_year i = strftime_Ym now)) (investments (store w))\<rparr>,
         messages := messages w @
           [(SUCCESS, ''Reset complete: deleted '' @
               str_nat (length (filter (\<lambda>e. exp_user e = user_pk (req_user request) \<and>
                                        exp_month_year e = strftime_Ym now) (expenses (store w)))) @
               '' expenses and '' @
               str_nat (length (filter (\<lambda>i. inv_user i = user_pk (req_user request) \<and>
                                        inv_month_year i = strftime_Ym now) (investments (store w)))) @
               '' investments for '' @ strftime_Ym now @ ''.'')]\<rparr>)"
  using assms by (simp add: reset_month_def Let_def add_message_def)

text \<open>
  Claim C7. A POST to the reset view deletes exactly the owner's expenses and investments
  whose bucket is the bucket of the clock at the call, leaves every other row, table and
  file alone, and reports the two counts of deleted rows in its message; the submitted
  form data plays no part. Any other method renders the confirmation page and changes
  nothing. Generating a report, whatever its path and outcome, leaves the expense, the
  investment and the budget tables as they were, and without a POST it changes neither
  the tables nor the files.
\<close>

theorem reset_month_only_on_post:
  "(req_method request = ''POST'' \<longrightarrow>
      (let u = user_pk (req_user request); m = strftime_Ym now;
           w' = snd (reset_month request now w);
           deleted_exp = filter (\<lambda>e. exp_user e = u \<and> exp_month_year e = m) (expenses (store w));
           deleted_inv = filter (\<lambda>i. inv_user i = u \<and> inv_month_year i = m) (investments (store w))
       in fst (reset_month request now w) = Redirect ''dashboard'' \<and>
          expenses (store w') = filter (\<lambda>e. \<not> (exp_user e = u \<and> exp_month_year e = m)) (expenses (store w)) \<and>
          investments (store w') = filter (\<lambda>i. \<not> (inv_user i = u \<and> inv_month_year i = m)) (investments (store w)) \<and>
          length (expenses (store w')) + length deleted_exp = length (expenses (store w)) \<and>
          length (investments (store w')) + length deleted_inv = length (investments (store w)) \<and>
          budgets (store w') = budgets (store w) \<and> reports (store w') = reports (store w) \<and>
          profiles (store w') = profiles (store w) \<and> files w' = files w \<and>
          messages w' = messages w @
            [(SUCCESS, ''Reset complete: deleted '' @ str_nat (length deleted_exp) @ '' expenses and '' @
                       str_nat (length deleted_inv) @ '' investments for '' @ m @ ''.'')])) \<and>
   (req_method request \<noteq> ''POST'' \<longrightarrow>
      reset_month request now w = (Render ''budget/reset_month.html'', w)) \<and>
   reset_month (request\<lparr>req_POST := p\<rparr>) now w = reset_month request now w \<and>
   expenses (store (snd (download_report ev request now w))) = expenses (store w) \<and>
   investments (store (snd (download_report ev request now w))) = investments (store w) \<and>
   budgets (store (snd (download_report ev request now w))) = budgets (store w) \<and>
   (req_method request \<noteq> ''POST'' \<longrightarrow>
      fst (download_report ev request now w) = Inr (Redirect ''dashboard'') \<and>
      store (snd (download_report ev request now w)) = store w \<and>
      files (snd (download_report ev request now w)) = files w)"
proof -
  have post: "req_method request = ''POST'' \<longrightarrow>
      (let u = user_pk (req_user request); m = strftime_Ym now;
           w' = snd (reset_month request now w);
           deleted_exp = filter (\<lambda>e. exp_user e = u \<and> exp_month_year e = m) (expenses (store w));
           deleted_inv = filter (\<lambda>i. inv_user i = u \<and> inv_month_year i = m) (investments (store w))
       in fst (reset_month request now w) = Redirect ''dashboard'' \<and>
          expenses (store w') = filter (\<lambda>e. \<not> (exp_user e = u \<and> exp_month_year e = m)) (expenses (store w)) \<and>
          investments (store w') = filter (\<lambda>i. \<not> (inv_user i = u \<and> inv_month_year i = m)) (investments (store w)) \<and>
          length (expenses (store w')) + length deleted_exp = length (expenses (store w)) \<and>
          length (investments (store w')) + length deleted_inv = length (investments (store w)) \<and>
          budgets (store w') = budgets (store w) \<and> reports (store w') = reports (store w) \<and>
          profiles (store w') = profiles (store w) \<and> files w' = files w \<and>
          messages w' = messages w @
            [(SUCCESS, ''Reset complete: deleted '' @ str_nat (length deleted_exp) @ '' expenses and '' @
                       str_nat (length deleted_inv) @ '' investments for '' @ m @ ''.'')])"
  proof
    assume p: "req_method request = ''POST''"
    have len: "length (filter (\<lambda>x. A x \<longrightarrow> \<not> B x) xs) + length (filter (\<lambda>x. A x \<and> B x) xs) = length xs"
      for A B and xs :: "'a list"
      using sum_length_filter_compl [of "\<lambda>x. A x \<and> B x" xs] by simp
    show "(let u = user_pk (req_user request); m = strftime_Ym now;
           w' = snd (reset_month request now w);
           deleted_exp = filter (\<lambda>e. exp_user e = u \<and> exp_month_year e = m) (expenses (store w));
           deleted_inv = filter (\<lambda>i. inv_user i = u \<and> inv_month_year i = m) (investments (store w))
       in fst (reset_month request now w) = Redirect ''dashboard'' \<and>
          expenses (store w') = filter (\<lambda>e. \<not> (exp_user e = u \<and> exp_month_year e = m)) (expenses (store w)) \<and>
          investments (store w') = filter (\<lambda>i. \<not> (inv_user i = u \<and> inv_month_year i = m)) (investments (store w)) \<and>
          length (expenses (store w')) + length deleted_exp = length (expenses (store w)) \<and>
          length (investments (store w')) + length deleted_inv = length (investments (store w)) \<and>
          budgets (store w') = budgets (store w) \<and> reports (store w') = reports (store w) \<and>
          profiles (store w') = profiles (store w) \<and> files w' = files w \<and>
          messages w' = messages w @
            [(SUCCESS, ''Reset complete: deleted '' @ str_nat (length deleted_exp) @ '' expenses and '' @
                       str_nat (length deleted_inv) @ '' investments for '' @ m @ ''.'')])"
      unfolding Let_def reset_month_POST [OF p] by (simp add: len del: str_nat.simps)
  qed
  have other: "req_method request \<noteq> ''POST'' \<longrightarrow>
      reset_month request now w = (Render ''budget/reset_month.html'', w)"
    by (simp add: reset_month_def)
  have indep: "reset_month (request\<lparr>req_POST := p\<rparr>) now w = reset_month request now w"
    by (simp add: reset_month_def)
  have rep: "expenses (store (snd (download_report ev request now w))) = expenses (store w)"
    "investments (store (snd (download_report ev request now w))) = investments (store w)"
    "budgets (store (snd (download_report ev request now w))) = budgets (store w)"
    using download_report_ledger [of w ev request now] by (simp_all add: same_ledger_def)
  have rep_get: "req_method request \<noteq> ''POST'' \<longrightarrow>
      fst (download_report ev request now w) = Inr (Redirect ''dashboard'') \<and>
      store (snd (download_report ev request now w)) = store w \<and>
      files (snd (download_report ev request now w)) = files w"
    by (simp add: download_report_not_POST)
  from post other indep rep rep_get show ?thesis by (intro conjI)
qed

lemma reset_june:
  "reset_month post_request d_2024_06_15 june_world =
     (Redirect ''dashboard'',
      june_world\<lparr>store := june_db\<lparr>expenses := drop 2 (expenses june_db), investments := []\<rparr>,
                 messages := [(SUCCESS, ''Reset complete: deleted 2 expenses and 1 investments for 2024-06.'')]\<rparr>)"
  by (simp add: reset_month_def post_request_def june_world_def june_db_def demo_user_def
      d_2024_06_15_def strftime_Ym_def pad4_def pad2_def digit_char_def add_message_def Let_def)

theorem reset_month_only_on_post_witness:
  "req_method post_request = ''POST'' \<and> req_method get_request \<noteq> ''POST'' \<and>
   map exp_pk (expenses (store (snd (reset_month post_request d_2024_06_15 june_world)))) = [Some 3, Some 4] \<and>
   investments (store (snd (reset_month post_request d_2024_06_15 june_world))) = [] \<and>
   budgets (store (snd (reset_month post_request d_2024_06_15 june_world))) = budgets june_db \<and>
   messages (snd (reset_month post_request d_2024_06_15 june_world)) =
     [(SUCCESS, ''Reset complete: deleted 2 expenses and 1 investments for 2024-06.'')] \<and>
   reset_month get_request d_2024_06_15 june_world = (Render ''budget/reset_month.html'', june_world) \<and>
   length (expenses (store (snd (download_report text_env post_request d_2024_06_15 june_world)))) = 4 \<and>
   length (investments (store (snd (download_report text_env post_request d_2024_06_15 june_world)))) = 1 \<and>
   store (snd (download_report text_env get_request d_2024_06_15 june_world)) = june_db"
proof -
  have m: "req_method post_request = ''POST''" "req_method get_request \<noteq> ''POST''"
    by (simp_all add: post_request_def get_request_def)
  have g: "reset_month get_request d_2024_06_15 june_world = (Render ''budget/reset_month.html'', june_world)"
    using reset_month_only_on_post [of get_request d_2024_06_15 june_world] m by blast
  have r: "expenses (store (snd (download_report text_env post_request d_2024_06_15 june_world))) = expenses (store june_world)"
    "investments (store (snd (download_report text_env post_request d_2024_06_15 june_world))) = investments (store june_world)"
    using reset_month_only_on_post [of post_request d_2024_06_15 june_world _ text_env] by blast+
  have rg: "store (snd (download_report text_env get_request d_2024_06_15 june_world)) = store june_world"
    using reset_month_only_on_post [of get_request d_2024_06_15 june_world _ text_env] m by blast
  show ?thesis
    unfolding r rg g reset_june using m by (simp add: june_world_def june_db_def)
qed

subsection \<open>The monthly report at an example\<close>

lemma strftime_june: "strftime_Ym d_2024_06_15 = ''2024-06''"
  "strftime_YmdHMS d_2024_06_15 = ''2024-06-15 10:00:00''"
  by (simp_all add: strftime_YmdHMS_def strftime_Ymd_def strftime_Ym_def d_2024_06_15_def
      pad4_def pad2_def digit_char_def)

lemma june_monthly_totals:
  "monthly_totals demo_user ''2024-06'' june_db = (june_totals, june_db)"
  by (simp add: monthly_totals_def UserProfile_get_or_create_def expense_total_sum
      investment_total_sum june_db_def demo_user_def june_totals_def Let_def)

lemma format_money_june:
  "format_money 5200 = ''5,200.00''" "format_money 1800 = ''1,800.00''"
  "format_money 300 = ''300.00''" "format_money 3100 = ''3,100.00''"
  by (simp_all add: format_money_def pad3_def pad2_def digit_char_def Let_def)

lemma june_text_summary:
  "text_summary rupee_sign demo_user ''2024-06'' june_totals d_2024_06_15 = june_summary"
  by (simp add: text_summary_def june_summary_def june_totals_def format_money_june strftime_june
      demo_user_def)

lemma replace_no_match:
  "replace ''.pdf'' ''.txt'' ''media/reports/monthly_report_demo_2024-06'' =
     ''media/reports/monthly_report_demo_2024-06''"
  by simp

lemma june_paths:
  "report_pdf_path demo_user ''2024-06'' = ''media/reports/monthly_report_demo_2024-06.pdf''"
  "report_txt_path demo_user ''2024-06'' = ''media/reports/monthly_report_demo_2024-06.txt''"
  "basename ''media/reports/monthly_report_demo_2024-06.txt'' = ''monthly_report_demo_2024-06.txt''"
  "basename ''media/reports/monthly_report_demo_2024-06.pdf'' = ''monthly_report_demo_2024-06.pdf''"
  by (simp_all add: report_txt_path_def report_pdf_path_def demo_user_def basename_def)

lemma june_world_state: "june_world = june_state [] Map.empty []"
  by (simp add: june_world_def june_state_def june_db_def)

lemma june_state_sel:
  "store (june_state rs f ms) = june_db\<lparr>reports := rs\<rparr>"
  "files (june_state rs f ms) = f" "messages (june_state rs f ms) = ms"
  "(june_state rs f ms)\<lparr>store := june_db\<lparr>reports := rs'\<rparr>\<rparr> = june_state rs' f ms"
  "write_file p c (june_state rs f ms) = june_state rs (f(p \<mapsto> c)) ms"
  "add_message l x (june_state rs f ms) = june_state rs f (ms @ [(l, x)])"
  by (simp_all add: june_state_def write_file_def add_message_def)

lemma june_monthly_totals_any:
  "monthly_totals demo_user ''2024-06'' (june_db\<lparr>reports := rs\<rparr>) = (june_totals, june_db\<lparr>reports := rs\<rparr>)"
  by (simp add: monthly_totals_def UserProfile_get_or_create_def expense_total_sum
      investment_total_sum june_db_def demo_user_def june_totals_def Let_def)

lemma june_trend_any:
  "spending_trend (june_db\<lparr>reports := rs\<rparr>) (user_pk demo_user) d_2024_06_15 6 =
     Inr (rev (map (trend_entry (june_db\<lparr>reports := rs\<rparr>) (user_pk demo_user) d_2024_06_15) [0..<6]))"
  using valid_2024_06_15 by (rule spending_trend_entries)

lemma june_first_report:
  "MonthlyReport_update_or_create (user_pk demo_user) ''2024-06'' june_totals path
       (june_db\<lparr>reports := []\<rparr>) =
     Inr ((june_report_row path, True), june_db\<lparr>reports := [june_report_row path]\<rparr>)"
  by (simp add: MonthlyReport_update_or_create_def save_row_def next_pk_def
      june_totals_def june_report_row_def demo_user_def Let_def)

lemma june_second_report:
  "MonthlyReport_update_or_create (user_pk demo_user) ''2024-06'' june_totals path
       (june_db\<lparr>reports := [june_report_row path0]\<rparr>) =
     Inr ((june_report_row path, False), june_db\<lparr>reports := [june_report_row path]\<rparr>)"
  by (simp add: MonthlyReport_update_or_create_def save_row_def next_pk_def
      june_totals_def june_report_row_def demo_user_def Let_def)

lemma june_request: "req_method post_request = ''POST''" "req_user post_request = demo_user"
  by (simp_all add: post_request_def)

lemma june_paths_named:
  "report_pdf_path demo_user ''2024-06'' = june_pdf" "report_txt_path demo_user ''2024-06'' = june_txt"
  "basename june_txt = ''monthly_report_demo_2024-06.txt''"
  "basename june_pdf = ''monthly_report_demo_2024-06.pdf''"
  by (simp_all add: june_paths june_txt_def june_pdf_def)

lemma download_june_unavailable:
  assumes "rs = [] \<or> rs = [june_report_row path0]"
  shows "download_report text_env post_request d_2024_06_15 (june_state rs f ms) =
     (Inr (FileResponse ''monthly_report_demo_2024-06.txt'' june_summary),
      june_state [june_report_row june_txt] (f(june_txt \<mapsto> june_summary))
        (ms @ [(WARNING, reportlab_missing_warning)]))"
proof -
  have p: "req_method post_request = ''POST''" "\<not> reportlab_importable text_env"
    by (simp_all add: post_request_def text_env_def)
  have c: "DEFAULT_CURRENCY_SYMBOL text_env = rupee_sign" by (simp add: text_env_def)
  have u: "MonthlyReport_update_or_create (user_pk demo_user) ''2024-06'' june_totals june_txt
       (june_db\<lparr>reports := rs\<rparr>) =
     Inr ((june_report_row june_txt, rs = []), june_db\<lparr>reports := [june_report_row june_txt]\<rparr>)"
    using assms june_first_report june_second_report by auto
  show ?thesis
    unfolding download_report_unavailable [OF p] Let_def june_request strftime_june c
    by (simp add: june_state_sel june_monthly_totals_any june_text_summary june_paths_named u
        open_response_def)
qed

lemma download_june_failing:
  "download_report failing_env post_request d_2024_06_15 (june_state rs f ms) =
     (Inr (FileResponse ''monthly_report_demo_2024-06.txt'' june_debug_text),
      june_state rs (f(june_txt \<mapsto> june_debug_text))
        (ms @ [(ERROR, ''PDF generation failed, fallback text report saved. Error: cannot build'')]))"
proof -
  have p: "req_method post_request = ''POST''" "reportlab_importable failing_env"
    by (simp_all add: post_request_def failing_env_def)
  have c: "DEFAULT_CURRENCY_SYMBOL failing_env = rupee_sign"
    "doc_build failing_env = Inl (RenderError ''cannot build'')"
    "str_exn failing_env = (\<lambda>e. ''cannot build'')"
    "format_exc failing_env = (\<lambda>e. ''Traceback (most recent call last): cannot build'')"
    by (simp_all add: failing_env_def)
  have a: "pdf_attempt failing_env demo_user ''2024-06'' june_totals june_pdf d_2024_06_15
        (june_state rs f ms) = Inl (RenderError ''cannot build'', june_state rs f ms)"
    by (simp add: pdf_attempt_def june_state_sel june_trend_any c)
  show ?thesis
    unfolding download_report_available [OF p] Let_def june_request strftime_june c
    by (simp add: june_state_sel june_monthly_totals_any june_text_summary june_paths_named a
        june_debug_text_def open_response_def)
qed

lemma download_june_pdf:
  assumes "rs = [] \<or> rs = [june_report_row path0]"
  shows "download_report pdf_env post_request d_2024_06_15 (june_state rs f ms) =
     (Inr (FileResponse ''monthly_report_demo_2024-06.pdf'' ''%PDF-1.4''),
      june_state [june_report_row june_pdf] (f(june_pdf \<mapsto> ''%PDF-1.4'')) ms)"
proof -
  have p: "req_method post_request = ''POST''" "reportlab_importable pdf_env"
    by (simp_all add: post_request_def pdf_env_def)
  have c: "doc_build pdf_env = Inr ''%PDF-1.4''" by (simp add: pdf_env_def)
  have u: "MonthlyReport_update_or_create (user_pk demo_user) ''2024-06'' june_totals june_pdf
       (june_db\<lparr>reports := rs\<rparr>) =
     Inr ((june_report_row june_pdf, rs = []), june_db\<lparr>reports := [june_report_row june_pdf]\<rparr>)"
    using assms june_first_report june_second_report by auto
  have a: "pdf_attempt pdf_env demo_user ''2024-06'' june_totals june_pdf d_2024_06_15
        (june_state rs f ms) =
      Inr (FileResponse ''monthly_report_demo_2024-06.pdf'' ''%PDF-1.4'',
           june_state [june_report_row june_pdf] (f(june_pdf \<mapsto> ''%PDF-1.4'')) ms)"
    by (simp add: pdf_attempt_def june_state_sel june_trend_any c u open_response_def
        june_paths_named Let_def)
  show ?thesis
    unfolding download_report_available [OF p] Let_def june_request strftime_june
    by (simp add: june_state_sel june_monthly_totals_any a june_paths_named)
qed

text \<open>
  Claim C5 at a failing input. ReportLab can be imported and building the document
  raises; the owner has no report row for 2024-06. The view writes the summary followed by
  the traceback to the text file, returns that file and adds an error message, but the
  report table stays empty: no row points at the text file. When a row already points at
  the PDF of an earlier run, it still does afterwards. The branch for a missing ReportLab
  does store the row, with the path of the text file, next to the same eight summary lines
  (amounts with two decimals after the rupee sign).
\<close>

theorem text_fallback_after_exception_stores_no_row:
  "reportlab_importable failing_env \<and> doc_build failing_env = Inl (RenderError ''cannot build'') \<and>
   reports (store june_world) = [] \<and>
   download_report failing_env post_request d_2024_06_15 june_world =
     (Inr (FileResponse ''monthly_report_demo_2024-06.txt'' june_debug_text),
      june_world\<lparr>files := [june_txt \<mapsto> june_debug_text],
                 messages := [(ERROR, ''PDF generation failed, fallback text report saved. Error: cannot build'')]\<rparr>) \<and>
   reports (store (snd (download_report failing_env post_request d_2024_06_15 june_world))) = [] \<and>
   map rep_pdf_file (reports (store (snd (download_report failing_env post_request d_2024_06_15
       (snd (download_report pdf_env post_request d_2024_06_15 june_world)))))) = [june_pdf] \<and>
   \<not> reportlab_importable text_env \<and>
   download_report text_env post_request d_2024_06_15 june_world =
     (Inr (FileResponse ''monthly_report_demo_2024-06.txt'' june_summary),
      june_world\<lparr>store := june_db\<lparr>reports := [june_report_row june_txt]\<rparr>,
                 files := [june_txt \<mapsto> june_summary],
                 messages := [(WARNING, reportlab_missing_warning)]\<rparr>) \<and>
   rep_pdf_file (june_report_row june_txt) = ''media/reports/monthly_report_demo_2024-06.txt''"
proof -
  have e: "reportlab_importable failing_env" "doc_build failing_env = Inl (RenderError ''cannot build'')"
    "\<not> reportlab_importable text_env"
    by (simp_all add: failing_env_def text_env_def)
  have w: "june_state rs f ms = june_world\<lparr>store := june_db\<lparr>reports := rs\<rparr>, files := f, messages := ms\<rparr>"
    for rs f ms
    by (simp add: june_state_def june_world_def)
  have w0: "june_world\<lparr>store := june_db\<lparr>reports := []\<rparr>, files := f, messages := ms\<rparr> =
      june_world\<lparr>files := f, messages := ms\<rparr>" for f ms
    by (simp add: june_world_def june_db_def)
  have 1: "download_report failing_env post_request d_2024_06_15 june_world =
     (Inr (FileResponse ''monthly_report_demo_2024-06.txt'' june_debug_text),
      june_world\<lparr>files := [june_txt \<mapsto> june_debug_text],
                 messages := [(ERROR, ''PDF generation failed, fallback text report saved. Error: cannot build'')]\<rparr>)"
    unfolding june_world_state download_june_failing by (simp add: w w0 june_world_state [symmetric])
  have 2: "download_report text_env post_request d_2024_06_15 june_world =
     (Inr (FileResponse ''monthly_report_demo_2024-06.txt'' june_summary),
      june_world\<lparr>store := june_db\<lparr>reports := [june_report_row june_txt]\<rparr>,
                 files := [june_txt \<mapsto> june_summary],
                 messages := [(WARNING, reportlab_missing_warning)]\<rparr>)"
    unfolding june_world_state
    by (subst download_june_unavailable) (simp_all add: w june_world_state [symmetric])
  have 3: "map rep_pdf_file (reports (store (snd (download_report failing_env post_request d_2024_06_15
       (snd (download_report pdf_env post_request d_2024_06_15 june_world)))))) = [june_pdf]"
    unfolding june_world_state
    by (subst download_june_pdf, simp, simp add: download_june_failing june_state_sel june_report_row_def)
  have 4: "reports (store june_world) = []" by (simp add: june_world_def june_db_def)
  have 5: "reports (store (snd (download_report failing_env post_request d_2024_06_15 june_world))) = []"
    unfolding 1 by (simp add: 4)
  have 6: "rep_pdf_file (june_report_row june_txt) = ''media/reports/monthly_report_demo_2024-06.txt''"
    by (simp add: june_report_row_def june_txt_def)
  from e 1 2 3 4 5 6 show ?thesis by (intro conjI)
qed

text \<open>
  Claim C6 at a failing input. Two generations in a row that both end in the handler of
  the PDF branch leave no report row for the owner and the bucket, where the claim
  promises exactly one; the text file is written to the same path both times. Two
  generations through the missing-ReportLab branch, or two through a successful PDF
  build, do leave exactly one row. The text path is derived by replacing every
  \<^verbatim>\<open>.pdf\<close> in the PDF path: for the user name \<^verbatim>\<open>a.pdf\<close> it is not
  \<^verbatim>\<open>monthly_report_a.pdf_2024-06.txt\<close> but the text path of the user
  \<^verbatim>\<open>a.txt\<close>.
\<close>

theorem regenerated_report_after_exception_has_no_row:
  "reports (store june_world) = [] \<and>
   reports (store (snd (download_report failing_env post_request d_2024_06_15
       (snd (download_report failing_env post_request d_2024_06_15 june_world))))) = [] \<and>
   files (snd (download_report failing_env post_request d_2024_06_15
       (snd (download_report failing_env post_request d_2024_06_15 june_world)))) =
     [june_txt \<mapsto> june_debug_text] \<and>
   reports (store (snd (download_report text_env post_request d_2024_06_15
       (snd (download_report text_env post_request d_2024_06_15 june_world))))) =
     [june_report_row june_txt] \<and>
   files (snd (download_report text_env post_request d_2024_06_15
       (snd (download_report text_env post_request d_2024_06_15 june_world)))) =
     [june_txt \<mapsto> june_summary] \<and>
   reports (store (snd (download_report pdf_env post_request d_2024_06_15
       (snd (download_report pdf_env post_request d_2024_06_15 june_world))))) =
     [june_report_row june_pdf] \<and>
   files (snd (download_report pdf_env post_request d_2024_06_15
       (snd (download_report pdf_env post_request d_2024_06_15 june_world)))) =
     [june_pdf \<mapsto> ''%PDF-1.4''] \<and>
   report_txt_path dotpdf_user ''2024-06'' = ''media/reports/monthly_report_a.txt_2024-06.txt'' \<and>
   report_txt_path dotpdf_user ''2024-06'' = report_txt_path dottxt_user ''2024-06'' \<and>
   username dotpdf_user \<noteq> username dottxt_user"
proof -
  have 0: "reports (store june_world) = []" by (simp add: june_world_def june_db_def)
  have 1: "snd (download_report failing_env post_request d_2024_06_15
       (snd (download_report failing_env post_request d_2024_06_15 june_world))) =
     june_state [] [june_txt \<mapsto> june_debug_text]
       [(ERROR, ''PDF generation failed, fallback text report saved. Error: cannot build''),
        (ERROR, ''PDF generation failed, fallback text report saved. Error: cannot build'')]"
    unfolding june_world_state by (simp add: download_june_failing)
  have 2: "snd (download_report text_env post_request d_2024_06_15
       (snd (download_report text_env post_request d_2024_06_15 june_world))) =
     june_state [june_report_row june_txt] [june_txt \<mapsto> june_summary]
       [(WARNING, reportlab_missing_warning), (WARNING, reportlab_missing_warning)]"
    unfolding june_world_state
    by (subst download_june_unavailable, simp, simp, subst download_june_unavailable, simp, simp)
  have 3: "snd (download_report pdf_env post_request d_2024_06_15
       (snd (download_report pdf_env post_request d_2024_06_15 june_world))) =
     june_state [june_report_row june_pdf] [june_pdf \<mapsto> ''%PDF-1.4''] []"
    unfolding june_world_state
    by (subst download_june_pdf, simp, simp, subst download_june_pdf, simp, simp)
  have 4: "report_txt_path dotpdf_user ''2024-06'' = ''media/reports/monthly_report_a.txt_2024-06.txt''"
    "report_txt_path dottxt_user ''2024-06'' = ''media/reports/monthly_report_a.txt_2024-06.txt''"
    "username dotpdf_user \<noteq> username dottxt_user"
    by (simp_all add: report_txt_path_def report_pdf_path_def dotpdf_user_def dottxt_user_def)
  show ?thesis unfolding 1 2 3 4(1,2) using 0 4(3) by (simp add: june_state_sel)
qed

subsection \<open>Setting the budgets of the month\<close>


lemma submitted_Positive:
  "submitted Decimal request category = Positive d \<longleftrightarrow>
     (\<exists>a. req_POST request (''budget_'' @ category) = Some a \<and> a \<noteq> [] \<and> Decimal a = Some d \<and> 0 < d)"
  by (auto simp: submitted_def split: option.splits if_splits)

lemma distinct_same_key_length:
  assumes "distinct (map f xs)" and "\<forall>x \<in> set xs. f x = k"
  shows "length xs \<le> 1"
proof (cases xs)
  case Nil
  then show ?thesis by simp
next
  case (Cons x ys)
  show ?thesis
  proof (cases ys)
    case Nil
    with Cons show ?thesis by simp
  next
    case (Cons y zs)
    with \<open>xs = x # ys\<close> assms have "f x \<noteq> f y" "f x = k" "f y = k" by auto
    then show ?thesis by simp
  qed
qed

lemma budget_rows_at_most_one:
  assumes "unique_budgets s"
  shows "budget_rows s u c m = [] \<or> (\<exists>b. budget_rows s u c m = [b])"
proof -
  let ?key = "\<lambda>b. (bud_user b, bud_category b, bud_month_year b)"
  from assms have "distinct (map ?key (budget_rows s u c m))"
    unfolding unique_budgets_def budget_rows_def by (rule distinct_map_filter)
  moreover have "\<forall>b \<in> set (budget_rows s u c m). ?key b = (u, c, m)"
    by (simp add: budget_rows_def)
  ultimately have "length (budget_rows s u c m) \<le> 1" by (rule distinct_same_key_length)
  then show ?thesis by (cases "budget_rows s u c m") (auto simp: le_Suc_eq)
qed

lemma budget_rows_member:
  "b \<in> set (budget_rows s u c m) \<longleftrightarrow>
     b \<in> set (budgets s) \<and> bud_user b = u \<and> bud_category b = c \<and> bud_month_year b = m"
  by (auto simp: budget_rows_def)

lemma Budget_get_or_create_new:
  assumes "budget_rows s u c m = []"
  shows "Budget_get_or_create u c m d s =
     Inr ((created_budget s u c m d, True), s\<lparr>budgets := budgets s @ [created_budget s u c m d]\<rparr>)"
  using assms
  by (simp add: Budget_get_or_create_def budget_rows_def save_row_def created_budget_def Let_def)

lemma Budget_get_or_create_found:
  assumes "budget_rows s u c m = [b]"
  shows "Budget_get_or_create u c m d s = Inr ((b, False), s)"
  using assms by (simp add: Budget_get_or_create_def budget_rows_def)

lemma replace_by_pk:
  assumes "distinct (map pk rows)" and "b \<in> set rows"
  shows "map (\<lambda>r. if pk r = pk b then b' else r) rows = map (\<lambda>r. if r = b then b' else r) rows"
proof (rule map_cong [OF refl])
  fix r assume "r \<in> set rows"
  with assms have "pk r = pk b \<longleftrightarrow> r = b"
    by (auto simp: distinct_map inj_on_def)
  then show "(if pk r = pk b then b' else r) = (if r = b then b' else r)" by simp
qed

lemma Budget_save_existing:
  assumes "budgets_wf s" and "b \<in> set (budgets s)"
  shows "snd (Budget_save (b\<lparr>bud_allocated_amount := d\<rparr>) s) =
     s\<lparr>budgets := map (\<lambda>r. if r = b then b\<lparr>bud_allocated_amount := d\<rparr> else r) (budgets s)\<rparr>"
proof -
  from assms have "bud_pk b \<noteq> None"
    unfolding budgets_wf_def by (metis image_eqI set_map)
  then obtain k where k: "bud_pk b = Some k" by blast
  from assms(2) k have ex: "list_ex (\<lambda>r. bud_pk r = Some k) (budgets s)"
    by (auto simp: list_ex_iff)
  from assms have d: "distinct (map bud_pk (budgets s))" by (simp add: budgets_wf_def)
  have "map (\<lambda>r. if bud_pk r = Some k then b\<lparr>bud_allocated_amount := d\<rparr> else r) (budgets s) =
      map (\<lambda>r. if r = b then b\<lparr>bud_allocated_amount := d\<rparr> else r) (budgets s)"
    using replace_by_pk [OF d assms(2), of "b\<lparr>bud_allocated_amount := d\<rparr>"] k by simp
  with k ex show ?thesis
    by (simp add: Budget_save_def save_row_def split_beta)
qed

text \<open>What the loop body does to the table, by the three readings of the field.\<close>

lemma budget_update_step_Skipped:
  assumes "submitted Decimal request c = Skipped"
  shows "budget_update_step Decimal request m c s = Inr s"
  using assms
  by (auto simp: budget_update_step_def submitted_def Let_def split: option.splits if_splits)

lemma budget_update_step_Rejected:
  assumes "submitted Decimal request c = Rejected"
  shows "budget_update_step Decimal request m c s = Inl InvalidOperation"
  using assms
  by (auto simp: budget_update_step_def submitted_def Let_def split: option.splits if_splits)

lemma budget_update_step_Positive_new:
  assumes "submitted Decimal request c = Positive d"
    and "budget_rows s (user_pk (req_user request)) c m = []"
  shows "budget_update_step Decimal request m c s =
     Inr (s\<lparr>budgets := budgets s @ [created_budget s (user_pk (req_user request)) c m d]\<rparr>)"
proof -
  from assms(1) obtain a where "req_POST request (''budget_'' @ c) = Some a" "a \<noteq> []"
    "Decimal a = Some d" "0 < d"
    unfolding submitted_Positive by blast
  then show ?thesis
    by (simp add: budget_update_step_def Let_def Budget_get_or_create_new [OF assms(2)])
qed

lemma budget_update_step_Positive_found:
  assumes "submitted Decimal request c = Positive d"
    and "budget_rows s (user_pk (req_user request)) c m = [b]"
    and "budgets_wf s"
  shows "budget_update_step Decimal request m c s =
     Inr (s\<lparr>budgets := map (\<lambda>r. if r = b then b\<lparr>bud_allocated_amount := d\<rparr> else r) (budgets s)\<rparr>)"
proof -
  from assms(1) obtain a where "req_POST request (''budget_'' @ c) = Some a" "a \<noteq> []"
    "Decimal a = Some d" "0 < d"
    unfolding submitted_Positive by blast
  moreover from assms(2) have "b \<in> set (budgets s)"
    using budget_rows_member [of b s "user_pk (req_user request)" c m] by simp
  ultimately show ?thesis
    by (simp add: budget_update_step_def Let_def Budget_get_or_create_found [OF assms(2)]
        Budget_save_existing [OF assms(3)])
qed

lemma budgets_grow_refl: "budgets_grow s s"
  by (auto simp: budgets_grow_def)

lemma budgets_grow_trans:
  assumes "budgets_grow s s1" and "budgets_grow s1 s2"
  shows "budgets_grow s s2"
  unfolding budgets_grow_def
proof (intro conjI ballI)
  fix b assume "b \<in> set (budgets s)"
  with assms(1) obtain b1 where b1: "b1 \<in> set (budgets s1)" "bud_pk b1 = bud_pk b"
    "bud_user b1 = bud_user b" "bud_category b1 = bud_category b"
    "bud_month_year b1 = bud_month_year b"
    "bud_allocated_amount b1 = bud_allocated_amount b \<or> 0 < bud_allocated_amount b1"
    unfolding budgets_grow_def by blast
  from b1(1) assms(2) obtain b2 where b2: "b2 \<in> set (budgets s2)" "bud_pk b2 = bud_pk b1"
    "bud_user b2 = bud_user b1" "bud_category b2 = bud_category b1"
    "bud_month_year b2 = bud_month_year b1"
    "bud_allocated_amount b2 = bud_allocated_amount b1 \<or> 0 < bud_allocated_amount b2"
    unfolding budgets_grow_def by blast
  from b1 b2 show "\<exists>b' \<in> set (budgets s2).
          bud_pk b' = bud_pk b \<and> bud_user b' = bud_user b \<and> bud_category b' = bud_category b \<and>
          bud_month_year b' = bud_month_year b \<and>
          (bud_allocated_amount b' = bud_allocated_amount b \<or> 0 < bud_allocated_amount b')"
    by (intro bexI [of _ b2]) auto
next
  fix b' assume "b' \<in> set (budgets s2)"
  with assms(2) have "b' \<in> set (budgets s1) \<or> 0 < bud_allocated_amount b'"
    unfolding budgets_grow_def by blast
  with assms(1) show "b' \<in> set (budgets s) \<or> 0 < bud_allocated_amount b'"
    unfolding budgets_grow_def by blast
qed (use assms in \<open>auto simp: budgets_grow_def\<close>)

lemma map_replace_same:
  assumes "f b' = f b"
  shows "map f (map (\<lambda>r. if r = b then b' else r) xs) = map f xs"
  using assms by (induction xs) auto

lemma filter_replace:
  assumes "P b' = P b"
  shows "filter P (map (\<lambda>r. if r = b then b' else r) xs) =
           map (\<lambda>r. if r = b then b' else r) (filter P xs)"
  using assms by (induction xs) auto

lemma filter_replace_other:
  assumes "\<not> P b" and "\<not> P b'"
  shows "filter P (map (\<lambda>r. if r = b then b' else r) xs) = filter P xs"
  using assms by (induction xs) auto

lemma next_pk_not_in: "Some (next_pk (map pk rows)) \<notin> pk ` set rows"
  using next_pk_fresh [of "map pk rows"] by simp

lemma wf_after_create:
  assumes "budgets_wf s" and "budget_rows s u c m = []"
  shows "budgets_wf (s\<lparr>budgets := budgets s @ [created_budget s u c m d]\<rparr>)"
proof -
  let ?key = "\<lambda>b. (bud_user b, bud_category b, bud_month_year b)"
  from assms(2) have "\<forall>b \<in> set (budgets s). ?key b \<noteq> (u, c, m)"
    by (auto simp: budget_rows_def filter_empty_conv)
  then have "(u, c, m) \<notin> ?key ` set (budgets s)" by auto
  moreover have "bud_pk (created_budget s u c m d) \<notin> bud_pk ` set (budgets s)"
    using next_pk_not_in [of bud_pk "budgets s"] by (simp add: created_budget_def)
  moreover have "?key (created_budget s u c m d) = (u, c, m)"
    "bud_pk (created_budget s u c m d) \<noteq> None"
    by (simp_all add: created_budget_def)
  ultimately show ?thesis
    using assms(1) by (auto simp: budgets_wf_def unique_budgets_def)
qed

lemma wf_after_update:
  assumes "budgets_wf s"
  shows "budgets_wf (s\<lparr>budgets := map (\<lambda>r. if r = b then b\<lparr>bud_allocated_amount := d\<rparr> else r) (budgets s)\<rparr>)"
proof -
  let ?xs = "map (\<lambda>r. if r = b then b\<lparr>bud_allocated_amount := d\<rparr> else r) (budgets s)"
  have k1: "map (\<lambda>b. (bud_user b, bud_category b, bud_month_year b)) ?xs =
      map (\<lambda>b. (bud_user b, bud_category b, bud_month_year b)) (budgets s)"
    by (rule map_replace_same) simp
  have k2: "map bud_pk ?xs = map bud_pk (budgets s)"
    by (rule map_replace_same) simp
  have sel: "budgets (s\<lparr>budgets := ?xs\<rparr>) = ?xs" by simp
  from assms show ?thesis
    unfolding budgets_wf_def unique_budgets_def sel k1 k2 .
qed

lemma grow_after_create:
  assumes "0 < d"
  shows "budgets_grow s (s\<lparr>budgets := budgets s @ [created_budget s u c m d]\<rparr>)"
  using assms by (auto simp: budgets_grow_def created_budget_def)

lemma grow_after_update:
  assumes "0 < d"
  shows "budgets_grow s (s\<lparr>budgets := map (\<lambda>r. if r = b then b\<lparr>bud_allocated_amount := d\<rparr> else r) (budgets s)\<rparr>)"
  unfolding budgets_grow_def
proof (intro conjI ballI)
  let ?f = "\<lambda>r. if r = b then b\<lparr>bud_allocated_amount := d\<rparr> else r"
  fix x assume "x \<in> set (budgets s)"
  then have "?f x \<in> ?f ` set (budgets s)" by (rule imageI)
  moreover have "budgets (s\<lparr>budgets := map ?f (budgets s)\<rparr>) = map ?f (budgets s)" by simp
  ultimately have "?f x \<in> set (budgets (s\<lparr>budgets := map ?f (budgets s)\<rparr>))"
    by (simp only: set_map)
  moreover have "bud_pk (?f x) = bud_pk x \<and> bud_user (?f x) = bud_user x \<and>
      bud_category (?f x) = bud_category x \<and> bud_month_year (?f x) = bud_month_year x \<and>
      (bud_allocated_amount (?f x) = bud_allocated_amount x \<or> 0 < bud_allocated_amount (?f x))"
    using assms by simp
  ultimately show "\<exists>b' \<in> set (budgets (s\<lparr>budgets := map ?f (budgets s)\<rparr>)).
      bud_pk b' = bud_pk x \<and> bud_user b' = bud_user x \<and> bud_category b' = bud_category x \<and>
      bud_month_year b' = bud_month_year x \<and>
      (bud_allocated_amount b' = bud_allocated_amount x \<or> 0 < bud_allocated_amount b')"
    by blast
next
  fix b' assume "b' \<in> set (budgets (s\<lparr>budgets := map (\<lambda>r. if r = b then b\<lparr>bud_allocated_amount := d\<rparr> else r) (budgets s)\<rparr>))"
  then show "b' \<in> set (budgets s) \<or> 0 < bud_allocated_amount b'"
    using assms by auto
qed simp_all

lemma budget_rows_append:
  "budget_rows (s\<lparr>budgets := budgets s @ [x]\<rparr>) u c m =
     budget_rows s u c m @
       (if bud_user x = u \<and> bud_category x = c \<and> bud_month_year x = m then [x] else [])"
  by (simp add: budget_rows_def)

lemma budget_rows_replace_other:
  assumes "(bud_user b, bud_category b, bud_month_year b) \<noteq> (u, c, m)"
  shows "budget_rows (s\<lparr>budgets := map (\<lambda>r. if r = b then b\<lparr>bud_allocated_amount := d\<rparr> else r) (budgets s)\<rparr>) u c m
           = budget_rows s u c m"
  unfolding budget_rows_def using assms
  by (simp add: filter_replace_other)

lemma budget_rows_replace_same:
  assumes "budget_rows s u c m = [b]"
  shows "budget_rows (s\<lparr>budgets := map (\<lambda>r. if r = b then b\<lparr>bud_allocated_amount := d\<rparr> else r) (budgets s)\<rparr>) u c m
           = [b\<lparr>bud_allocated_amount := d\<rparr>]"
proof -
  let ?P = "\<lambda>b. bud_user b = u \<and> bud_category b = c \<and> bud_month_year b = m"
  have "filter ?P (map (\<lambda>r. if r = b then b\<lparr>bud_allocated_amount := d\<rparr> else r) (budgets s)) =
      map (\<lambda>r. if r = b then b\<lparr>bud_allocated_amount := d\<rparr> else r) (filter ?P (budgets s))"
    by (rule filter_replace) simp
  also have "filter ?P (budgets s) = [b]" using assms by (simp add: budget_rows_def)
  finally show ?thesis by (simp add: budget_rows_def)
qed

lemma budget_update_step_error:
  assumes "budgets_wf s" and "budget_update_step Decimal request m c s = Inl e"
  shows "e = InvalidOperation \<and> submitted Decimal request c = Rejected"
proof (cases "submitted Decimal request c")
  case Skipped
  with assms(2) show ?thesis by (simp add: budget_update_step_Skipped)
next
  case Rejected
  with assms(2) show ?thesis by (simp add: budget_update_step_Rejected)
next
  case (Positive d)
  from assms(1) have "unique_budgets s" by (simp add: budgets_wf_def)
  then consider "budget_rows s (user_pk (req_user request)) c m = []"
    | b where "budget_rows s (user_pk (req_user request)) c m = [b]"
    using budget_rows_at_most_one by blast
  then show ?thesis
  proof cases
    case 1
    with Positive assms(2) show ?thesis by (simp add: budget_update_step_Positive_new)
  next
    case 2
    with Positive assms show ?thesis by (simp add: budget_update_step_Positive_found)
  qed
qed

lemma budget_update_step_effect:
  assumes wf: "budgets_wf s" and step: "budget_update_step Decimal request m c s = Inr s1"
  shows "budgets_wf s1" and "budgets_grow s s1"
    and "\<And>u' c' m'. (u', c', m') \<noteq> (user_pk (req_user request), c, m) \<Longrightarrow>
           budget_rows s1 u' c' m' = budget_rows s u' c' m'"
    and "submitted Decimal request c = Skipped \<Longrightarrow> s1 = s"
    and "\<And>d. submitted Decimal request c = Positive d \<Longrightarrow>
           \<exists>b'. budget_rows s1 (user_pk (req_user request)) c m = [b'] \<and> bud_allocated_amount b' = d \<and>
                (case budget_rows s (user_pk (req_user request)) c m of
                   [] \<Rightarrow> bud_pk b' \<notin> bud_pk ` set (budgets s)
                 | b # _ \<Rightarrow> b' = b\<lparr>bud_allocated_amount := d\<rparr>)"
proof -
  let ?u = "user_pk (req_user request)"
  have all: "budgets_wf s1 \<and> budgets_grow s s1 \<and>
      (\<forall>u' c' m'. (u', c', m') \<noteq> (?u, c, m) \<longrightarrow> budget_rows s1 u' c' m' = budget_rows s u' c' m') \<and>
      (submitted Decimal request c = Skipped \<longrightarrow> s1 = s) \<and>
      (\<forall>d. submitted Decimal request c = Positive d \<longrightarrow>
           (\<exists>b'. budget_rows s1 ?u c m = [b'] \<and> bud_allocated_amount b' = d \<and>
                (case budget_rows s ?u c m of
                   [] \<Rightarrow> bud_pk b' \<notin> bud_pk ` set (budgets s)
                 | b # _ \<Rightarrow> b' = b\<lparr>bud_allocated_amount := d\<rparr>)))"
  proof (cases "submitted Decimal request c")
    case Skipped
    with step have "s1 = s" by (simp add: budget_update_step_Skipped)
    with wf Skipped show ?thesis by (simp add: budgets_grow_refl)
  next
    case Rejected
    with step show ?thesis by (simp add: budget_update_step_Rejected)
  next
    case (Positive d)
    then have pos: "0 < d" unfolding submitted_Positive by blast
    from wf have "unique_budgets s" by (simp add: budgets_wf_def)
    then consider "budget_rows s ?u c m = []" | b where "budget_rows s ?u c m = [b]"
      using budget_rows_at_most_one by blast
    then show ?thesis
    proof cases
      case 1
      let ?new = "created_budget s ?u c m d"
      from step Positive 1 have s1: "s1 = s\<lparr>budgets := budgets s @ [?new]\<rparr>"
        by (simp add: budget_update_step_Positive_new)
      have key: "bud_user ?new = ?u" "bud_category ?new = c" "bud_month_year ?new = m"
        "bud_allocated_amount ?new = d"
        by (simp_all add: created_budget_def)
      have fresh: "bud_pk ?new \<notin> bud_pk ` set (budgets s)"
        using next_pk_not_in [of bud_pk "budgets s"] by (simp add: created_budget_def)
      have a: "budgets_wf s1" unfolding s1 using wf 1 by (rule wf_after_create)
      have b: "budgets_grow s s1" unfolding s1 using pos by (rule grow_after_create)
      have c: "\<forall>u' c' m'. (u', c', m') \<noteq> (?u, c, m) \<longrightarrow> budget_rows s1 u' c' m' = budget_rows s u' c' m'"
        unfolding s1 budget_rows_append key by auto
      have d: "budget_rows s1 ?u c m = [?new]"
        unfolding s1 budget_rows_append key 1 by simp
      from a b c d key fresh Positive 1 show ?thesis by simp
    next
      case 2
      let ?b' = "b\<lparr>bud_allocated_amount := d\<rparr>"
      from step Positive 2 wf
      have s1: "s1 = s\<lparr>budgets := map (\<lambda>r. if r = b then ?b' else r) (budgets s)\<rparr>"
        by (simp add: budget_update_step_Positive_found)
      from 2 have key: "bud_user b = ?u" "bud_category b = c" "bud_month_year b = m"
        using budget_rows_member [of b s ?u c m] by simp_all
      have a: "budgets_wf s1" unfolding s1 using wf by (rule wf_after_update)
      have b: "budgets_grow s s1" unfolding s1 using pos by (rule grow_after_update)
      have c: "\<forall>u' c' m'. (u', c', m') \<noteq> (?u, c, m) \<longrightarrow> budget_rows s1 u' c' m' = budget_rows s u' c' m'"
        unfolding s1 using key by (intro allI impI budget_rows_replace_other) auto
      have d: "budget_rows s1 ?u c m = [?b']"
        unfolding s1 using 2 by (rule budget_rows_replace_same)
      from a b c d Positive 2 show ?thesis by simp
    qed
  qed
  from all show "budgets_wf s1" "budgets_grow s s1"
    "\<And>u' c' m'. (u', c', m') \<noteq> (?u, c, m) \<Longrightarrow> budget_rows s1 u' c' m' = budget_rows s u' c' m'"
    "submitted Decimal request c = Skipped \<Longrightarrow> s1 = s"
    "\<And>d. submitted Decimal request c = Positive d \<Longrightarrow>
           \<exists>b'. budget_rows s1 ?u c m = [b'] \<and> bud_allocated_amount b' = d \<and>
                (case budget_rows s ?u c m of
                   [] \<Rightarrow> bud_pk b' \<notin> bud_pk ` set (budgets s)
                 | b # _ \<Rightarrow> b' = b\<lparr>bud_allocated_amount := d\<rparr>)"
    by blast+
qed

lemma budgets_grow_pks:
  assumes "budgets_grow s s'"
  shows "bud_pk ` set (budgets s) \<subseteq> bud_pk ` set (budgets s')"
proof
  fix k assume "k \<in> bud_pk ` set (budgets s)"
  then obtain b where "b \<in> set (budgets s)" "k = bud_pk b" by blast
  with assms obtain b' where "b' \<in> set (budgets s')" "bud_pk b' = bud_pk b"
    unfolding budgets_grow_def by blast
  with \<open>k = bud_pk b\<close> show "k \<in> bud_pk ` set (budgets s')" by (metis imageI)
qed

text \<open>The effect of the whole loop, by induction on the categories still to process.\<close>

lemma budget_update_loop_effect:
  assumes "budgets_wf s" and "distinct cats"
  shows "(case budget_update_loop Decimal request m cats s of (err, s') \<Rightarrow>
      budgets_wf s' \<and> budgets_grow s s' \<and>
      (err = None \<or> err = Some InvalidOperation) \<and>
      (err = None \<longleftrightarrow> (\<forall>c \<in> set cats. submitted Decimal request c \<noteq> Rejected)) \<and>
      (\<forall>u' c' m'. u' \<noteq> user_pk (req_user request) \<or> m' \<noteq> m \<or> c' \<notin> set cats \<or>
          submitted Decimal request c' = Skipped \<longrightarrow>
          budget_rows s' u' c' m' = budget_rows s u' c' m') \<and>
      (\<forall>c d. c \<in> set cats \<and> submitted Decimal request c = Positive d \<and> err = None \<longrightarrow>
          (\<exists>b'. budget_rows s' (user_pk (req_user request)) c m = [b'] \<and>
                bud_allocated_amount b' = d \<and>
                (case budget_rows s (user_pk (req_user request)) c m of
                   [] \<Rightarrow> bud_pk b' \<notin> bud_pk ` set (budgets s)
                 | b # _ \<Rightarrow> b' = b\<lparr>bud_allocated_amount := d\<rparr>))))"
  using assms
proof (induction cats arbitrary: s)
  case Nil
  then show ?case by (simp add: budgets_grow_refl)
next
  case (Cons c cs)
  let ?u = "user_pk (req_user request)"
  from Cons.prems have wf: "budgets_wf s" and dist: "distinct cs" and notin: "c \<notin> set cs"
    by simp_all
  show ?case
  proof (cases "budget_update_step Decimal request m c s")
    case (Inl e)
    with wf have e: "e = InvalidOperation" "submitted Decimal request c = Rejected"
      using budget_update_step_error by blast+
    have "budget_update_loop Decimal request m (c # cs) s = (Some e, s)"
      by (simp add: Inl)
    with wf e show ?thesis by (auto simp: budgets_grow_refl)
  next
    case (Inr s1)
    note eff = budget_update_step_effect [OF wf Inr]
    obtain err s' where loop: "budget_update_loop Decimal request m cs s1 = (err, s')"
      by (cases "budget_update_loop Decimal request m cs s1")
    have whole: "budget_update_loop Decimal request m (c # cs) s = (err, s')"
      by (simp add: Inr loop)
    have ih: "budgets_wf s' \<and> budgets_grow s1 s' \<and>
      (err = None \<or> err = Some InvalidOperation) \<and>
      (err = None \<longleftrightarrow> (\<forall>c \<in> set cs. submitted Decimal request c \<noteq> Rejected)) \<and>
      (\<forall>u' c' m'. u' \<noteq> ?u \<or> m' \<noteq> m \<or> c' \<notin> set cs \<or>
          submitted Decimal request c' = Skipped \<longrightarrow>
          budget_rows s' u' c' m' = budget_rows s1 u' c' m') \<and>
      (\<forall>c d. c \<in> set cs \<and> submitted Decimal request c = Positive d \<and> err = None \<longrightarrow>
          (\<exists>b'. budget_rows s' ?u c m = [b'] \<and>
                bud_allocated_amount b' = d \<and>
                (case budget_rows s1 ?u c m of
                   [] \<Rightarrow> bud_pk b' \<notin> bud_pk ` set (budgets s1)
                 | b # _ \<Rightarrow> b' = b\<lparr>bud_allocated_amount := d\<rparr>)))"
      using Cons.IH [OF eff(1) dist] unfolding loop prod.case .
    from ih have ih_wf: "budgets_wf s'" by (elim conjE)
    from ih have ih_grow: "budgets_grow s1 s'" by (elim conjE)
    from ih have ih_err: "err = None \<or> err = Some InvalidOperation" by (elim conjE)
    from ih have ih_none: "err = None \<longleftrightarrow> (\<forall>c \<in> set cs. submitted Decimal request c \<noteq> Rejected)"
      by (elim conjE)
    from ih have ih_same': "\<forall>u' c' m'. u' \<noteq> ?u \<or> m' \<noteq> m \<or> c' \<notin> set cs \<or>
          submitted Decimal request c' = Skipped \<longrightarrow>
          budget_rows s' u' c' m' = budget_rows s1 u' c' m'" by (elim conjE)
    then have ih_same: "\<And>u' c' m'. u' \<noteq> ?u \<or> m' \<noteq> m \<or> c' \<notin> set cs \<or>
          submitted Decimal request c' = Skipped \<Longrightarrow>
          budget_rows s' u' c' m' = budget_rows s1 u' c' m'" by blast
    from ih have ih_pos': "\<forall>c d. c \<in> set cs \<and> submitted Decimal request c = Positive d \<and> err = None \<longrightarrow>
          (\<exists>b'. budget_rows s' ?u c m = [b'] \<and>
                bud_allocated_amount b' = d \<and>
                (case budget_rows s1 ?u c m of
                   [] \<Rightarrow> bud_pk b' \<notin> bud_pk ` set (budgets s1)
                 | b # _ \<Rightarrow> b' = b\<lparr>bud_allocated_amount := d\<rparr>))" by (elim conjE)
    then have ih_pos: "\<And>c d. c \<in> set cs \<Longrightarrow> submitted Decimal request c = Positive d \<Longrightarrow> err = None \<Longrightarrow>
          \<exists>b'. budget_rows s' ?u c m = [b'] \<and> bud_allocated_amount b' = d \<and>
                (case budget_rows s1 ?u c m of
                   [] \<Rightarrow> bud_pk b' \<notin> bud_pk ` set (budgets s1)
                 | b # _ \<Rightarrow> b' = b\<lparr>bud_allocated_amount := d\<rparr>)" by blast
    have not_rej: "submitted Decimal request c \<noteq> Rejected"
      using Inr by (auto simp: budget_update_step_Rejected)
    have grow: "budgets_grow s s'" using eff(2) ih_grow by (rule budgets_grow_trans)
    have none: "err = None \<longleftrightarrow> (\<forall>x \<in> set (c # cs). submitted Decimal request x \<noteq> Rejected)"
      using ih_none not_rej by simp
    have same: "\<forall>u' c' m'. u' \<noteq> ?u \<or> m' \<noteq> m \<or> c' \<notin> set (c # cs) \<or>
          submitted Decimal request c' = Skipped \<longrightarrow>
          budget_rows s' u' c' m' = budget_rows s u' c' m'"
    proof (intro allI impI)
      fix u' c' m'
      assume h: "u' \<noteq> ?u \<or> m' \<noteq> m \<or> c' \<notin> set (c # cs) \<or> submitted Decimal request c' = Skipped"
      then have "u' \<noteq> ?u \<or> m' \<noteq> m \<or> c' \<notin> set cs \<or> submitted Decimal request c' = Skipped"
        by auto
      then have 1: "budget_rows s' u' c' m' = budget_rows s1 u' c' m'" by (rule ih_same)
      have 2: "budget_rows s1 u' c' m' = budget_rows s u' c' m'"
      proof (cases "(u', c', m') = (?u, c, m)")
        case True
        with h have "submitted Decimal request c = Skipped" by auto
        then have "s1 = s" by (rule eff(4))
        then show ?thesis by simp
      next
        case False
        then show ?thesis by (rule eff(3))
      qed
      from 1 2 show "budget_rows s' u' c' m' = budget_rows s u' c' m'" by simp
    qed
    have pos: "\<forall>x d. x \<in> set (c # cs) \<and> submitted Decimal request x = Positive d \<and> err = None \<longrightarrow>
          (\<exists>b'. budget_rows s' ?u x m = [b'] \<and> bud_allocated_amount b' = d \<and>
                (case budget_rows s ?u x m of
                   [] \<Rightarrow> bud_pk b' \<notin> bud_pk ` set (budgets s)
                 | b # _ \<Rightarrow> b' = b\<lparr>bud_allocated_amount := d\<rparr>))"
    proof (intro allI impI)
      fix x d
      assume h: "x \<in> set (c # cs) \<and> submitted Decimal request x = Positive d \<and> err = None"
      show "\<exists>b'. budget_rows s' ?u x m = [b'] \<and> bud_allocated_amount b' = d \<and>
                (case budget_rows s ?u x m of
                   [] \<Rightarrow> bud_pk b' \<notin> bud_pk ` set (budgets s)
                 | b # _ \<Rightarrow> b' = b\<lparr>bud_allocated_amount := d\<rparr>)"
      proof (cases "x = c")
        case True
        from h True have "submitted Decimal request c = Positive d" by simp
        from eff(5) [OF this] obtain b' where b': "budget_rows s1 ?u c m = [b']"
          "bud_allocated_amount b' = d"
          "(case budget_rows s ?u c m of
                   [] \<Rightarrow> bud_pk b' \<notin> bud_pk ` set (budgets s)
                 | b # _ \<Rightarrow> b' = b\<lparr>bud_allocated_amount := d\<rparr>)"
          by blast
        from notin have "budget_rows s' ?u c m = budget_rows s1 ?u c m"
          by (intro ih_same) simp
        with b' True show ?thesis by simp
      next
        case False
        with h have xcs: "x \<in> set cs" by simp
        from ih_pos [OF xcs] h obtain b' where b': "budget_rows s' ?u x m = [b']"
          "bud_allocated_amount b' = d"
          "(case budget_rows s1 ?u x m of
                   [] \<Rightarrow> bud_pk b' \<notin> bud_pk ` set (budgets s1)
                 | b # _ \<Rightarrow> b' = b\<lparr>bud_allocated_amount := d\<rparr>)"
          by blast
        from False have r: "budget_rows s1 ?u x m = budget_rows s ?u x m"
          by (intro eff(3)) simp
        from budgets_grow_pks [OF eff(2)]
        have "bud_pk b' \<notin> bud_pk ` set (budgets s1) \<Longrightarrow> bud_pk b' \<notin> bud_pk ` set (budgets s)"
          by blast
        with b'(3) have "(case budget_rows s ?u x m of
                   [] \<Rightarrow> bud_pk b' \<notin> bud_pk ` set (budgets s)
                 | b # _ \<Rightarrow> b' = b\<lparr>bud_allocated_amount := d\<rparr>)"
          unfolding r by (cases "budget_rows s ?u x m") simp_all
        with b'(1,2) show ?thesis by blast
      qed
    qed
    from ih_wf grow ih_err none same pos show ?thesis
      unfolding whole prod.case by (intro conjI)
  qed
qed

lemma budget_management_store:
  "store (snd (budget_management Decimal request now w)) =
     (if req_method request = ''POST''
      then snd (budget_update_loop Decimal request (strftime_Ym now) (map fst CATEGORY_CHOICES) (store w))
      else store w)"
  by (simp add: budget_management_def Let_def add_message_def split: prod.splits option.splits)

lemma budget_management_response:
  "fst (budget_management Decimal request now w) =
     (if req_method request = ''POST''
      then (case fst (budget_update_loop Decimal request (strftime_Ym now) (map fst CATEGORY_CHOICES) (store w)) of
              None \<Rightarrow> Inr (Redirect ''budget_management'')
            | Some e \<Rightarrow> Inl e)
      else Inr (Render ''budget/budget_management.html''))"
  by (simp add: budget_management_def Let_def split: prod.splits option.splits)

lemma distinct_categories: "distinct (map fst CATEGORY_CHOICES)"
  by (simp add: CATEGORY_CHOICES_def)


lemma unique_budgets_rows:
  assumes "unique_budgets s"
  shows "length (budget_rows s u c m) \<le> 1"
  using budget_rows_at_most_one [OF assms, of u c m] by auto

text \<open>The facts about a POST to the budget page that the two claims below draw on.\<close>

lemma budget_management_effect:
  assumes wf: "budgets_wf (store w)"
  shows "budgets_wf (store (snd (budget_management Decimal request now w)))"
    and "budgets_grow (store w) (store (snd (budget_management Decimal request now w)))"
    and "fst (budget_management Decimal request now w) \<noteq> Inl MultipleObjectsReturned"
    and "\<And>u' c' m'. u' \<noteq> user_pk (req_user request) \<or> m' \<noteq> strftime_Ym now \<or>
           c' \<notin> fst ` set CATEGORY_CHOICES \<or> submitted Decimal request c' = Skipped \<Longrightarrow>
           budget_rows (store (snd (budget_management Decimal request now w))) u' c' m' =
           budget_rows (store w) u' c' m'"
    and "\<And>c d. req_method request = ''POST'' \<Longrightarrow> c \<in> fst ` set CATEGORY_CHOICES \<Longrightarrow>
           submitted Decimal request c = Positive d \<Longrightarrow>
           fst (budget_management Decimal request now w) = Inr (Redirect ''budget_management'') \<Longrightarrow>
           \<exists>b'. budget_rows (store (snd (budget_management Decimal request now w)))
                   (user_pk (req_user request)) c (strftime_Ym now) = [b'] \<and>
                bud_allocated_amount b' = d \<and>
                (case budget_rows (store w) (user_pk (req_user request)) c (strftime_Ym now) of
                   [] \<Rightarrow> bud_pk b' \<notin> bud_pk ` set (budgets (store w))
                 | b # _ \<Rightarrow> b' = b\<lparr>bud_allocated_amount := d\<rparr>)"
proof -
  let ?m = "strftime_Ym now" and ?cats = "map fst CATEGORY_CHOICES"
  let ?u = "user_pk (req_user request)"
  let ?w' = "snd (budget_management Decimal request now w)"
  obtain err s' where loop: "budget_update_loop Decimal request ?m ?cats (store w) = (err, s')"
    by (cases "budget_update_loop Decimal request ?m ?cats (store w)")
  have eff: "budgets_wf s' \<and> budgets_grow (store w) s' \<and>
      (err = None \<or> err = Some InvalidOperation) \<and>
      (err = None \<longleftrightarrow> (\<forall>c \<in> set ?cats. submitted Decimal request c \<noteq> Rejected)) \<and>
      (\<forall>u' c' m'. u' \<noteq> ?u \<or> m' \<noteq> ?m \<or> c' \<notin> set ?cats \<or>
          submitted Decimal request c' = Skipped \<longrightarrow>
          budget_rows s' u' c' m' = budget_rows (store w) u' c' m') \<and>
      (\<forall>c d. c \<in> set ?cats \<and> submitted Decimal request c = Positive d \<and> err = None \<longrightarrow>
          (\<exists>b'. budget_rows s' ?u c ?m = [b'] \<and>
                bud_allocated_amount b' = d \<and>
                (case budget_rows (store w) ?u c ?m of
                   [] \<Rightarrow> bud_pk b' \<notin> bud_pk ` set (budgets (store w))
                 | b # _ \<Rightarrow> b' = b\<lparr>bud_allocated_amount := d\<rparr>)))"
    using budget_update_loop_effect [OF wf distinct_categories, of Decimal request ?m]
    unfolding loop prod.case .
  show "budgets_wf (store ?w')"
    using eff wf by (simp add: budget_management_store loop)
  show "budgets_grow (store w) (store ?w')"
    using eff by (simp add: budget_management_store loop budgets_grow_refl)
  show "fst (budget_management Decimal request now w) \<noteq> Inl MultipleObjectsReturned"
    using eff by (auto simp: budget_management_response loop split: option.splits)
  show "\<And>u' c' m'. u' \<noteq> ?u \<or> m' \<noteq> ?m \<or> c' \<notin> fst ` set CATEGORY_CHOICES \<or>
           submitted Decimal request c' = Skipped \<Longrightarrow>
           budget_rows (store ?w') u' c' m' = budget_rows (store w) u' c' m'"
  proof -
    fix u' c' m'
    assume "u' \<noteq> ?u \<or> m' \<noteq> ?m \<or> c' \<notin> fst ` set CATEGORY_CHOICES \<or>
           submitted Decimal request c' = Skipped"
    then have "u' \<noteq> ?u \<or> m' \<noteq> ?m \<or> c' \<notin> set ?cats \<or> submitted Decimal request c' = Skipped"
      by simp
    with eff have "budget_rows s' u' c' m' = budget_rows (store w) u' c' m'" by blast
    then show "budget_rows (store ?w') u' c' m' = budget_rows (store w) u' c' m'"
      by (simp add: budget_management_store loop)
  qed
  show "\<And>c d. req_method request = ''POST'' \<Longrightarrow> c \<in> fst ` set CATEGORY_CHOICES \<Longrightarrow>
           submitted Decimal request c = Positive d \<Longrightarrow>
           fst (budget_management Decimal request now w) = Inr (Redirect ''budget_management'') \<Longrightarrow>
           \<exists>b'. budget_rows (store ?w') ?u c ?m = [b'] \<and>
                bud_allocated_amount b' = d \<and>
                (case budget_rows (store w) ?u c ?m of
                   [] \<Rightarrow> bud_pk b' \<notin> bud_pk ` set (budgets (store w))
                 | b # _ \<Rightarrow> b' = b\<lparr>bud_allocated_amount := d\<rparr>)"
  proof -
    fix c d
    assume post: "req_method request = ''POST''" and c: "c \<in> fst ` set CATEGORY_CHOICES"
      and d: "submitted Decimal request c = Positive d"
      and ok: "fst (budget_management Decimal request now w) = Inr (Redirect ''budget_management'')"
    from ok post have "err = None"
      by (cases err) (simp_all add: budget_management_response loop)
    moreover from c have "c \<in> set ?cats" by simp
    ultimately have "\<exists>b'. budget_rows s' ?u c ?m = [b'] \<and>
                bud_allocated_amount b' = d \<and>
                (case budget_rows (store w) ?u c ?m of
                   [] \<Rightarrow> bud_pk b' \<notin> bud_pk ` set (budgets (store w))
                 | b # _ \<Rightarrow> b' = b\<lparr>bud_allocated_amount := d\<rparr>)"
      using eff d by blast
    then show "\<exists>b'. budget_rows (store ?w') ?u c ?m = [b'] \<and>
                bud_allocated_amount b' = d \<and>
                (case budget_rows (store w) ?u c ?m of
                   [] \<Rightarrow> bud_pk b' \<notin> bud_pk ` set (budgets (store w))
                 | b # _ \<Rightarrow> b' = b\<lparr>bud_allocated_amount := d\<rparr>)"
      using post by (simp add: budget_management_store loop)
  qed
qed

lemma june_wf: "budgets_wf (store june_world)"
  by (simp add: budgets_wf_def unique_budgets_def june_world_def june_db_def)

lemma example_submitted:
  "submitted example_Decimal budget_post ''Food'' = Positive 650"
  "submitted example_Decimal budget_post ''Bills'' = Positive 900"
  "submitted example_Decimal budget_post ''Transport'' = Skipped"
  "submitted example_Decimal budget_post ''Shopping'' = Skipped"
  "submitted example_Decimal budget_post ''Other'' = Skipped"
  "submitted example_Decimal budget_post ''Healthcare'' = Skipped"
  by (simp_all add: submitted_def budget_post_def budget_form_def example_Decimal_def)

lemma example_budget_post:
  "budget_management example_Decimal budget_post d_2024_06_15 june_world =
     (Inr (Redirect ''budget_management''),
      june_world\<lparr>store := june_db\<lparr>budgets := [food_budget\<lparr>bud_allocated_amount := 650\<rparr>, bills_budget]\<rparr>,
                 messages := [(SUCCESS, ''Budgets updated successfully!'')]\<rparr>)"
  by (simp add: budget_management_def strftime_june CATEGORY_CHOICES_def budget_update_step_def
      budget_post_def budget_form_def example_Decimal_def june_world_def june_db_def demo_user_def
      Budget_get_or_create_def Budget_save_def save_row_def next_pk_def food_budget_def
      bills_budget_def add_message_def Let_def)

text \<open>
  Claim C9. On a budget table that satisfies the store's constraints (the uniqueness of
  owner, category and bucket, and a key of its own for every row), the budget page leaves
  at most one row per owner, category and bucket, and never fails on a duplicate. After a
  POST that ran to its end, a category whose field holds a positive amount and that had a
  row for the owner and the current bucket has that same row with the new amount and no
  second row; a category that had none has exactly one new row, under a key that was not
  in the table.
\<close>

theorem budget_allocation_unique_and_updated_in_place:
  assumes "budgets_wf (store w)"
  shows "(let w' = snd (budget_management Decimal request now w);
              u = user_pk (req_user request); m = strftime_Ym now
          in unique_budgets (store w') \<and>
             (\<forall>u' c' m'. length (budget_rows (store w') u' c' m') \<le> 1) \<and>
             fst (budget_management Decimal request now w) \<noteq> Inl MultipleObjectsReturned \<and>
             (\<forall>c d b. req_method request = ''POST'' \<and> c \<in> fst ` set CATEGORY_CHOICES \<and>
                 req_POST request (''budget_'' @ c) \<noteq> Some [] \<and>
                 Option.bind (req_POST request (''budget_'' @ c)) Decimal = Some d \<and> 0 < d \<and>
                 fst (budget_management Decimal request now w) = Inr (Redirect ''budget_management'') \<and>
                 budget_rows (store w) u c m = [b] \<longrightarrow>
                 budget_rows (store w') u c m = [b\<lparr>bud_allocated_amount := d\<rparr>]) \<and>
             (\<forall>c d. req_method request = ''POST'' \<and> c \<in> fst ` set CATEGORY_CHOICES \<and>
                 req_POST request (''budget_'' @ c) \<noteq> Some [] \<and>
                 Option.bind (req_POST request (''budget_'' @ c)) Decimal = Some d \<and> 0 < d \<and>
                 fst (budget_management Decimal request now w) = Inr (Redirect ''budget_management'') \<and>
                 budget_rows (store w) u c m = [] \<longrightarrow>
                 (\<exists>b'. budget_rows (store w') u c m = [b'] \<and> bud_allocated_amount b' = d \<and>
                       bud_pk b' \<notin> bud_pk ` set (budgets (store w)))))"
proof -
  let ?w' = "snd (budget_management Decimal request now w)"
  let ?u = "user_pk (req_user request)" and ?m = "strftime_Ym now"
  note eff = budget_management_effect [OF assms, where Decimal = Decimal and request = request and now = now]
  from eff(1) have uniq: "unique_budgets (store ?w')" by (simp add: budgets_wf_def)
  have one: "\<forall>u' c' m'. length (budget_rows (store ?w') u' c' m') \<le> 1"
    using unique_budgets_rows [OF uniq] by blast
  have pos: "submitted Decimal request c = Positive d"
    if "req_POST request (''budget_'' @ c) \<noteq> Some []"
      "Option.bind (req_POST request (''budget_'' @ c)) Decimal = Some d" "0 < d" for c d
    using that unfolding submitted_Positive
    by (cases "req_POST request (''budget_'' @ c)") auto
  have upd: "\<forall>c d b. req_method request = ''POST'' \<and> c \<in> fst ` set CATEGORY_CHOICES \<and>
                 req_POST request (''budget_'' @ c) \<noteq> Some [] \<and>
                 Option.bind (req_POST request (''budget_'' @ c)) Decimal = Some d \<and> 0 < d \<and>
                 fst (budget_management Decimal request now w) = Inr (Redirect ''budget_management'') \<and>
                 budget_rows (store w) ?u c ?m = [b] \<longrightarrow>
                 budget_rows (store ?w') ?u c ?m = [b\<lparr>bud_allocated_amount := d\<rparr>]"
  proof (intro allI impI)
    fix c d b
    assume h: "req_method request = ''POST'' \<and> c \<in> fst ` set CATEGORY_CHOICES \<and>
                 req_POST request (''budget_'' @ c) \<noteq> Some [] \<and>
                 Option.bind (req_POST request (''budget_'' @ c)) Decimal = Some d \<and> 0 < d \<and>
                 fst (budget_management Decimal request now w) = Inr (Redirect ''budget_management'') \<and>
                 budget_rows (store w) ?u c ?m = [b]"
    then have p: "submitted Decimal request c = Positive d" using pos by blast
    from h eff(5) [OF _ _ p] obtain b' where "budget_rows (store ?w') ?u c ?m = [b']"
      "(case budget_rows (store w) ?u c ?m of
                   [] \<Rightarrow> bud_pk b' \<notin> bud_pk ` set (budgets (store w))
                 | b # _ \<Rightarrow> b' = b\<lparr>bud_allocated_amount := d\<rparr>)"
      by blast
    with h show "budget_rows (store ?w') ?u c ?m = [b\<lparr>bud_allocated_amount := d\<rparr>]" by simp
  qed
  have new: "\<forall>c d. req_method request = ''POST'' \<and> c \<in> fst ` set CATEGORY_CHOICES \<and>
                 req_POST request (''budget_'' @ c) \<noteq> Some [] \<and>
                 Option.bind (req_POST request (''budget_'' @ c)) Decimal = Some d \<and> 0 < d \<and>
                 fst (budget_management Decimal request now w) = Inr (Redirect ''budget_management'') \<and>
                 budget_rows (store w) ?u c ?m = [] \<longrightarrow>
                 (\<exists>b'. budget_rows (store ?w') ?u c ?m = [b'] \<and> bud_allocated_amount b' = d \<and>
                       bud_pk b' \<notin> bud_pk ` set (budgets (store w)))"
  proof (intro allI impI)
    fix c d
    assume h: "req_method request = ''POST'' \<and> c \<in> fst ` set CATEGORY_CHOICES \<and>
                 req_POST request (''budget_'' @ c) \<noteq> Some [] \<and>
                 Option.bind (req_POST request (''budget_'' @ c)) Decimal = Some d \<and> 0 < d \<and>
                 fst (budget_management Decimal request now w) = Inr (Redirect ''budget_management'') \<and>
                 budget_rows (store w) ?u c ?m = []"
    then have p: "submitted Decimal request c = Positive d" using pos by blast
    from h eff(5) [OF _ _ p] obtain b' where "budget_rows (store ?w') ?u c ?m = [b']"
      "bud_allocated_amount b' = d"
      "(case budget_rows (store w) ?u c ?m of
                   [] \<Rightarrow> bud_pk b' \<notin> bud_pk ` set (budgets (store w))
                 | b # _ \<Rightarrow> b' = b\<lparr>bud_allocated_amount := d\<rparr>)"
      by blast
    with h show "\<exists>b'. budget_rows (store ?w') ?u c ?m = [b'] \<and> bud_allocated_amount b' = d \<and>
                       bud_pk b' \<notin> bud_pk ` set (budgets (store w))" by simp
  qed
  from uniq one eff(3) upd new show ?thesis unfolding Let_def by (intro conjI)
qed

theorem budget_allocation_unique_and_updated_in_place_witness:
  "budgets_wf (store june_world) \<and> req_method budget_post = ''POST'' \<and>
   ''Food'' \<in> fst ` set CATEGORY_CHOICES \<and>
   req_POST budget_post ''budget_Food'' = Some ''650.00'' \<and> example_Decimal ''650.00'' = Some 650 \<and>
   fst (budget_management example_Decimal budget_post d_2024_06_15 june_world) =
     Inr (Redirect ''budget_management'') \<and>
   budget_rows (store june_world) 1 ''Food'' ''2024-06'' = [food_budget] \<and>
   budget_rows (store (snd (budget_management example_Decimal budget_post d_2024_06_15 june_world)))
     1 ''Food'' ''2024-06'' = [food_budget\<lparr>bud_allocated_amount := 650\<rparr>] \<and>
   bud_pk (food_budget\<lparr>bud_allocated_amount := 650\<rparr>) = bud_pk food_budget \<and>
   budget_rows (store june_world) 1 ''Bills'' ''2024-06'' = [] \<and>
   budget_rows (store (snd (budget_management example_Decimal budget_post d_2024_06_15 june_world)))
     1 ''Bills'' ''2024-06'' = [bills_budget] \<and>
   unique_budgets (store (snd (budget_management example_Decimal budget_post d_2024_06_15 june_world))) \<and>
   length (budgets (store (snd (budget_management example_Decimal budget_post d_2024_06_15 june_world)))) = 2"
proof -
  have pre: "req_method budget_post = ''POST''" "''Food'' \<in> fst ` set CATEGORY_CHOICES"
    "req_POST budget_post ''budget_Food'' = Some ''650.00''" "example_Decimal ''650.00'' = Some 650"
    "user_pk (req_user budget_post) = 1" "strftime_Ym d_2024_06_15 = ''2024-06''"
    by (simp_all add: budget_post_def budget_form_def CATEGORY_CHOICES_def example_Decimal_def
        demo_user_def strftime_june)
  have rows: "budget_rows (store june_world) 1 ''Food'' ''2024-06'' = [food_budget]"
    "budget_rows (store june_world) 1 ''Bills'' ''2024-06'' = []"
    by (simp_all add: budget_rows_def june_world_def june_db_def food_budget_def)
  have ok: "fst (budget_management example_Decimal budget_post d_2024_06_15 june_world) =
     Inr (Redirect ''budget_management'')"
    by (simp add: example_budget_post)
  have after: "budgets (store (snd (budget_management example_Decimal budget_post d_2024_06_15 june_world)))
      = [food_budget\<lparr>bud_allocated_amount := 650\<rparr>, bills_budget]"
    by (simp add: example_budget_post)
  have bills: "budget_rows (store (snd (budget_management example_Decimal budget_post d_2024_06_15 june_world)))
     1 ''Bills'' ''2024-06'' = [bills_budget]"
    unfolding budget_rows_def after by (simp add: food_budget_def bills_budget_def)
  note inst = budget_allocation_unique_and_updated_in_place
    [OF june_wf, where Decimal = example_Decimal and request = budget_post and now = d_2024_06_15,
     unfolded Let_def]
  from inst
  have t1: "unique_budgets (store (snd (budget_management example_Decimal budget_post d_2024_06_15 june_world)))"
    by (elim conjE)
  from inst
  have t2: "\<forall>c d b. req_method budget_post = ''POST'' \<and> c \<in> fst ` set CATEGORY_CHOICES \<and>
                 req_POST budget_post (''budget_'' @ c) \<noteq> Some [] \<and>
                 Option.bind (req_POST budget_post (''budget_'' @ c)) example_Decimal = Some d \<and> 0 < d \<and>
                 fst (budget_management example_Decimal budget_post d_2024_06_15 june_world) =
                   Inr (Redirect ''budget_management'') \<and>
                 budget_rows (store june_world) (user_pk (req_user budget_post)) c (strftime_Ym d_2024_06_15) = [b] \<longrightarrow>
                 budget_rows (store (snd (budget_management example_Decimal budget_post d_2024_06_15 june_world)))
                   (user_pk (req_user budget_post)) c (strftime_Ym d_2024_06_15) =
                   [b\<lparr>bud_allocated_amount := d\<rparr>]"
    by (elim conjE)
  from t2 [rule_format, of "''Food''" 650 food_budget] pre rows ok
  have food: "budget_rows (store (snd (budget_management example_Decimal budget_post d_2024_06_15 june_world)))
     1 ''Food'' ''2024-06'' = [food_budget\<lparr>bud_allocated_amount := 650\<rparr>]"
    by simp
  from june_wf pre rows ok food bills t1 after show ?thesis by simp
qed




subsection \<open>The report table under its constraint\<close>

lemma report_rows_at_most_one:
  assumes "reports_wf s"
  shows "report_rows s u m = [] \<or> (\<exists>r. report_rows s u m = [r])"
proof -
  let ?key = "\<lambda>r. (rep_user r, rep_month_year r)"
  from assms have "distinct (map ?key (report_rows s u m))"
    unfolding reports_wf_def report_rows_def by (intro distinct_map_filter) simp
  moreover have "\<forall>r \<in> set (report_rows s u m). ?key r = (u, m)"
    by (simp add: report_rows_def)
  ultimately have "length (report_rows s u m) \<le> 1" by (rule distinct_same_key_length)
  then show ?thesis by (cases "report_rows s u m") (auto simp: le_Suc_eq)
qed

lemma MonthlyReport_update_or_create_wf:
  assumes "reports_wf s"
  shows "\<exists>r created s'. MonthlyReport_update_or_create u m t path s = Inr ((r, created), s') \<and>
           reports_wf s' \<and> report_rows s' u m = [r] \<and> rep_pdf_file r = path \<and>
           (created \<longleftrightarrow> report_rows s u m = [])"
proof -
  let ?key = "\<lambda>r. (rep_user r, rep_month_year r)"
  from report_rows_at_most_one [OF assms, of u m]
  consider "report_rows s u m = []" | r where "report_rows s u m = [r]" by blast
  then show ?thesis
  proof cases
    case 1
    let ?new = "\<lparr>rep_pk = Some (next_pk (map rep_pk (reports s))), rep_user = u, rep_month_year = m,
        rep_total_income = total_income t, rep_total_expenses = total_expenses t,
        rep_total_investments = total_investments t, rep_total_savings = total_savings t,
        rep_pdf_file = path\<rparr>"
    from 1 have res: "MonthlyReport_update_or_create u m t path s =
        Inr ((?new, True), s\<lparr>reports := reports s @ [?new]\<rparr>)"
      by (simp add: MonthlyReport_update_or_create_def report_rows_def save_row_def Let_def)
    from 1 have "\<forall>r \<in> set (reports s). ?key r \<noteq> (u, m)"
      by (auto simp: report_rows_def filter_empty_conv)
    then have nokey: "(u, m) \<notin> ?key ` set (reports s)" by auto
    have fresh: "Some (next_pk (map rep_pk (reports s))) \<notin> rep_pk ` set (reports s)"
      by (rule next_pk_not_in)
    from assms nokey fresh have wf: "reports_wf (s\<lparr>reports := reports s @ [?new]\<rparr>)"
      by (auto simp: reports_wf_def)
    have rows: "report_rows (s\<lparr>reports := reports s @ [?new]\<rparr>) u m = [?new]"
      using 1 by (simp add: report_rows_def)
    from res wf rows 1 show ?thesis by auto
  next
    case 2
    let ?r' = "r\<lparr>rep_total_income := total_income t, rep_total_expenses := total_expenses t,
        rep_total_investments := total_investments t, rep_total_savings := total_savings t,
        rep_pdf_file := path\<rparr>"
    have "r \<in> set (report_rows s u m)" by (simp add: 2)
    then have mem: "r \<in> set (reports s)" and key: "rep_user r = u" "rep_month_year r = m"
      by (simp_all add: report_rows_def)
    from assms mem have "rep_pk r \<noteq> None"
      unfolding reports_wf_def by (metis image_eqI set_map)
    then obtain k where k: "rep_pk r = Some k" by blast
    from mem k have ex: "list_ex (\<lambda>x. rep_pk x = Some k) (reports s)" by (auto simp: list_ex_iff)
    from assms have d: "distinct (map rep_pk (reports s))" by (simp add: reports_wf_def)
    have rep: "map (\<lambda>x. if rep_pk x = Some k then ?r' else x) (reports s) =
        map (\<lambda>x. if x = r then ?r' else x) (reports s)"
      using replace_by_pk [OF d mem, of ?r'] k by simp
    from 2 k ex rep have res: "MonthlyReport_update_or_create u m t path s =
        Inr ((?r', False), s\<lparr>reports := map (\<lambda>x. if x = r then ?r' else x) (reports s)\<rparr>)"
      by (simp add: MonthlyReport_update_or_create_def report_rows_def save_row_def Let_def)
    have k1: "map ?key (map (\<lambda>x. if x = r then ?r' else x) (reports s)) = map ?key (reports s)"
      by (rule map_replace_same) simp
    have k2: "map rep_pk (map (\<lambda>x. if x = r then ?r' else x) (reports s)) = map rep_pk (reports s)"
      by (rule map_replace_same) simp
    have sel: "reports (s\<lparr>reports := xs\<rparr>) = xs" for xs by simp
    from assms have wf: "reports_wf (s\<lparr>reports := map (\<lambda>x. if x = r then ?r' else x) (reports s)\<rparr>)"
      unfolding reports_wf_def sel k1 k2 .
    have "filter (\<lambda>x. rep_user x = u \<and> rep_month_year x = m)
          (map (\<lambda>x. if x = r then ?r' else x) (reports s)) =
        map (\<lambda>x. if x = r then ?r' else x) (filter (\<lambda>x. rep_user x = u \<and> rep_month_year x = m) (reports s))"
      by (rule filter_replace) simp
    with 2 have rows: "report_rows (s\<lparr>reports := map (\<lambda>x. if x = r then ?r' else x) (reports s)\<rparr>) u m = [?r']"
      by (simp add: report_rows_def)
    from res wf rows 2 show ?thesis by auto
  qed
qed

lemma trend_loop_cong:
  assumes "expenses s = expenses s'"
  shows "trend_loop s u now is acc = trend_loop s' u now is acc"
proof (induction "is" arbitrary: acc)
  case Nil
  show ?case by simp
next
  case (Cons i "is")
  from assms have "expense_total s u x = expense_total s' u x" for x
    by (simp add: expense_total_def)
  with Cons show ?case by (simp add: Let_def split: option.splits)
qed

lemma spending_trend_cong:
  "expenses s = expenses s' \<Longrightarrow> spending_trend s u now n = spending_trend s' u now n"
  by (simp add: spending_trend_def trend_loop_cong [of s s'])

lemma open_response_written:
  "files w path = Some content \<Longrightarrow> open_response path w = Inr (FileResponse (basename path) content)"
  by (simp add: open_response_def)

lemma pdf_attempt_Inr:
  assumes wf: "reports_wf (store w)"
    and t: "spending_trend (store w) (user_pk u) now 6 = Inr xs"
    and b: "doc_build ev = Inr bytes"
  shows "\<exists>r s2. pdf_attempt ev u m t path now w =
           Inr (FileResponse (basename path) bytes, (write_file path bytes w)\<lparr>store := s2\<rparr>) \<and>
         reports_wf s2 \<and> report_rows s2 (user_pk u) m = [r] \<and> rep_pdf_file r = path"
proof -
  have st: "store (write_file path bytes w) = store w" by (simp add: write_file_def)
  from MonthlyReport_update_or_create_wf [OF wf, of "user_pk u" m t path]
  obtain r created s2 where
    uc: "MonthlyReport_update_or_create (user_pk u) m t path (store w) = Inr ((r, created), s2)"
    and r: "reports_wf s2" "report_rows s2 (user_pk u) m = [r]" "rep_pdf_file r = path"
    by blast
  have f: "files ((write_file path bytes w)\<lparr>store := s2\<rparr>) path = Some bytes"
    by (simp add: write_file_def)
  have "pdf_attempt ev u m t path now w =
      Inr (FileResponse (basename path) bytes, (write_file path bytes w)\<lparr>store := s2\<rparr>)"
    by (simp add: pdf_attempt_def t b st uc Let_def open_response_written [OF f])
  with r show ?thesis by blast
qed

lemma pdf_attempt_Inl:
  assumes "(\<exists>e. spending_trend (store w) (user_pk u) now 6 = Inl e) \<or> (\<exists>e. doc_build ev = Inl e)"
  shows "\<exists>e. pdf_attempt ev u m t path now w = Inl (e, w)"
  using assms by (auto simp: pdf_attempt_def split: sum.splits)

text \<open>
  What a POST to the report view does to the report table, when the table satisfies its
  constraint: without ReportLab, and with it when the document builds, the (owner, bucket)
  of the request has exactly one row afterwards, which names the file that is served; when
  ReportLab is importable and the attempt raises, the table is left as it was, so that a
  bucket without a row still has none. In every case the constraint still holds.
\<close>

lemma download_report_report_rows:
  assumes wf: "reports_wf (store w)" and post: "req_method request = ''POST''"
  shows "reports_wf (store (snd (download_report ev request now w)))"
    and "\<not> reportlab_importable ev \<or>
         (\<exists>xs bytes. spending_trend (store w) (user_pk (req_user request)) now 6 = Inr xs \<and>
                     doc_build ev = Inr bytes) \<Longrightarrow>
         \<exists>r. report_rows (store (snd (download_report ev request now w)))
                (user_pk (req_user request)) (strftime_Ym now) = [r] \<and>
             rep_pdf_file r =
               (if reportlab_importable ev then report_pdf_path (req_user request) (strftime_Ym now)
                else report_txt_path (req_user request) (strftime_Ym now))"
    and "reportlab_importable ev \<Longrightarrow>
         (\<exists>e. spending_trend (store w) (user_pk (req_user request)) now 6 = Inl e) \<or>
         (\<exists>e. doc_build ev = Inl e) \<Longrightarrow>
         reports (store (snd (download_report ev request now w))) = reports (store w)"
proof -
  let ?m = "strftime_Ym now" and ?u = "req_user request"
  let ?t = "fst (monthly_totals ?u ?m (store w))"
  let ?s1 = "snd (monthly_totals ?u ?m (store w))"
  let ?w1 = "w\<lparr>store := ?s1\<rparr>"
  let ?w' = "snd (download_report ev request now w)"
  have r1: "reports ?s1 = reports (store w)" by (rule monthly_totals_tables)
  have wf1: "reports_wf (store ?w1)" using wf by (simp add: reports_wf_def r1)
  have tr: "spending_trend (store ?w1) (user_pk ?u) now 6 = spending_trend (store w) (user_pk ?u) now 6"
    by (rule spending_trend_cong) (simp add: monthly_totals_tables)
  have unavailable: "reports_wf (store ?w') \<and>
      (\<exists>r. report_rows (store ?w') (user_pk ?u) ?m = [r] \<and> rep_pdf_file r = report_txt_path ?u ?m)"
    if no: "\<not> reportlab_importable ev"
  proof -
    let ?w2 = "write_file (report_txt_path ?u ?m) (text_summary (DEFAULT_CURRENCY_SYMBOL ev) ?u ?m ?t now) ?w1"
    have st: "store ?w2 = ?s1" by (simp add: write_file_def)
    from wf1 have wf2: "reports_wf (store ?w2)" by (simp add: st)
    from MonthlyReport_update_or_create_wf [OF wf2, of "user_pk ?u" ?m ?t "report_txt_path ?u ?m"]
    obtain r created s2 where
      uc: "MonthlyReport_update_or_create (user_pk ?u) ?m ?t (report_txt_path ?u ?m) (store ?w2) =
           Inr ((r, created), s2)"
      and r: "reports_wf s2" "report_rows s2 (user_pk ?u) ?m = [r]" "rep_pdf_file r = report_txt_path ?u ?m"
      by blast
    have "store ?w' = s2"
      by (simp add: download_report_unavailable [OF post no] Let_def uc add_message_def)
    with r show ?thesis by simp
  qed
  have built: "reports_wf (store ?w') \<and>
      (\<exists>r. report_rows (store ?w') (user_pk ?u) ?m = [r] \<and> rep_pdf_file r = report_pdf_path ?u ?m)"
    if rl: "reportlab_importable ev"
      and t: "spending_trend (store w) (user_pk ?u) now 6 = Inr xs" and b: "doc_build ev = Inr bytes"
    for xs bytes
  proof -
    from t have t1: "spending_trend (store ?w1) (user_pk ?u) now 6 = Inr xs" by (simp only: tr)
    from pdf_attempt_Inr [OF wf1 t1 b, where m = ?m and t = ?t and path = "report_pdf_path ?u ?m"]
    obtain r s2 where
      pa: "pdf_attempt ev ?u ?m ?t (report_pdf_path ?u ?m) now ?w1 =
           Inr (FileResponse (basename (report_pdf_path ?u ?m)) bytes,
                (write_file (report_pdf_path ?u ?m) bytes ?w1)\<lparr>store := s2\<rparr>)"
      and r: "reports_wf s2" "report_rows s2 (user_pk ?u) ?m = [r]" "rep_pdf_file r = report_pdf_path ?u ?m"
      by blast
    have "store ?w' = s2"
      by (simp add: download_report_available [OF post rl] Let_def pa)
    with r show ?thesis by simp
  qed
  have raised: "reports (store ?w') = reports (store w)"
    if rl: "reportlab_importable ev"
      and f: "(\<exists>e. spending_trend (store w) (user_pk ?u) now 6 = Inl e) \<or> (\<exists>e. doc_build ev = Inl e)"
  proof -
    from f have "(\<exists>e. spending_trend (store ?w1) (user_pk ?u) now 6 = Inl e) \<or> (\<exists>e. doc_build ev = Inl e)"
      by (simp only: tr)
    from pdf_attempt_Inl [OF this, where m = ?m and t = ?t and path = "report_pdf_path ?u ?m"]
    obtain e where pa: "pdf_attempt ev ?u ?m ?t (report_pdf_path ?u ?m) now ?w1 = Inl (e, ?w1)"
      by blast
    have "store ?w' = ?s1"
      by (simp add: download_report_available [OF post rl] Let_def pa add_message_def write_file_def)
    with r1 show ?thesis by simp
  qed
  show "reports_wf (store ?w')"
  proof (cases "reportlab_importable ev")
    case False
    with unavailable show ?thesis by blast
  next
    case rl: True
    show ?thesis
    proof (cases "spending_trend (store w) (user_pk ?u) now 6")
      case (Inl e)
      with raised [OF rl] have "reports (store ?w') = reports (store w)" by blast
      with wf show ?thesis by (simp add: reports_wf_def)
    next
      case t: (Inr xs)
      show ?thesis
      proof (cases "doc_build ev")
        case (Inl e)
        with raised [OF rl] have "reports (store ?w') = reports (store w)" by blast
        with wf show ?thesis by (simp add: reports_wf_def)
      next
        case (Inr bytes)
        from built [OF rl t Inr] show ?thesis by blast
      qed
    qed
  qed
  show "\<exists>r. report_rows (store ?w') (user_pk ?u) ?m = [r] \<and>
             rep_pdf_file r =
               (if reportlab_importable ev then report_pdf_path ?u ?m else report_txt_path ?u ?m)"
    if "\<not> reportlab_importable ev \<or>
         (\<exists>xs bytes. spending_trend (store w) (user_pk ?u) now 6 = Inr xs \<and> doc_build ev = Inr bytes)"
  proof (cases "reportlab_importable ev")
    case False
    with unavailable show ?thesis by simp
  next
    case True
    with that obtain xs bytes where "spending_trend (store w) (user_pk ?u) now 6 = Inr xs"
      "doc_build ev = Inr bytes" by blast
    from built [OF True this] True show ?thesis by simp
  qed
  show "reports (store ?w') = reports (store w)"
    if "reportlab_importable ev"
      "(\<exists>e. spending_trend (store w) (user_pk ?u) now 6 = Inl e) \<or> (\<exists>e. doc_build ev = Inl e)"
    using raised [OF that] .
qed

end
